theory Spec2Isabelle
  imports Main "HOL-Library.Word"
begin

unbundle bit_operations_syntax

section \<open>Protocol constants (Protocol.hpp)\<close>

type_synonym byte = "8 word"

definition START_BYTE :: byte where
  "START_BYTE = 0x7E"

definition END_BYTE :: byte where
  "END_BYTE = 0x7F"

definition VERSION :: byte where
  "VERSION = 0x01"

definition MAX_PACKET_SIZE :: nat where
  "MAX_PACKET_SIZE = 8 * 1024"

definition GetMinFrameSize :: nat where
  "GetMinFrameSize = 11"

section \<open>Scalars in memory\<close>

text \<open>
  The codec copies scalars to and from the byte region with \<^verbatim>\<open>memcpy\<close>, after
  \<^verbatim>\<open>htonl\<close>/\<^verbatim>\<open>htons\<close> for the integers. What lands in memory therefore depends on the
  byte order of the host, which is a parameter \<open>h\<close> of every operation that touches a
  multi-byte scalar. A \<^verbatim>\<open>float\<close> and a \<^verbatim>\<open>double\<close> are their IEEE-754 bit patterns
  (\<open>32 word\<close>, \<open>64 word\<close>).
\<close>

datatype endian = LittleEndian | BigEndian

definition be16 :: "16 word \<Rightarrow> byte list" where
  "be16 x = [ucast (drop_bit 8 x), ucast x]"

definition be32 :: "32 word \<Rightarrow> byte list" where
  "be32 x = [ucast (drop_bit 24 x), ucast (drop_bit 16 x), ucast (drop_bit 8 x), ucast x]"

definition be64 :: "64 word \<Rightarrow> byte list" where
  "be64 x = [ucast (drop_bit 56 x), ucast (drop_bit 48 x), ucast (drop_bit 40 x),
             ucast (drop_bit 32 x), ucast (drop_bit 24 x), ucast (drop_bit 16 x),
             ucast (drop_bit 8 x), ucast x]"

fun de16 :: "byte list \<Rightarrow> 16 word" where
  "de16 [a, b] = push_bit 8 (ucast a) OR ucast b"
| "de16 _ = 0"

fun de32 :: "byte list \<Rightarrow> 32 word" where
  "de32 [a, b, c, d] =
     push_bit 24 (ucast a) OR push_bit 16 (ucast b) OR push_bit 8 (ucast c) OR ucast d"
| "de32 _ = 0"

fun de64 :: "byte list \<Rightarrow> 64 word" where
  "de64 [a, b, c, d, e, f, g, k] =
     push_bit 56 (ucast a) OR push_bit 48 (ucast b) OR push_bit 40 (ucast c) OR
     push_bit 32 (ucast d) OR push_bit 24 (ucast e) OR push_bit 16 (ucast f) OR
     push_bit 8 (ucast g) OR ucast k"
| "de64 _ = 0"

text \<open>The object representation of a scalar: its bytes in memory, lowest address first.\<close>

definition obj16 :: "endian \<Rightarrow> 16 word \<Rightarrow> byte list" where
  "obj16 h x = (case h of BigEndian \<Rightarrow> be16 x | LittleEndian \<Rightarrow> rev (be16 x))"

definition obj32 :: "endian \<Rightarrow> 32 word \<Rightarrow> byte list" where
  "obj32 h x = (case h of BigEndian \<Rightarrow> be32 x | LittleEndian \<Rightarrow> rev (be32 x))"

definition obj64 :: "endian \<Rightarrow> 64 word \<Rightarrow> byte list" where
  "obj64 h x = (case h of BigEndian \<Rightarrow> be64 x | LittleEndian \<Rightarrow> rev (be64 x))"

text \<open>The scalar that a run of bytes in memory denotes (0 when the run has the wrong size:
  every reader below initialises its variable to 0 before copying into it).\<close>

definition val16 :: "endian \<Rightarrow> byte list \<Rightarrow> 16 word" where
  "val16 h bs = (case h of BigEndian \<Rightarrow> de16 bs | LittleEndian \<Rightarrow> de16 (rev bs))"

definition val32 :: "endian \<Rightarrow> byte list \<Rightarrow> 32 word" where
  "val32 h bs = (case h of BigEndian \<Rightarrow> de32 bs | LittleEndian \<Rightarrow> de32 (rev bs))"

definition val64 :: "endian \<Rightarrow> byte list \<Rightarrow> 64 word" where
  "val64 h bs = (case h of BigEndian \<Rightarrow> de64 bs | LittleEndian \<Rightarrow> de64 (rev bs))"

text \<open>\<^verbatim>\<open>htons\<close>, \<^verbatim>\<open>htonl\<close>, \<^verbatim>\<open>ntohs\<close>, \<^verbatim>\<open>ntohl\<close>: the identity on a big-endian host, a byte swap
  on a little-endian one.\<close>

definition htons :: "endian \<Rightarrow> 16 word \<Rightarrow> 16 word" where
  "htons h x = (case h of BigEndian \<Rightarrow> x | LittleEndian \<Rightarrow> de16 (rev (be16 x)))"

definition htonl :: "endian \<Rightarrow> 32 word \<Rightarrow> 32 word" where
  "htonl h x = (case h of BigEndian \<Rightarrow> x | LittleEndian \<Rightarrow> de32 (rev (be32 x)))"

definition ntohs :: "endian \<Rightarrow> 16 word \<Rightarrow> 16 word" where
  "ntohs h x = htons h x"

definition ntohl :: "endian \<Rightarrow> 32 word \<Rightarrow> 32 word" where
  "ntohl h x = htonl h x"

section \<open>Exceptions and raw memory\<close>

text \<open>
  The exceptions of \<^verbatim>\<open><stdexcept>\<close> that the code throws, with their messages.
  \<open>bad_alloc\<close> is \<^verbatim>\<open>std::bad_alloc\<close>, which a standard container throws when the allocator
  cannot give it the memory it asks for. \<open>memory_fault\<close> and \<open>deadlock\<close> are not C++
  exceptions: the first stands for an access outside a byte region, the second for a thread
  locking a \<^verbatim>\<open>std::mutex\<close> that it already owns (both undefined behaviour), and no
  \<^verbatim>\<open>catch\<close> handles them.
\<close>

datatype exn =
    invalid_argument string
  | overflow_error string
  | underflow_error string
  | out_of_range string
  | bad_alloc
  | memory_fault
  | deadlock

fun is_std_exception :: "exn \<Rightarrow> bool" where
  "is_std_exception memory_fault = False"
| "is_std_exception deadlock = False"
| "is_std_exception _ = True"

fun what :: "exn \<Rightarrow> string" where
  "what (invalid_argument m) = m"
| "what (overflow_error m) = m"
| "what (underflow_error m) = m"
| "what (out_of_range m) = m"
| "what bad_alloc = ''std::bad_alloc''"
| "what memory_fault = []"
| "what deadlock = []"

text \<open>\<^verbatim>\<open>memcpy(region + off, src, n)\<close> and \<^verbatim>\<open>memcpy(dst, region + off, n)\<close>.\<close>

definition memcpy_to :: "byte list \<Rightarrow> nat \<Rightarrow> byte list \<Rightarrow> nat \<Rightarrow> exn + byte list" where
  "memcpy_to region off src n =
     (if n \<le> length src \<and> off + n \<le> length region
      then Inr (take off region @ take n src @ drop (off + n) region)
      else Inl memory_fault)"

definition memcpy_from :: "byte list \<Rightarrow> nat \<Rightarrow> nat \<Rightarrow> exn + byte list" where
  "memcpy_from region off n =
     (if off + n \<le> length region then Inr (take n (drop off region)) else Inl memory_fault)"

section \<open>ByteBuffer (ByteBuffer.hpp, ByteBuffer.cpp)\<close>

text \<open>
  A ByteBuffer is a cursor over a caller-supplied region. The pair \<^verbatim>\<open>buffer_\<close>, \<^verbatim>\<open>length_\<close> of
  the class is the list \<open>bb_buffer\<close> of the region's bytes, so that \<^verbatim>\<open>length_\<close> is its
  length; \<^verbatim>\<open>position_\<close> is \<open>bb_position\<close>. The object is mutated in place and its
  operations throw, so an operation maps the object to a result or an exception together
  with the object as the operation left it.
\<close>

record ByteBuffer =
  bb_buffer :: "byte list"
  bb_position :: nat

type_synonym 'a bb = "ByteBuffer \<Rightarrow> (exn + 'a) \<times> ByteBuffer"

definition bb_return :: "'a \<Rightarrow> 'a bb" where
  "bb_return x b = (Inr x, b)"

definition bb_throw :: "exn \<Rightarrow> 'a bb" where
  "bb_throw e b = (Inl e, b)"

definition bb_bind :: "'a bb \<Rightarrow> ('a \<Rightarrow> 'b bb) \<Rightarrow> 'b bb" where
  "bb_bind m f b = (case m b of (Inl e, b') \<Rightarrow> (Inl e, b') | (Inr x, b') \<Rightarrow> f x b')"

definition bb_then :: "unit bb \<Rightarrow> 'b bb \<Rightarrow> 'b bb" where
  "bb_then m k = bb_bind m (\<lambda>_. k)"

text \<open>The constructor: a null region and a zero length are rejected.\<close>

definition ByteBuffer_ctor :: "byte list option \<Rightarrow> exn + ByteBuffer" where
  "ByteBuffer_ctor buffer =
     (case buffer of
        None \<Rightarrow> Inl (invalid_argument ''ByteBuffer: buffer cannot be null'')
      | Some region \<Rightarrow>
          if length region = 0 then Inl (invalid_argument ''ByteBuffer: length must be > 0'')
          else Inr \<lparr>bb_buffer = region, bb_position = 0\<rparr>)"

definition Capacity :: "ByteBuffer \<Rightarrow> nat" where
  "Capacity b = length (bb_buffer b)"

definition Position :: "ByteBuffer \<Rightarrow> nat" where
  "Position b = bb_position b"

definition CheckBoundary :: "ByteBuffer \<Rightarrow> nat \<Rightarrow> bool" where
  "CheckBoundary b sz = (bb_position b + sz \<le> Capacity b)"

definition WriteBytes :: "byte list \<Rightarrow> nat \<Rightarrow> unit bb" where
  "WriteBytes data sz b =
     (if \<not> CheckBoundary b sz
      then (Inl (overflow_error ''ByteBuffer: write would exceed buffer bounds''), b)
      else (case memcpy_to (bb_buffer b) (bb_position b) data sz of
              Inl e \<Rightarrow> (Inl e, b)
            | Inr region \<Rightarrow>
                (Inr (), b\<lparr>bb_buffer := region, bb_position := bb_position b + sz\<rparr>)))"

definition ReadBytes :: "nat \<Rightarrow> (byte list) bb" where
  "ReadBytes sz b =
     (if \<not> CheckBoundary b sz
      then (Inl (underflow_error ''ByteBuffer: read would exceed buffer bounds''), b)
      else (case memcpy_from (bb_buffer b) (bb_position b) sz of
              Inl e \<Rightarrow> (Inl e, b)
            | Inr data \<Rightarrow> (Inr data, b\<lparr>bb_position := bb_position b + sz\<rparr>)))"

subsection \<open>Write operations\<close>

definition PutByte :: "byte \<Rightarrow> unit bb" where
  "PutByte data = WriteBytes [data] 1"

definition PutInt :: "endian \<Rightarrow> 32 word \<Rightarrow> unit bb" where
  "PutInt h data = WriteBytes (obj32 h (htonl h data)) 4"

definition PutShort :: "endian \<Rightarrow> 16 word \<Rightarrow> unit bb" where
  "PutShort h data = WriteBytes (obj16 h (htons h data)) 2"

text \<open>\<^verbatim>\<open>data >> 32\<close> on an \<^verbatim>\<open>int64_t\<close> is an arithmetic shift; the cast to \<^verbatim>\<open>uint32_t\<close> keeps the
  low 32 bits.\<close>

definition PutLong :: "endian \<Rightarrow> 64 word \<Rightarrow> unit bb" where
  "PutLong h data =
     (let high = htonl h (ucast (signed_drop_bit 32 data));
          low = htonl h (ucast (data AND 0xFFFFFFFF))
      in bb_then (WriteBytes (obj32 h high) 4) (WriteBytes (obj32 h low) 4))"

definition PutFloat :: "endian \<Rightarrow> 32 word \<Rightarrow> unit bb" where
  "PutFloat h data = WriteBytes (obj32 h data) 4"

definition PutDouble :: "endian \<Rightarrow> 64 word \<Rightarrow> unit bb" where
  "PutDouble h data = WriteBytes (obj64 h data) 8"

text \<open>A \<^verbatim>\<open>std::string\<close> is a \<open>string\<close>; its bytes are the codes of its characters.\<close>

definition string_bytes :: "string \<Rightarrow> byte list" where
  "string_bytes s = map of_char s"

definition bytes_string :: "byte list \<Rightarrow> string" where
  "bytes_string bs = map (\<lambda>x. char_of (unat x)) bs"

definition PutString :: "endian \<Rightarrow> string \<Rightarrow> unit bb" where
  "PutString h data =
     (let len = (of_nat (length data) :: 32 word)
      in bb_then (PutInt h len)
           (if len > 0 then WriteBytes (string_bytes data) (unat len) else bb_return ()))"

text \<open>An \<^verbatim>\<open>unordered_map\<close> is given by its entries in iteration order (an order the
  container chooses; their keys are distinct).\<close>

fun PutMap_loop :: "endian \<Rightarrow> (string \<times> string) list \<Rightarrow> unit bb" where
  "PutMap_loop h [] = bb_return ()"
| "PutMap_loop h ((key, val) # rest) =
     bb_then (PutString h key) (bb_then (PutString h val) (PutMap_loop h rest))"

definition PutMap :: "endian \<Rightarrow> (string \<times> string) list \<Rightarrow> unit bb" where
  "PutMap h data = bb_then (PutInt h (of_nat (length data))) (PutMap_loop h data)"

definition PutArray :: "endian \<Rightarrow> byte list option \<Rightarrow> 32 word \<Rightarrow> unit bb" where
  "PutArray h data len =
     bb_then (PutInt h len)
       (if len > 0
        then (case data of
                None \<Rightarrow> bb_throw (invalid_argument ''ByteBuffer::PutArray: data cannot be null'')
              | Some d \<Rightarrow> WriteBytes d (unat len))
        else bb_return ())"

subsection \<open>Read operations\<close>

definition GetByte :: "byte bb" where
  "GetByte = bb_bind (ReadBytes 1) (\<lambda>bs. bb_return (case bs of [x] \<Rightarrow> x | _ \<Rightarrow> 0))"

definition GetInt :: "endian \<Rightarrow> (32 word) bb" where
  "GetInt h = bb_bind (ReadBytes 4) (\<lambda>bs. bb_return (ntohl h (val32 h bs)))"

definition GetShort :: "endian \<Rightarrow> (16 word) bb" where
  "GetShort h = bb_bind (ReadBytes 2) (\<lambda>bs. bb_return (ntohs h (val16 h bs)))"

definition GetLong :: "endian \<Rightarrow> (64 word) bb" where
  "GetLong h =
     bb_bind (ReadBytes 4) (\<lambda>hs.
     bb_bind (ReadBytes 4) (\<lambda>ls.
       let high = ntohl h (val32 h hs); low = ntohl h (val32 h ls)
       in bb_return (push_bit 32 (ucast high) OR ucast low)))"

definition GetFloat :: "endian \<Rightarrow> (32 word) bb" where
  "GetFloat h = bb_bind (ReadBytes 4) (\<lambda>bs. bb_return (val32 h bs))"

definition GetDouble :: "endian \<Rightarrow> (64 word) bb" where
  "GetDouble h = bb_bind (ReadBytes 8) (\<lambda>bs. bb_return (val64 h bs))"

definition GetString :: "endian \<Rightarrow> string bb" where
  "GetString h =
     bb_bind (GetInt h) (\<lambda>len b.
       if len = 0 then (Inr [], b)
       else if \<not> CheckBoundary b (unat len)
       then (Inl (underflow_error ''ByteBuffer::GetString: string length exceeds buffer''), b)
       else (case memcpy_from (bb_buffer b) (bb_position b) (unat len) of
               Inl e \<Rightarrow> (Inl e, b)
             | Inr bs \<Rightarrow> (Inr (bytes_string bs), b\<lparr>bb_position := bb_position b + unat len\<rparr>)))"

fun GetMap_loop :: "endian \<Rightarrow> nat \<Rightarrow> (string \<rightharpoonup> string) \<Rightarrow> (string \<rightharpoonup> string) bb" where
  "GetMap_loop h 0 result = bb_return result"
| "GetMap_loop h (Suc n) result =
     bb_bind (GetString h) (\<lambda>key.
     bb_bind (GetString h) (\<lambda>val.
       GetMap_loop h n (result(key \<mapsto> val))))"

text \<open>
  \<^verbatim>\<open>result.reserve(count)\<close> makes the empty table allocate room for \<open>count\<close> elements, before
  any entry is read, and throws \<^verbatim>\<open>std::bad_alloc\<close> when the allocator refuses. \<open>count\<close> is
  whatever the four bytes on the wire say, up to \<open>2^32 - 1\<close>, so whether the allocator grants
  the request is a fact about the process and not about the region: \<open>heap n\<close> says whether it
  grants a table for \<open>n\<close> elements. (The strings and the table nodes of the entries actually
  read are no larger than the bytes present in the region; their allocation is taken to
  succeed.)
\<close>

definition reserve :: "(nat \<Rightarrow> bool) \<Rightarrow> nat \<Rightarrow> unit bb" where
  "reserve heap n b = (if heap n then (Inr (), b) else (Inl bad_alloc, b))"

definition GetMap :: "endian \<Rightarrow> (nat \<Rightarrow> bool) \<Rightarrow> (string \<rightharpoonup> string) bb" where
  "GetMap h heap =
     bb_bind (GetInt h) (\<lambda>count.
     bb_then (reserve heap (unat count)) (GetMap_loop h (unat count) Map.empty))"

text \<open>\<^verbatim>\<open>GetArray(data, max_len)\<close>: \<open>data_null\<close> says that the destination pointer is null;
  the result is the bytes copied to the destination, whose number is the return value.\<close>

definition GetArray :: "endian \<Rightarrow> bool \<Rightarrow> 32 word \<Rightarrow> (byte list) bb" where
  "GetArray h data_null max_len =
     bb_bind (GetInt h) (\<lambda>len.
       if data_null \<and> len > 0
       then bb_throw (invalid_argument ''ByteBuffer::GetArray: data cannot be null'')
       else if len > max_len
       then bb_throw (overflow_error ''ByteBuffer::GetArray: array size exceeds destination buffer'')
       else if len > 0 then ReadBytes (unat len)
       else bb_return [])"

subsection \<open>Buffer management\<close>

definition Reset :: "unit bb" where
  "Reset b = (Inr (), b\<lparr>bb_position := 0\<rparr>)"

definition SetPosition :: "nat \<Rightarrow> unit bb" where
  "SetPosition pos b =
     (if pos > Capacity b
      then (Inl (out_of_range ''ByteBuffer::SetPosition: position exceeds buffer length''), b)
      else (Inr (), b\<lparr>bb_position := pos\<rparr>))"

text \<open>\<^verbatim>\<open>Position()\<close> as a step of a sequence of operations on one ByteBuffer, and
  \<open>over_region region m\<close>: construct a ByteBuffer over \<open>region\<close>, run \<open>m\<close> on it, and give the
  result with the region as it is then.\<close>

definition bb_Position :: "nat bb" where
  "bb_Position b = (Inr (Position b), b)"

definition over_region :: "byte list \<Rightarrow> 'a bb \<Rightarrow> (exn + 'a) \<times> byte list" where
  "over_region region m =
     (case ByteBuffer_ctor (Some region) of
        Inl e \<Rightarrow> (Inl e, region)
      | Inr b \<Rightarrow> (case m b of (r, b') \<Rightarrow> (r, bb_buffer b')))"

section \<open>Services and their registry (IService.hpp, ServiceManager.cpp)\<close>

text \<open>
  A service is the object behind the \<^verbatim>\<open>IService\<close> interface. \<open>Execute svc input output\<close> is
  the call \<^verbatim>\<open>Execute(input, input_len, output, output_len)\<close>: \<open>input\<close> is the \<^verbatim>\<open>input_len\<close>
  bytes at \<^verbatim>\<open>input\<close>, \<open>output\<close> the \<^verbatim>\<open>output_len\<close> bytes at \<^verbatim>\<open>output\<close>; the result is the return
  value or the exception thrown, with the output region as the call left it.
\<close>

record IService =
  GetRequestRoutineId :: "32 word"
  GetResponseRoutineId :: "32 word"
  GetName :: string
  Execute :: "byte list \<Rightarrow> byte list \<Rightarrow> (exn + nat) \<times> byte list"

text \<open>
  What a call does besides computing its result is recorded as a list of events, in program
  order: taking and releasing the registry mutex, looking a routine id up in the table,
  inserting into it, calling a handler's \<open>Execute\<close>, and \<^verbatim>\<open>send\<close> on a socket.
\<close>

datatype event =
    Lock
  | Unlock
  | Find "32 word"
  | Insert "32 word"
  | Invoke "32 word" "byte list"
  | Send int "byte list"

text \<open>The registry: the table \<^verbatim>\<open>services_\<close> from routine id to service (a null
  \<^verbatim>\<open>shared_ptr\<close> is \<open>None\<close>).\<close>

record ServiceManager =
  services :: "32 word \<rightharpoonup> IService"

definition RegisterService ::
  "ServiceManager \<Rightarrow> IService option \<Rightarrow> bool \<times> ServiceManager \<times> event list" where
  "RegisterService sm service =
     (case service of
        None \<Rightarrow> (False, sm, [])
      | Some svc \<Rightarrow>
          (let routine_id = GetRequestRoutineId svc
           in if services sm routine_id \<noteq> None
              then (False, sm, [Lock, Find routine_id, Unlock])
              else (True, sm\<lparr>services := (services sm)(routine_id \<mapsto> svc)\<rparr>,
                    [Lock, Find routine_id, Insert routine_id, Unlock])))"

definition IsRoutinePresent :: "ServiceManager \<Rightarrow> 32 word \<Rightarrow> bool" where
  "IsRoutinePresent sm routine_id = (services sm routine_id \<noteq> None)"

text \<open>\<^verbatim>\<open>catch (const std::exception&)\<close> around the handler: a standard exception becomes the
  return value 0.\<close>

definition ExecuteService ::
  "ServiceManager \<Rightarrow> 32 word \<Rightarrow> byte list \<Rightarrow> byte list \<Rightarrow>
     (exn + nat) \<times> byte list \<times> event list" where
  "ExecuteService sm routine_id input output =
     (case services sm routine_id of
        None \<Rightarrow> (Inr 0, output, [Lock, Find routine_id, Unlock])
      | Some service \<Rightarrow>
          (case Execute service input output of
             (Inr n, output') \<Rightarrow>
               (Inr n, output', [Lock, Find routine_id, Unlock, Invoke routine_id input])
           | (Inl e, output') \<Rightarrow>
               (if is_std_exception e then Inr 0 else Inl e, output',
                [Lock, Find routine_id, Unlock, Invoke routine_id input])))"

definition Clear :: "ServiceManager \<Rightarrow> ServiceManager" where
  "Clear sm = sm\<lparr>services := Map.empty\<rparr>"

text \<open>The handler of the unit tests (test_service_manager.cpp): it ignores its input and
  answers with a frame whose payload is the byte 0x42. (Its call counter is not modelled.)\<close>

definition MockService_Execute ::
  "endian \<Rightarrow> 32 word \<Rightarrow> byte list \<Rightarrow> byte list \<Rightarrow> (exn + nat) \<times> byte list" where
  "MockService_Execute h resp_id input output =
     over_region output
       (bb_then (PutByte START_BYTE)
       (bb_then (PutInt h 0)
       (bb_then (PutInt h resp_id)
       (bb_then (PutByte VERSION)
       (bb_then (PutByte 0x42)
       (bb_then (PutByte END_BYTE)
       (bb_bind bb_Position (\<lambda>frame_len.
        bb_then (SetPosition 1)
       (bb_then (PutInt h (of_nat frame_len))
       (bb_return frame_len))))))))))"

definition MockService :: "endian \<Rightarrow> 32 word \<Rightarrow> 32 word \<Rightarrow> string \<Rightarrow> IService" where
  "MockService h req_id resp_id name =
     \<lparr>GetRequestRoutineId = req_id, GetResponseRoutineId = resp_id, GetName = name,
      Execute = MockService_Execute h resp_id\<rparr>"

section \<open>The server (UDSServer.hpp, UDSServer.cpp)\<close>

record ClientInfo =
  ci_fd :: int
  ci_last_activity :: int
  ci_recv_buffer :: "byte list"

text \<open>The server thread: not started, running its loop, or returned from its function
  (a returned thread stays joinable until it is joined).\<close>

datatype thread = NotStarted | Running | Returned | Joined

record UDSServer =
  srv_socket_path :: string
  srv_service_manager :: ServiceManager
  srv_running :: bool
  srv_server_thread :: thread
  srv_server_fd :: int
  srv_epoll_fd :: int
  srv_timer_fd :: int
  srv_clients :: "int \<rightharpoonup> ClientInfo"

definition CloseAllClients :: "UDSServer \<Rightarrow> UDSServer" where
  "CloseAllClients srv = srv\<lparr>srv_clients := Map.empty\<rparr>"

definition HandleCleanup :: "UDSServer \<Rightarrow> UDSServer" where
  "HandleCleanup srv =
     (let srv1 = CloseAllClients srv;
          srv2 = (if srv_timer_fd srv1 \<ge> 0 then srv1\<lparr>srv_timer_fd := - 1\<rparr> else srv1);
          srv3 = (if srv_epoll_fd srv2 \<ge> 0 then srv2\<lparr>srv_epoll_fd := - 1\<rparr> else srv2);
          srv4 = (if srv_server_fd srv3 \<ge> 0 then srv3\<lparr>srv_server_fd := - 1\<rparr> else srv3)
      in srv4)"

text \<open>
  \<^verbatim>\<open>server_thread_.join()\<close> as seen by the caller of \<open>Stop\<close>: a thread still in its loop reads
  the cleared \<^verbatim>\<open>running_\<close> flag, leaves the loop and runs \<open>HandleCleanup\<close> before it returns;
  a thread that has returned has done so already.
\<close>

definition joinable :: "thread \<Rightarrow> bool" where
  "joinable t = (t = Running \<or> t = Returned)"

definition join :: "UDSServer \<Rightarrow> UDSServer" where
  "join srv =
     (case srv_server_thread srv of
        Running \<Rightarrow> (HandleCleanup srv)\<lparr>srv_server_thread := Joined\<rparr>
      | _ \<Rightarrow> srv\<lparr>srv_server_thread := Joined\<rparr>)"

definition Start :: "UDSServer \<Rightarrow> bool \<times> UDSServer" where
  "Start srv =
     (if srv_running srv then (False, srv)
      else (True, srv\<lparr>srv_running := True, srv_server_thread := Running\<rparr>))"

definition Stop :: "UDSServer \<Rightarrow> UDSServer" where
  "Stop srv =
     (if \<not> srv_running srv then srv
      else (let srv1 = srv\<lparr>srv_running := False\<rparr>
            in if joinable (srv_server_thread srv1) then join srv1 else srv1))"

text \<open>
  \<open>ProcessClientRequest h sm send response client_fd data\<close>: \<open>data\<close> is the \<^verbatim>\<open>len\<close> bytes
  received, \<open>response\<close> the initial content of the local array \<^verbatim>\<open>response\<close> (not initialised
  by the code, so arbitrary), \<open>send fd bytes\<close> the return value of
  \<^verbatim>\<open>send(fd, bytes, length, MSG_NOSIGNAL)\<close>. The result is the return value, or a memory
  fault, and the events of the call.
\<close>

definition catch_std :: "(exn + nat) \<times> event list \<Rightarrow> (exn + nat) \<times> event list" where
  "catch_std r =
     (case r of
        (Inl e, tr) \<Rightarrow> (if is_std_exception e then Inr 0 else Inl e, tr)
      | (Inr n, tr) \<Rightarrow> (Inr n, tr))"

definition ProcessClientRequest ::
  "endian \<Rightarrow> ServiceManager \<Rightarrow> (int \<Rightarrow> byte list \<Rightarrow> int) \<Rightarrow> byte list \<Rightarrow> int \<Rightarrow> byte list \<Rightarrow>
     (exn + nat) \<times> event list" where
  "ProcessClientRequest h sm send response client_fd data =
     (let len = length data
      in if len < GetMinFrameSize then (Inr 0, [])
         else catch_std
           (case ByteBuffer_ctor (Some data) of
              Inl e \<Rightarrow> (Inl e, [])
            | Inr request0 \<Rightarrow>
           (case GetByte request0 of
              (Inl e, _) \<Rightarrow> (Inl e, [])
            | (Inr start, request1) \<Rightarrow>
           if start \<noteq> START_BYTE then (Inr 0, [])
           else
           (case GetInt h request1 of
              (Inl e, _) \<Rightarrow> (Inl e, [])
            | (Inr frame_len, request2) \<Rightarrow>
           (case GetInt h request2 of
              (Inl e, _) \<Rightarrow> (Inl e, [])
            | (Inr routine_id, request3) \<Rightarrow>
           (case GetByte request3 of
              (Inl e, _) \<Rightarrow> (Inl e, [])
            | (Inr version, request4) \<Rightarrow>
           if version \<noteq> VERSION then (Inr 0, [])
           else
           (let payload_start = Position request4;
                payload_len = len - payload_start - 1
            in case ExecuteService sm routine_id
                      (take payload_len (drop payload_start data)) response of
                 (Inl e, response', tr) \<Rightarrow> (Inl e, tr)
               | (Inr response_len, response', tr) \<Rightarrow>
                   if response_len > 0
                   then (case memcpy_from response' 0 response_len of
                           Inl e \<Rightarrow> (Inl e, tr)
                         | Inr out \<Rightarrow>
                             (if send client_fd out < 0 then Inr 0 else Inr response_len,
                              tr @ [Send client_fd out]))
                   else (Inr 0, tr))))))))"

text \<open>The outcome of \<^verbatim>\<open>recv\<close> on a client socket: an error (with whether \<^verbatim>\<open>errno\<close> says
  "would block"), end of stream, or the bytes read.\<close>

datatype recv_outcome = RecvError bool | RecvClosed | RecvData "byte list"

text \<open>\<open>HandleClientData\<close> returns whether the connection is kept; its caller closes the
  connection when it returns \<open>False\<close>. \<open>now\<close> is the value of \<^verbatim>\<open>time(nullptr)\<close>.\<close>

definition HandleClientData ::
  "endian \<Rightarrow> (int \<Rightarrow> byte list \<Rightarrow> int) \<Rightarrow> byte list \<Rightarrow> int \<Rightarrow> recv_outcome \<Rightarrow> UDSServer \<Rightarrow> int \<Rightarrow>
     (exn + bool) \<times> UDSServer \<times> event list" where
  "HandleClientData h send response now received srv client_fd =
     (case srv_clients srv client_fd of
        None \<Rightarrow> (Inr False, srv, [])
      | Some client \<Rightarrow>
          (case received of
             RecvError would_block \<Rightarrow> (Inr would_block, srv, [])
           | RecvClosed \<Rightarrow> (Inr False, srv, [])
           | RecvData buffer \<Rightarrow>
               (let srv1 = srv\<lparr>srv_clients :=
                             (srv_clients srv)(client_fd \<mapsto> client\<lparr>ci_last_activity := now\<rparr>)\<rparr>
                in case ProcessClientRequest h (srv_service_manager srv1) send response
                          client_fd buffer of
                     (Inl e, tr) \<Rightarrow> (Inl e, srv1, tr)
                   | (Inr response_len, tr) \<Rightarrow> (Inr True, srv1, tr))))"

section \<open>The client channel (Channel.hpp, Channel.cpp)\<close>

text \<open>
  The state of \<^verbatim>\<open>Channel::Impl\<close>. \<open>ch_mutex\<close> says whether the calling thread holds \<^verbatim>\<open>mutex_\<close>,
  a \<^verbatim>\<open>std::mutex\<close>, which is not recursive.
\<close>

record Channel =
  ch_socket_path :: string
  ch_timeout_ms :: int
  ch_socket_fd :: int
  ch_connected :: bool
  ch_last_error :: string
  ch_mutex :: bool
  ch_buffer :: "byte list"

definition Impl :: "string \<Rightarrow> int \<Rightarrow> Channel" where
  "Impl socket_path timeout_ms =
     \<lparr>ch_socket_path = socket_path, ch_timeout_ms = timeout_ms, ch_socket_fd = - 1,
      ch_connected = False, ch_last_error = [], ch_mutex = False,
      ch_buffer = replicate MAX_PACKET_SIZE 0\<rparr>"

text \<open>
  What the socket calls of the channel return is decided by the kernel and the peer: the
  state of that world is a value of a type \<open>'w\<close>, and a \<open>net\<close> says what the calls do in it.
  \<^item> \<open>net_connect path timeout\<close>: the sequence \<^verbatim>\<open>socket\<close>, \<^verbatim>\<open>fcntl\<close>, \<^verbatim>\<open>connect\<close>, \<^verbatim>\<open>poll\<close>,
    \<^verbatim>\<open>getsockopt\<close>, \<^verbatim>\<open>setsockopt\<close> of \<open>Connect\<close>: the error text that \<open>Connect\<close> records, or the
    descriptor of the connected socket;
  \<^item> \<open>net_close fd\<close>: \<^verbatim>\<open>close\<close>;
  \<^item> \<open>net_send fd bytes\<close>: the loop of \<open>SendData\<close> around \<^verbatim>\<open>send\<close>: \<open>None\<close> when all bytes were
    sent, or the error text that \<open>SendData\<close> records;
  \<^item> \<open>net_recv fd max_len\<close>: the loops of \<open>ReceiveData\<close> around \<^verbatim>\<open>recv\<close>: the error text that
    \<open>ReceiveData\<close> records, or the bytes received.
\<close>

record 'w net =
  net_connect :: "string \<Rightarrow> int \<Rightarrow> 'w \<Rightarrow> (string + int) \<times> 'w"
  net_close :: "int \<Rightarrow> 'w \<Rightarrow> 'w"
  net_send :: "int \<Rightarrow> byte list \<Rightarrow> 'w \<Rightarrow> string option \<times> 'w"
  net_recv :: "int \<Rightarrow> nat \<Rightarrow> 'w \<Rightarrow> (string + byte list) \<times> 'w"

text \<open>\<^verbatim>\<open>std::lock_guard<std::mutex> lock(mutex_)\<close> for the rest of a function body \<open>body\<close>,
  which gives a result, the channel and the world.\<close>

definition lock_guard ::
  "Channel \<Rightarrow> 'w \<Rightarrow> (Channel \<Rightarrow> 'a \<times> Channel \<times> 'w) \<Rightarrow> (exn + 'a) \<times> Channel \<times> 'w" where
  "lock_guard ch w body =
     (if ch_mutex ch then (Inl deadlock, ch, w)
      else (case body (ch\<lparr>ch_mutex := True\<rparr>) of
              (r, ch', w') \<Rightarrow> (Inr r, ch'\<lparr>ch_mutex := False\<rparr>, w')))"

definition Connect :: "'w net \<Rightarrow> Channel \<Rightarrow> 'w \<Rightarrow> (exn + bool) \<times> Channel \<times> 'w" where
  "Connect net ch0 w0 =
     lock_guard ch0 w0 (\<lambda>ch.
       if ch_connected ch \<and> ch_socket_fd ch \<ge> 0 then (True, ch, w0)
       else
         (let (ch1, w1) = (if ch_socket_fd ch \<ge> 0
                           then (ch\<lparr>ch_socket_fd := - 1\<rparr>, net_close net (ch_socket_fd ch) w0)
                           else (ch, w0))
          in case net_connect net (ch_socket_path ch1) (ch_timeout_ms ch1) w1 of
               (Inl err, w2) \<Rightarrow> (False, ch1\<lparr>ch_socket_fd := - 1, ch_last_error := err\<rparr>, w2)
             | (Inr fd, w2) \<Rightarrow>
                 (True, ch1\<lparr>ch_socket_fd := fd, ch_connected := True, ch_last_error := []\<rparr>, w2)))"

definition Disconnect :: "'w net \<Rightarrow> Channel \<Rightarrow> 'w \<Rightarrow> (exn + unit) \<times> Channel \<times> 'w" where
  "Disconnect net ch0 w0 =
     lock_guard ch0 w0 (\<lambda>ch.
       let (ch1, w1) = (if ch_socket_fd ch \<ge> 0
                        then (ch\<lparr>ch_socket_fd := - 1\<rparr>, net_close net (ch_socket_fd ch) w0)
                        else (ch, w0))
       in ((), ch1\<lparr>ch_connected := False\<rparr>, w1))"

definition IsConnected :: "Channel \<Rightarrow> bool" where
  "IsConnected ch = ch_connected ch"

definition GetLastError :: "Channel \<Rightarrow> exn + string" where
  "GetLastError ch = (if ch_mutex ch then Inl deadlock else Inr (ch_last_error ch))"

definition EnsureConnected :: "'w net \<Rightarrow> Channel \<Rightarrow> 'w \<Rightarrow> (exn + bool) \<times> Channel \<times> 'w" where
  "EnsureConnected net ch w =
     (if ch_connected ch \<and> ch_socket_fd ch \<ge> 0 then (Inr True, ch, w) else Connect net ch w)"

definition SendData :: "'w net \<Rightarrow> Channel \<Rightarrow> 'w \<Rightarrow> byte list \<Rightarrow> nat \<Rightarrow> bool \<times> Channel \<times> 'w" where
  "SendData net ch w data len =
     (case net_send net (ch_socket_fd ch) (take len data) w of
        (None, w') \<Rightarrow> (True, ch, w')
      | (Some err, w') \<Rightarrow> (False, ch\<lparr>ch_last_error := err\<rparr>, w'))"

definition ReceiveData ::
  "'w net \<Rightarrow> Channel \<Rightarrow> 'w \<Rightarrow> nat \<Rightarrow> (bool \<times> byte list) \<times> Channel \<times> 'w" where
  "ReceiveData net ch w max_len =
     (case net_recv net (ch_socket_fd ch) max_len w of
        (Inl err, w') \<Rightarrow> ((False, []), ch\<lparr>ch_last_error := err\<rparr>, w')
      | (Inr bytes, w') \<Rightarrow> ((True, take max_len bytes), ch, w'))"

text \<open>
  The block "Build request frame" to "Update frame length" of \<open>ExecuteRPC\<close>, on the
  ByteBuffer \<^verbatim>\<open>request_buf\<close> over the channel's buffer. The payload is copied into the
  buffer directly, not through \<^verbatim>\<open>request_buf\<close>; both are the same memory, which here is the
  region of the ByteBuffer. The result is \<open>None\<close> when the payload is too large and the frame
  length otherwise. \<open>request_data\<close> is \<open>None\<close> for a null pointer.
\<close>

definition ExecuteRPC_frame ::
  "endian \<Rightarrow> 32 word \<Rightarrow> byte list option \<Rightarrow> nat \<Rightarrow> (nat option) bb" where
  "ExecuteRPC_frame h routine_id request_data request_len =
     bb_then (PutByte START_BYTE)
    (bb_then (PutInt h 0)
    (bb_then (PutInt h routine_id)
    (bb_then (PutByte VERSION)
    (bb_bind
       (case request_data of
          Some payload \<Rightarrow>
            if request_len > 0
            then bb_bind bb_Position (\<lambda>pos b.
                   if pos + request_len \<ge> Capacity b then (Inr False, b)
                   else (case memcpy_to (bb_buffer b) pos payload request_len of
                           Inl e \<Rightarrow> (Inl e, b)
                         | Inr region \<Rightarrow>
                             bb_then (SetPosition (pos + request_len)) (bb_return True)
                               (b\<lparr>bb_buffer := region\<rparr>)))
            else bb_return True
        | None \<Rightarrow> bb_return True)
       (\<lambda>fits.
          if \<not> fits then bb_return None
          else bb_then (PutByte END_BYTE)
              (bb_bind bb_Position (\<lambda>frame_len.
               bb_then (SetPosition 1)
              (bb_then (PutInt h (of_nat frame_len))
              (bb_return (Some frame_len))))))))))"

text \<open>The block "Receive response" of \<open>ExecuteRPC\<close>.\<close>

definition ExecuteRPC_receive ::
  "'w net \<Rightarrow> Channel \<Rightarrow> 'w \<Rightarrow> nat \<Rightarrow> bool \<times> byte list \<times> Channel \<times> 'w" where
  "ExecuteRPC_receive net ch w response_buffer_size =
     (case ReceiveData net ch w response_buffer_size of
        ((False, _), ch', w') \<Rightarrow>
          (False, [], ch'\<lparr>ch_connected := False, ch_last_error := ''Failed to receive response''\<rparr>, w')
      | ((True, response), ch', w') \<Rightarrow> (True, response, ch', w'))"

text \<open>
  \<open>ExecuteRPC\<close> gives the return value, the bytes received into the response buffer (whose
  number is \<^verbatim>\<open>response_len\<close>), the channel and the world. It calls \<open>EnsureConnected\<close> before it
  takes the mutex. When the first \<open>SendData\<close> fails it calls \<open>Connect\<close> while it holds the
  mutex, and \<open>Connect\<close> locks the mutex itself.
\<close>

definition ExecuteRPC ::
  "'w net \<Rightarrow> endian \<Rightarrow> Channel \<Rightarrow> 'w \<Rightarrow> 32 word \<Rightarrow> byte list option \<Rightarrow> nat \<Rightarrow> nat \<Rightarrow>
     (exn + bool) \<times> byte list \<times> Channel \<times> 'w" where
  "ExecuteRPC net h ch0 w0 routine_id request_data request_len response_buffer_size =
     (case EnsureConnected net ch0 w0 of
        (Inl e, ch1, w1) \<Rightarrow> (Inl e, [], ch1, w1)
      | (Inr False, ch1, w1) \<Rightarrow>
          (Inr False, [], ch1\<lparr>ch_last_error := ''Failed to establish connection''\<rparr>, w1)
      | (Inr True, ch1, w1) \<Rightarrow>
          if ch_mutex ch1 then (Inl deadlock, [], ch1, w1)
          else
          (let ch2 = ch1\<lparr>ch_mutex := True\<rparr>
           in case over_region (ch_buffer ch2)
                     (ExecuteRPC_frame h routine_id request_data request_len) of
                (Inl e, buffer) \<Rightarrow> (Inl e, [], ch2\<lparr>ch_buffer := buffer, ch_mutex := False\<rparr>, w1)
              | (Inr None, buffer) \<Rightarrow>
                  (Inr False, [],
                   ch2\<lparr>ch_buffer := buffer, ch_last_error := ''Request payload too large'',
                       ch_mutex := False\<rparr>, w1)
              | (Inr (Some frame_len), buffer) \<Rightarrow>
                  (case SendData net (ch2\<lparr>ch_buffer := buffer\<rparr>) w1 buffer frame_len of
                     (True, ch3, w2) \<Rightarrow>
                       (case ExecuteRPC_receive net ch3 w2 response_buffer_size of
                          (ok, response, ch4, w3) \<Rightarrow>
                            (Inr ok, response, ch4\<lparr>ch_mutex := False\<rparr>, w3))
                   | (False, ch3, w2) \<Rightarrow>
                       (case Connect net (ch3\<lparr>ch_connected := False\<rparr>) w2 of
                          (Inl e, ch4, w3) \<Rightarrow> (Inl e, [], ch4, w3)
                        | (Inr False, ch4, w3) \<Rightarrow>
                            (Inr False, [],
                             ch4\<lparr>ch_last_error := ''Failed to send after reconnect attempt'',
                                 ch_mutex := False\<rparr>, w3)
                        | (Inr True, ch4, w3) \<Rightarrow>
                            (case SendData net ch4 w3 buffer frame_len of
                               (False, ch5, w4) \<Rightarrow>
                                 (Inr False, [],
                                  ch5\<lparr>ch_last_error := ''Failed to send after reconnect attempt'',
                                      ch_mutex := False\<rparr>, w4)
                             | (True, ch5, w4) \<Rightarrow>
                                 (case ExecuteRPC_receive net ch5 w4 response_buffer_size of
                                    (ok, response, ch6, w5) \<Rightarrow>
                                      (Inr ok, response, ch6\<lparr>ch_mutex := False\<rparr>, w5)))))))"

section \<open>The calculator (CalculatorService.hpp, CalculatorService.cpp, Calculator.cpp)\<close>

text \<open>
  A \<^verbatim>\<open>double\<close> is its IEEE-754 binary64 bit pattern. \<^verbatim>\<open>std::abs\<close> clears the sign bit (the
  top bit, set in a negative value). A
  pattern is a NaN when its magnitude is above that of infinity. On patterns that are not
  NaNs, the order of the values is the order of the magnitudes, reversed for negative
  values, with both zeros equal; a comparison with a NaN is false. The arithmetic of the
  floating-point unit is a parameter \<open>fp\<close>.
\<close>

type_synonym double = "64 word"

record fpu =
  fadd :: "double \<Rightarrow> double \<Rightarrow> double"
  fsub :: "double \<Rightarrow> double \<Rightarrow> double"
  fmul :: "double \<Rightarrow> double \<Rightarrow> double"
  fdiv :: "double \<Rightarrow> double \<Rightarrow> double"

definition d_abs :: "double \<Rightarrow> double" where
  "d_abs d = d AND 0x7FFFFFFFFFFFFFFF"

definition d_isnan :: "double \<Rightarrow> bool" where
  "d_isnan d = (0x7FF0000000000000 < d_abs d)"

definition d_negative :: "double \<Rightarrow> bool" where
  "d_negative d = (d AND 0x8000000000000000 \<noteq> 0)"

definition d_key :: "double \<Rightarrow> int" where
  "d_key d = (if d_negative d then - uint (d_abs d) else uint d)"

definition d_less :: "double \<Rightarrow> double \<Rightarrow> bool" where
  "d_less a b = (\<not> d_isnan a \<and> \<not> d_isnan b \<and> d_key a < d_key b)"

definition d_greater_eq :: "double \<Rightarrow> double \<Rightarrow> bool" where
  "d_greater_eq a b = (\<not> d_isnan a \<and> \<not> d_isnan b \<and> d_key b \<le> d_key a)"

text \<open>The literals \<^verbatim>\<open>0.0\<close> and \<^verbatim>\<open>1e-10\<close>.\<close>

definition d_zero :: double where
  "d_zero = 0"

definition d_1e_10 :: double where
  "d_1e_10 = 0x3DDB7CDFD9D7BDBB"

datatype Status = Success | DivisionByZero | InvalidOperation | InvalidInput

fun status_byte :: "Status \<Rightarrow> byte" where
  "status_byte Success = 0x00"
| "status_byte DivisionByZero = 0x01"
| "status_byte InvalidOperation = 0x02"
| "status_byte InvalidInput = 0x03"

text \<open>An \<^verbatim>\<open>Operation\<close> is cast from the request's first byte, so it is any byte.\<close>

definition Operation_Add :: byte where "Operation_Add = 0x01"

definition Operation_Subtract :: byte where "Operation_Subtract = 0x02"

definition Operation_Multiply :: byte where "Operation_Multiply = 0x03"

definition Operation_Divide :: byte where "Operation_Divide = 0x04"

definition CalculatorService_ExecuteOperation ::
  "fpu \<Rightarrow> byte \<Rightarrow> double \<Rightarrow> double \<Rightarrow> Status \<times> double \<times> string" where
  "CalculatorService_ExecuteOperation fp op a b =
     (if op = Operation_Add then (Success, fadd fp a b, [])
      else if op = Operation_Subtract then (Success, fsub fp a b, [])
      else if op = Operation_Multiply then (Success, fmul fp a b, [])
      else if op = Operation_Divide
      then (if d_less (d_abs b) d_1e_10 then (DivisionByZero, d_zero, ''Division by zero'')
            else (Success, fdiv fp a b, []))
      else (InvalidOperation, d_zero, ''Invalid operation code''))"

text \<open>The statements that build the response frame, the same in the body and in the
  \<^verbatim>\<open>catch\<close> block of \<open>Execute\<close>.\<close>

definition CalculatorService_response ::
  "endian \<Rightarrow> Status \<Rightarrow> double \<Rightarrow> string \<Rightarrow> nat bb" where
  "CalculatorService_response h status result error_msg =
     bb_then (PutByte START_BYTE)
    (bb_then (PutInt h 0)
    (bb_then (PutInt h 0x1001)
    (bb_then (PutByte VERSION)
    (bb_then (PutByte (status_byte status))
    (bb_then (PutDouble h result)
    (bb_then (PutString h error_msg)
    (bb_then (PutByte END_BYTE)
    (bb_bind bb_Position (\<lambda>total_len.
     bb_then (SetPosition 1)
    (bb_then (PutInt h (of_nat total_len))
    (bb_return total_len)))))))))))"

definition CalculatorService_catch ::
  "endian \<Rightarrow> exn \<Rightarrow> byte list \<Rightarrow> (exn + nat) \<times> byte list" where
  "CalculatorService_catch h e out =
     (if is_std_exception e
      then over_region out
             (CalculatorService_response h InvalidInput d_zero (''Exception: '' @ what e))
      else (Inl e, out))"

definition CalculatorService_Execute ::
  "endian \<Rightarrow> fpu \<Rightarrow> byte list \<Rightarrow> byte list \<Rightarrow> (exn + nat) \<times> byte list" where
  "CalculatorService_Execute h fp input output =
     (case over_region input
             (bb_bind GetByte (\<lambda>op_byte.
              bb_bind (GetDouble h) (\<lambda>operand_a.
              bb_bind (GetDouble h) (\<lambda>operand_b.
              bb_return (op_byte, operand_a, operand_b))))) of
        (Inl e, _) \<Rightarrow> CalculatorService_catch h e output
      | (Inr (op_byte, operand_a, operand_b), _) \<Rightarrow>
          (case CalculatorService_ExecuteOperation fp op_byte operand_a operand_b of
             (status, result, error_msg) \<Rightarrow>
               (case over_region output (CalculatorService_response h status result error_msg) of
                  (Inl e, output') \<Rightarrow> CalculatorService_catch h e output'
                | (Inr total_len, output') \<Rightarrow> (Inr total_len, output'))))"

definition CalculatorService :: "endian \<Rightarrow> fpu \<Rightarrow> IService" where
  "CalculatorService h fp =
     \<lparr>GetRequestRoutineId = 0x1000, GetResponseRoutineId = 0x1001,
      GetName = ''CalculatorService'', Execute = CalculatorService_Execute h fp\<rparr>"

text \<open>The client proxy \<^verbatim>\<open>Calculator\<close> and its \<^verbatim>\<open>Result\<close>.\<close>

record Result =
  res_success :: bool
  res_value :: double
  res_error_message :: string

definition REQUEST_ROUTINE_ID :: "32 word" where
  "REQUEST_ROUTINE_ID = 0x00001000"

definition RESPONSE_ROUTINE_ID :: "32 word" where
  "RESPONSE_ROUTINE_ID = 0x00001001"

text \<open>The parse of the response in \<open>ExecuteOperation\<close>, from \<open>result\<close> as initialised.\<close>

definition Calculator_parse :: "endian \<Rightarrow> Result \<Rightarrow> Result bb" where
  "Calculator_parse h result =
     bb_bind GetByte (\<lambda>start.
       if start \<noteq> START_BYTE
       then bb_return (result\<lparr>res_error_message := ''Invalid response frame''\<rparr>)
       else
     bb_bind (GetInt h) (\<lambda>frame_len.
     bb_bind (GetInt h) (\<lambda>routine_id.
       if routine_id \<noteq> RESPONSE_ROUTINE_ID
       then bb_return (result\<lparr>res_error_message := ''Unexpected routine ID in response''\<rparr>)
       else
     bb_bind GetByte (\<lambda>version.
     bb_bind GetByte (\<lambda>status.
     bb_bind (GetDouble h) (\<lambda>val.
     bb_bind (GetString h) (\<lambda>error_msg.
       if status = 0x00
       then bb_return (result\<lparr>res_success := True, res_value := val\<rparr>)
       else bb_return (result\<lparr>res_success := False, res_error_message := error_msg\<rparr>))))))))"

text \<open>\<^verbatim>\<open>catch (const std::exception& e)\<close> of \<open>ExecuteOperation\<close>.\<close>

definition Calculator_catch :: "Result \<Rightarrow> exn \<Rightarrow> exn + Result" where
  "Calculator_catch result e =
     (if is_std_exception e
      then Inr (result\<lparr>res_error_message := ''Exception: '' @ what e\<rparr>)
      else Inl e)"

text \<open>The request array of 17 bytes is not initialised by the code; the three writes fill
  it, so its initial content (here zeros) does not matter.\<close>

definition Calculator_ExecuteOperation ::
  "'w net \<Rightarrow> endian \<Rightarrow> Channel \<Rightarrow> 'w \<Rightarrow> byte \<Rightarrow> double \<Rightarrow> double \<Rightarrow> (exn + Result) \<times> Channel \<times> 'w" where
  "Calculator_ExecuteOperation net h ch w op a b =
     (let result = \<lparr>res_success = False, res_value = d_zero, res_error_message = []\<rparr>
      in case over_region (replicate 17 0)
                (bb_then (PutByte op) (bb_then (PutDouble h a) (bb_then (PutDouble h b)
                   bb_Position))) of
           (Inl e, _) \<Rightarrow> (Calculator_catch result e, ch, w)
         | (Inr request_len, request_data) \<Rightarrow>
             (case ExecuteRPC net h ch w REQUEST_ROUTINE_ID (Some request_data) request_len
                     MAX_PACKET_SIZE of
                (Inl e, _, ch', w') \<Rightarrow> (Calculator_catch result e, ch', w')
              | (Inr False, _, ch', w') \<Rightarrow>
                  (case GetLastError ch' of
                     Inl e \<Rightarrow> (Calculator_catch result e, ch', w')
                   | Inr err \<Rightarrow>
                       (Inr (result\<lparr>res_error_message := ''RPC failed: '' @ err\<rparr>), ch', w'))
              | (Inr True, response_data, ch', w') \<Rightarrow>
                  (case over_region response_data (Calculator_parse h result) of
                     (Inl e, _) \<Rightarrow> (Calculator_catch result e, ch', w')
                   | (Inr r, _) \<Rightarrow> (Inr r, ch', w'))))"

definition Calculator_Divide ::
  "'w net \<Rightarrow> endian \<Rightarrow> Channel \<Rightarrow> 'w \<Rightarrow> double \<Rightarrow> double \<Rightarrow> (exn + Result) \<times> Channel \<times> 'w" where
  "Calculator_Divide net h ch w a b = Calculator_ExecuteOperation net h ch w Operation_Divide a b"

section \<open>Auxiliary notions for the properties\<close>

text \<open>What a successful raw write of \<open>d\<close> at the cursor does to a ByteBuffer, the bytes a raw
  read of \<open>n\<close> bytes at the cursor sees, and a cursor move.\<close>

definition poke :: "byte list \<Rightarrow> ByteBuffer \<Rightarrow> ByteBuffer" where
  "poke d b = b\<lparr>bb_buffer := take (bb_position b) (bb_buffer b) @ d @
                              drop (bb_position b + length d) (bb_buffer b),
               bb_position := bb_position b + length d\<rparr>"

definition peek :: "nat \<Rightarrow> ByteBuffer \<Rightarrow> byte list" where
  "peek n b = take n (drop (bb_position b) (bb_buffer b))"

definition seek :: "nat \<Rightarrow> ByteBuffer \<Rightarrow> ByteBuffer" where
  "seek p b = b\<lparr>bb_position := p\<rparr>"

text \<open>
  The wire format of the composite values, as the frame format describes it: a 64-bit
  integer is its two 32-bit halves, high half first, each big-endian; a string is its
  length as a big-endian 32-bit integer followed by its bytes; a map is the number of its
  entries followed by key and value of each entry. \<open>roundtrip put get v b\<close> says that
  \<open>put\<close> succeeds on \<open>b\<close> and that, after seeking back to where \<open>put\<close> started,
  \<open>get\<close> returns \<open>v\<close> and leaves the ByteBuffer as \<open>put\<close> left it.
\<close>

definition wire_long :: "64 word \<Rightarrow> byte list" where
  "wire_long d = be32 (ucast (signed_drop_bit 32 d)) @ be32 (ucast (d AND 0xFFFFFFFF))"

definition wire_string :: "string \<Rightarrow> byte list" where
  "wire_string s = be32 (of_nat (length s)) @ string_bytes s"

definition wire_entries :: "(string \<times> string) list \<Rightarrow> byte list" where
  "wire_entries kvs = concat (map (\<lambda>(k, v). wire_string k @ wire_string v) kvs)"

definition wire_map :: "(string \<times> string) list \<Rightarrow> byte list" where
  "wire_map kvs = be32 (of_nat (length kvs)) @ wire_entries kvs"

definition roundtrip :: "unit bb \<Rightarrow> 'a bb \<Rightarrow> 'a \<Rightarrow> ByteBuffer \<Rightarrow> bool" where
  "roundtrip put get v b =
     (case put b of
        (Inl e, b1) \<Rightarrow> False
      | (Inr u, b1) \<Rightarrow>
          (case SetPosition (Position b) b1 of
             (Inl e, b2) \<Rightarrow> False
           | (Inr u, b2) \<Rightarrow> get b2 = (Inr v, b1)))"

fun entries_size :: "(string \<times> string) list \<Rightarrow> nat" where
  "entries_size [] = 0"
| "entries_size ((k, v) # rest) = (4 + length k) + (4 + length v) + entries_size rest"

definition strings_fit :: "(string \<times> string) list \<Rightarrow> bool" where
  "strings_fit kvs = list_all (\<lambda>(k, v). length k < 2 ^ 32 \<and> length v < 2 ^ 32) kvs"

text \<open>
  Outcomes of an operation on a ByteBuffer \<open>b\<close>. \<open>put_rejected\<close>: the write fails with an
  overflow error and leaves \<open>b\<close> as it was. \<open>put_overflows\<close>: the write fails with an
  overflow error and \<open>b\<close> is \<open>confined\<close>: same capacity, the bytes before the starting
  cursor unchanged, the cursor not moved back and not past the capacity (bytes from the
  starting cursor on may have been written). \<open>get_rejected\<close>: the read fails with an underflow
  error and leaves \<open>b\<close> as it was. \<open>get_guarded errs\<close>: the read succeeds or fails with an
  error in \<open>errs\<close>, never with a memory fault, and either way the bytes are unchanged and the
  cursor is not moved back and not past the capacity. \<open>peek_int\<close> is the 32-bit big-endian
  integer at the cursor.
\<close>

fun is_overflow :: "exn \<Rightarrow> bool" where
  "is_overflow (overflow_error m) = True"
| "is_overflow _ = False"

fun is_underflow :: "exn \<Rightarrow> bool" where
  "is_underflow (underflow_error m) = True"
| "is_underflow _ = False"

definition confined :: "ByteBuffer \<Rightarrow> ByteBuffer \<Rightarrow> bool" where
  "confined b b' =
     (length (bb_buffer b') = length (bb_buffer b) \<and>
      take (bb_position b) (bb_buffer b') = take (bb_position b) (bb_buffer b) \<and>
      bb_position b \<le> bb_position b' \<and>
      bb_position b' \<le> max (bb_position b) (Capacity b))"

definition read_only :: "ByteBuffer \<Rightarrow> ByteBuffer \<Rightarrow> bool" where
  "read_only b b' =
     (bb_buffer b' = bb_buffer b \<and>
      bb_position b \<le> bb_position b' \<and>
      bb_position b' \<le> max (bb_position b) (Capacity b))"

definition put_rejected :: "unit bb \<Rightarrow> ByteBuffer \<Rightarrow> bool" where
  "put_rejected put b = (case put b of (Inl e, b') \<Rightarrow> is_overflow e \<and> b' = b | (Inr u, b') \<Rightarrow> False)"

definition put_overflows :: "unit bb \<Rightarrow> ByteBuffer \<Rightarrow> bool" where
  "put_overflows put b =
     (case put b of (Inl e, b') \<Rightarrow> is_overflow e \<and> confined b b' | (Inr u, b') \<Rightarrow> False)"

definition get_rejected :: "'a bb \<Rightarrow> ByteBuffer \<Rightarrow> bool" where
  "get_rejected get b = (case get b of (Inl e, b') \<Rightarrow> is_underflow e \<and> b' = b | (Inr x, b') \<Rightarrow> False)"

definition get_guarded :: "(exn \<Rightarrow> bool) \<Rightarrow> 'a bb \<Rightarrow> ByteBuffer \<Rightarrow> bool" where
  "get_guarded errs get b =
     (case get b of (Inl e, b') \<Rightarrow> errs e \<and> read_only b b' | (Inr x, b') \<Rightarrow> read_only b b')"

definition put_guarded :: "(exn \<Rightarrow> bool) \<Rightarrow> 'a bb \<Rightarrow> ByteBuffer \<Rightarrow> bool" where
  "put_guarded errs put b =
     (case put b of (Inl e, b') \<Rightarrow> errs e \<and> confined b b' | (Inr x, b') \<Rightarrow> confined b b')"

definition GetArray_error :: "exn \<Rightarrow> bool" where
  "GetArray_error e =
     (is_underflow e \<or>
      e = overflow_error ''ByteBuffer::GetArray: array size exceeds destination buffer'' \<or>
      e = invalid_argument ''ByteBuffer::GetArray: data cannot be null'')"

definition peek_int :: "ByteBuffer \<Rightarrow> 32 word" where
  "peek_int b = de32 (peek 4 b)"

text \<open>
  The raw writes of a composite \<open>Put\<close>, in the order in which it makes them:
  \<open>string_writes s\<close> is the length prefix of \<open>s\<close> (the length cast to 32 bits) and, unless
  that is zero, as many bytes of \<open>s\<close> as the prefix says; \<open>map_writes kvs\<close> is the entry
  count and then the writes of the key and of the value of each entry.
  \<open>fitting cap p ds\<close> is the longest prefix of the pieces \<open>ds\<close> that can be written one after
  the other from cursor \<open>p\<close> into a region of \<open>cap\<close> bytes. \<open>in_pieces ds\<close> writes the
  pieces that fit and leaves the cursor after them; it succeeds if all of them fit and
  fails with the overflow error of the raw write otherwise.
\<close>

definition string_writes :: "string \<Rightarrow> byte list list" where
  "string_writes s =
     (let len = (of_nat (length s) :: 32 word)
      in if len > 0 then [be32 len, take (unat len) (string_bytes s)] else [be32 len])"

definition map_writes :: "(string \<times> string) list \<Rightarrow> byte list list" where
  "map_writes kvs =
     be32 (of_nat (length kvs)) #
     concat (map (\<lambda>(k, v). string_writes k @ string_writes v) kvs)"

fun fitting :: "nat \<Rightarrow> nat \<Rightarrow> byte list list \<Rightarrow> byte list list" where
  "fitting cap p [] = []"
| "fitting cap p (d # ds) =
     (if p + length d \<le> cap then d # fitting cap (p + length d) ds else [])"

definition in_pieces :: "byte list list \<Rightarrow> unit bb" where
  "in_pieces ds b =
     (let ws = fitting (Capacity b) (bb_position b) ds
      in (if ws = ds then Inr ()
          else Inl (overflow_error ''ByteBuffer: write would exceed buffer bounds''),
          poke (concat ws) b))"

text \<open>
  \<open>string_end buf p\<close>: where the encoded string that starts at offset \<open>p\<close> of the region
  \<open>buf\<close> ends (its four-byte big-endian length and as many bytes as that says), or \<open>None\<close>
  if the region ends before it does. \<open>strings_end buf n p\<close>: where \<open>n\<close> encoded strings in a
  row end. \<open>get_underflows\<close>: the read fails with an underflow error, the bytes unchanged and
  the cursor not moved back and not past the capacity. \<open>get_reaches q\<close>: the read succeeds,
  the bytes unchanged and the cursor at \<open>q\<close>. \<open>GetMap_error\<close> holds of an underflow error
  and of \<open>bad_alloc\<close>. \<open>heap_limit m\<close> is an allocator that grants tables for at most \<open>m\<close>
  elements.
\<close>

definition string_end :: "byte list \<Rightarrow> nat \<Rightarrow> nat option" where
  "string_end buf p =
     (if length buf < p + 4 then None
      else (let len = unat (de32 (take 4 (drop p buf)))
            in if length buf < p + 4 + len then None else Some (p + 4 + len)))"

fun strings_end :: "byte list \<Rightarrow> nat \<Rightarrow> nat \<Rightarrow> nat option" where
  "strings_end buf 0 p = Some p"
| "strings_end buf (Suc n) p =
     (case string_end buf p of None \<Rightarrow> None | Some q \<Rightarrow> strings_end buf n q)"

definition get_underflows :: "'a bb \<Rightarrow> ByteBuffer \<Rightarrow> bool" where
  "get_underflows get b =
     (case get b of (Inl e, b') \<Rightarrow> is_underflow e \<and> read_only b b' | (Inr x, b') \<Rightarrow> False)"

definition get_reaches :: "nat \<Rightarrow> 'a bb \<Rightarrow> ByteBuffer \<Rightarrow> bool" where
  "get_reaches q get b =
     (case get b of (Inl e, b') \<Rightarrow> False | (Inr x, b') \<Rightarrow> b' = seek q b)"

definition GetMap_error :: "exn \<Rightarrow> bool" where
  "GetMap_error e = (is_underflow e \<or> e = bad_alloc)"

definition heap_limit :: "nat \<Rightarrow> nat \<Rightarrow> bool" where
  "heap_limit m n = (n \<le> m)"

text \<open>
  \<open>lock_discipline held es\<close>: in the events \<open>es\<close>, started with the registry mutex held or
  not, the mutex is taken only when free and released only when held, every table lookup
  and insertion happens while it is held, every handler call while it is not held, and it is
  free at the end.
\<close>

fun lock_discipline :: "bool \<Rightarrow> event list \<Rightarrow> bool" where
  "lock_discipline held [] = (\<not> held)"
| "lock_discipline held (Lock # es) = (\<not> held \<and> lock_discipline True es)"
| "lock_discipline held (Unlock # es) = (held \<and> lock_discipline False es)"
| "lock_discipline held (Find rid # es) = (held \<and> lock_discipline held es)"
| "lock_discipline held (Insert rid # es) = (held \<and> lock_discipline held es)"
| "lock_discipline held (Invoke rid input # es) = (\<not> held \<and> lock_discipline held es)"
| "lock_discipline held (Send fd bytes # es) = lock_discipline held es"

text \<open>
  Two worlds for the channel. In the first, as in the integration tests, the peer is the
  server of this repository: what is sent is handed to \<open>ProcessClientRequest\<close> with the
  registry \<open>sm\<close>, and what the server sends back is what the channel receives next; the world
  also lists the descriptors closed. In the second, the world is the list of the byte
  sequences sent, and nothing is ever received.
\<close>

record loop_world =
  lw_pending :: "byte list option"
  lw_closed :: "int list"

fun sent_bytes :: "event list \<Rightarrow> byte list option" where
  "sent_bytes [] = None"
| "sent_bytes (Send fd bytes # es) = Some bytes"
| "sent_bytes (e # es) = sent_bytes es"

definition loopback :: "endian \<Rightarrow> ServiceManager \<Rightarrow> loop_world net" where
  "loopback h sm =
     \<lparr>net_connect = (\<lambda>path timeout w. (Inr 3, w)),
      net_close = (\<lambda>fd w. w\<lparr>lw_closed := fd # lw_closed w\<rparr>),
      net_send = (\<lambda>fd bytes w.
         (None, w\<lparr>lw_pending := sent_bytes (snd (ProcessClientRequest h sm
                     (\<lambda>fd bytes. int (length bytes)) (replicate MAX_PACKET_SIZE 0) 7 bytes))\<rparr>)),
      net_recv = (\<lambda>fd max_len w.
         (case lw_pending w of None \<Rightarrow> Inl ''Receive timeout'' | Some bytes \<Rightarrow> Inr bytes,
          w\<lparr>lw_pending := None\<rparr>))\<rparr>"

text \<open>A frame as the frame layout describes it: START, the total length as a big-endian
  32-bit integer, the routine id, VERSION, the payload, END.\<close>

definition wire_frame :: "32 word \<Rightarrow> byte list \<Rightarrow> byte list" where
  "wire_frame routine_id payload =
     [START_BYTE] @ be32 (of_nat (11 + length payload)) @ be32 routine_id @ [VERSION] @
     payload @ [END_BYTE]"

definition recording_net :: "(byte list list) net" where
  "recording_net =
     \<lparr>net_connect = (\<lambda>path timeout w. (Inr 3, w)),
      net_close = (\<lambda>fd w. w),
      net_send = (\<lambda>fd bytes w. (None, w @ [bytes])),
      net_recv = (\<lambda>fd max_len w. (Inr [], w))\<rparr>"

section \<open>Properties of the codec\<close>

lemma bb_bind_Inl: "m b = (Inl e, b') \<Longrightarrow> bb_bind m f b = (Inl e, b')"
  by (simp add: bb_bind_def)

lemma bb_bind_Inr: "m b = (Inr x, b') \<Longrightarrow> bb_bind m f b = f x b'"
  by (simp add: bb_bind_def)

lemma bb_then_Inl: "m b = (Inl e, b') \<Longrightarrow> bb_then m k b = (Inl e, b')"
  by (simp add: bb_bind_def bb_then_def)

lemma bb_then_Inr: "m b = (Inr u, b') \<Longrightarrow> bb_then m k b = k b'"
  by (simp add: bb_bind_def bb_then_def)

lemma poke_simps [simp]:
  "bb_position (poke d b) = bb_position b + length d"
  "bb_position b + length d \<le> Capacity b \<Longrightarrow> Capacity (poke d b) = Capacity b"
  "poke [] b = b"
  by (simp_all add: poke_def Capacity_def)

lemma seek_simps [simp]:
  "bb_position (seek p b) = p"
  "bb_buffer (seek p b) = bb_buffer b"
  "Capacity (seek p b) = Capacity b"
  "seek (bb_position b) b = b"
  "seek p (seek q b) = seek p b"
  by (simp_all add: seek_def Capacity_def)

lemma poke_poke:
  "bb_position b + length d1 \<le> Capacity b \<Longrightarrow> poke d2 (poke d1 b) = poke (d1 @ d2) b"
  by (simp add: poke_def Capacity_def ac_simps)

lemma drop_poke:
  "bb_position b + length d \<le> Capacity b \<Longrightarrow>
   drop (bb_position b) (bb_buffer (poke d b)) = d @ drop (bb_position b + length d) (bb_buffer b)"
  by (simp add: poke_def Capacity_def)

lemma take_poke:
  "bb_position b \<le> Capacity b \<Longrightarrow>
   take (bb_position b) (bb_buffer (poke d b)) = take (bb_position b) (bb_buffer b)"
  by (simp add: poke_def Capacity_def)

lemma WriteBytes_fits:
  "bb_position b + n \<le> Capacity b \<Longrightarrow> n \<le> length d \<Longrightarrow>
   WriteBytes d n b = (Inr (), poke (take n d) b)"
  by (simp add: WriteBytes_def CheckBoundary_def memcpy_to_def poke_def Capacity_def min_def)

lemma WriteBytes_overflow:
  "bb_position b + n > Capacity b \<Longrightarrow>
   WriteBytes d n b = (Inl (overflow_error ''ByteBuffer: write would exceed buffer bounds''), b)"
  by (simp add: WriteBytes_def CheckBoundary_def)

lemma ReadBytes_fits:
  "bb_position b + n \<le> Capacity b \<Longrightarrow>
   ReadBytes n b = (Inr (peek n b), seek (bb_position b + n) b)"
  by (simp add: ReadBytes_def CheckBoundary_def memcpy_from_def peek_def seek_def Capacity_def)

lemma ReadBytes_underflow:
  "bb_position b + n > Capacity b \<Longrightarrow>
   ReadBytes n b = (Inl (underflow_error ''ByteBuffer: read would exceed buffer bounds''), b)"
  by (simp add: ReadBytes_def CheckBoundary_def)

lemma length_be [simp]: "length (be16 x) = 2" "length (be32 y) = 4" "length (be64 z) = 8"
  by (simp_all add: be16_def be32_def be64_def)

lemma length_obj [simp]: "length (obj16 h x) = 2" "length (obj32 h y) = 4" "length (obj64 h z) = 8"
  by (cases h; simp add: obj16_def obj32_def obj64_def)+

lemma de16_be16 [simp]: "de16 (be16 x) = x"
  unfolding be16_def
  apply simp
  apply (rule bit_word_eqI)
  subgoal for n
    by (cases "n < 8") (auto simp: bit_simps)
  done

lemma de32_be32 [simp]: "de32 (be32 x) = x"
  unfolding be32_def
  apply simp
  apply (rule bit_word_eqI)
  subgoal for n
    by (cases "n < 8"; cases "n < 16"; cases "n < 24") (auto simp: bit_simps)
  done

lemma de64_be64 [simp]: "de64 (be64 x) = x"
  unfolding be64_def
  apply simp
  apply (rule bit_word_eqI)
  subgoal for n
    by (cases "n < 8"; cases "n < 16"; cases "n < 24"; cases "n < 32"; cases "n < 40";
        cases "n < 48"; cases "n < 56") (auto simp: bit_simps)
  done

lemma be16_de16: "be16 (de16 [a, b]) = [a, b]"
  unfolding be16_def
  apply simp
  apply (intro conjI; rule bit_word_eqI)
   apply (auto simp: bit_simps dest: bit_imp_le_length)
  done

lemma be32_de32: "be32 (de32 [a, b, c, d]) = [a, b, c, d]"
  unfolding be32_def
  apply simp
  apply (intro conjI; rule bit_word_eqI)
   apply (auto simp: bit_simps dest: bit_imp_le_length)
  done

lemma list2: "length (bs :: 'a list) = 2 \<Longrightarrow> \<exists>a b. bs = [a, b]"
  by (auto simp: length_Suc_conv numeral_eq_Suc)

lemma list4: "length (bs :: 'a list) = 4 \<Longrightarrow> \<exists>a b c d. bs = [a, b, c, d]"
  by (auto simp: length_Suc_conv numeral_eq_Suc)

lemma swap16: "length bs = 2 \<Longrightarrow> rev (be16 (de16 (rev bs))) = bs"
  by (drule list2) (auto simp: be16_de16 simp del: de16.simps)

lemma swap32: "length bs = 4 \<Longrightarrow> rev (be32 (de32 (rev bs))) = bs"
  by (drule list4) (auto simp: be32_de32 simp del: de32.simps)

lemma obj16_htons [simp]: "obj16 h (htons h x) = be16 x"
proof (cases h)
  case LittleEndian
  have "rev (be16 (de16 (rev (be16 x)))) = be16 x"
    by (rule swap16) simp
  with LittleEndian show ?thesis by (simp add: obj16_def htons_def)
next
  case BigEndian
  then show ?thesis by (simp add: obj16_def htons_def)
qed

lemma obj32_htonl [simp]: "obj32 h (htonl h x) = be32 x"
proof (cases h)
  case LittleEndian
  have "rev (be32 (de32 (rev (be32 x)))) = be32 x"
    by (rule swap32) simp
  with LittleEndian show ?thesis by (simp add: obj32_def htonl_def)
next
  case BigEndian
  then show ?thesis by (simp add: obj32_def htonl_def)
qed

lemma ntohs_val16 [simp]: "length bs = 2 \<Longrightarrow> ntohs h (val16 h bs) = de16 bs"
proof (cases h)
  case LittleEndian
  assume "length bs = 2"
  then have "rev (be16 (de16 (rev bs))) = bs" by (rule swap16)
  with LittleEndian show ?thesis by (simp add: ntohs_def htons_def val16_def)
next
  case BigEndian
  then show ?thesis by (simp add: ntohs_def htons_def val16_def)
qed

lemma ntohl_val32 [simp]: "length bs = 4 \<Longrightarrow> ntohl h (val32 h bs) = de32 bs"
proof (cases h)
  case LittleEndian
  assume "length bs = 4"
  then have "rev (be32 (de32 (rev bs))) = bs" by (rule swap32)
  with LittleEndian show ?thesis by (simp add: ntohl_def htonl_def val32_def)
next
  case BigEndian
  then show ?thesis by (simp add: ntohl_def htonl_def val32_def)
qed

lemma val32_obj32 [simp]: "val32 h (obj32 h x) = x"
  by (cases h) (simp_all add: val32_def obj32_def)

lemma val64_obj64 [simp]: "val64 h (obj64 h x) = x"
  by (cases h) (simp_all add: val64_def obj64_def)

lemma mask32_64: "(0xFFFFFFFF :: 64 word) = mask 32"
  by (simp add: mask_eq_exp_minus_1)

lemma GetLong_join:
  "push_bit 32 (ucast (ucast (signed_drop_bit 32 d) :: 32 word)) OR
   ucast (ucast (d AND 0xFFFFFFFF) :: 32 word) = (d :: 64 word)"
  unfolding mask32_64
  apply (rule bit_word_eqI)
  subgoal for n
    by (cases "n < 32") (auto simp: bit_simps)
  done

lemma unat_of_char [simp]: "unat (of_char c :: byte) = of_char c"
proof -
  have "unat (of_nat (of_char c) :: byte) = of_char c mod 2 ^ 8"
    by (simp add: unat_of_nat)
  then show ?thesis by (simp add: of_nat_of_char)
qed

lemma bytes_string_bytes [simp]: "bytes_string (string_bytes s) = s"
  by (simp add: bytes_string_def string_bytes_def comp_def)

lemma length_string_bytes [simp]: "length (string_bytes s) = length s"
  by (simp add: string_bytes_def)

lemma length_wire [simp]:
  "length (wire_long d) = 8"
  "length (wire_string s) = 4 + length s"
  by (simp_all add: wire_long_def wire_string_def string_bytes_def)

lemma PutByte_fits:
  "bb_position b + 1 \<le> Capacity b \<Longrightarrow> PutByte v b = (Inr (), poke [v] b)"
  by (simp add: PutByte_def WriteBytes_fits)

lemma PutShort_fits:
  "bb_position b + 2 \<le> Capacity b \<Longrightarrow> PutShort h v b = (Inr (), poke (be16 v) b)"
  by (simp add: PutShort_def WriteBytes_fits)

lemma PutInt_fits:
  "bb_position b + 4 \<le> Capacity b \<Longrightarrow> PutInt h v b = (Inr (), poke (be32 v) b)"
  by (simp add: PutInt_def WriteBytes_fits)

lemma PutFloat_fits:
  "bb_position b + 4 \<le> Capacity b \<Longrightarrow> PutFloat h v b = (Inr (), poke (obj32 h v) b)"
  by (simp add: PutFloat_def WriteBytes_fits)

lemma PutDouble_fits:
  "bb_position b + 8 \<le> Capacity b \<Longrightarrow> PutDouble h v b = (Inr (), poke (obj64 h v) b)"
  by (simp add: PutDouble_def WriteBytes_fits)

lemma PutLong_fits:
  assumes "bb_position b + 8 \<le> Capacity b"
  shows "PutLong h v b = (Inr (), poke (wire_long v) b)"
proof -
  let ?hi = "be32 (ucast (signed_drop_bit 32 v))"
  let ?lo = "be32 (ucast (v AND 0xFFFFFFFF))"
  have 1: "WriteBytes ?hi 4 b = (Inr (), poke ?hi b)"
    using assms by (simp add: WriteBytes_fits)
  have 2: "WriteBytes ?lo 4 (poke ?hi b) = (Inr (), poke ?lo (poke ?hi b))"
    using assms by (simp add: WriteBytes_fits)
  have 3: "poke ?lo (poke ?hi b) = poke (?hi @ ?lo) b"
    using assms by (simp add: poke_poke)
  show ?thesis
    by (simp add: PutLong_def Let_def bb_then_def bb_bind_def 1 2 3 wire_long_def)
qed

lemma unat_len32: "n < 2 ^ 32 \<Longrightarrow> unat (of_nat n :: 32 word) = n"
  by (simp add: unat_of_nat)

lemma len32_pos: "n < 2 ^ 32 \<Longrightarrow> ((of_nat n :: 32 word) > 0) = (n > 0)"
  by (metis unat_len32 unat_gt_0 word_gt_0)

lemma PutString_fits:
  assumes "length s < 2 ^ 32" "bb_position b + 4 + length s \<le> Capacity b"
  shows "PutString h s b = (Inr (), poke (wire_string s) b)"
proof -
  let ?len = "of_nat (length s) :: 32 word"
  have 1: "PutInt h ?len b = (Inr (), poke (be32 ?len) b)"
    using assms by (simp add: PutInt_fits)
  show ?thesis
  proof (cases "length s = 0")
    case True
    with assms have "PutInt h 0 b = (Inr (), poke (be32 0) b)"
      by (simp add: PutInt_fits)
    with True show ?thesis
      by (simp add: PutString_def wire_string_def string_bytes_def bb_return_def bb_then_def bb_bind_def)
  next
    case False
    with assms have pos: "?len > 0" by (simp add: len32_pos)
    have 2: "WriteBytes (string_bytes s) (unat ?len) (poke (be32 ?len) b)
             = (Inr (), poke (string_bytes s) (poke (be32 ?len) b))"
      using assms by (simp add: WriteBytes_fits unat_len32 string_bytes_def)
    have 3: "poke (string_bytes s) (poke (be32 ?len) b) = poke (be32 ?len @ string_bytes s) b"
      using assms by (simp add: poke_poke)
    show ?thesis
      using pos by (simp add: PutString_def Let_def bb_then_def bb_bind_def 1 2 3 wire_string_def)
  qed
qed

lemma ReadBytes_at:
  assumes "drop (bb_position b) (bb_buffer b) = d @ rest" "bb_position b \<le> Capacity b"
  shows "ReadBytes (length d) b = (Inr d, seek (bb_position b + length d) b)"
proof -
  have "length (drop (bb_position b) (bb_buffer b)) = length d + length rest"
    using assms by simp
  then have "bb_position b + length d \<le> Capacity b"
    using assms(2) by (simp add: Capacity_def)
  then show ?thesis
    using assms by (simp add: ReadBytes_fits peek_def)
qed

lemma GetByte_at:
  assumes "drop (bb_position b) (bb_buffer b) = v # rest" "bb_position b \<le> Capacity b"
  shows "GetByte b = (Inr v, seek (bb_position b + 1) b)"
  using ReadBytes_at [of b "[v]" rest] assms by (simp add: GetByte_def bb_return_def bb_bind_def)

lemma GetShort_at:
  assumes "drop (bb_position b) (bb_buffer b) = be16 v @ rest" "bb_position b \<le> Capacity b"
  shows "GetShort h b = (Inr v, seek (bb_position b + 2) b)"
  using ReadBytes_at [of b "be16 v" rest] assms by (simp add: GetShort_def bb_return_def bb_bind_def)

lemma GetInt_at:
  assumes "drop (bb_position b) (bb_buffer b) = be32 v @ rest" "bb_position b \<le> Capacity b"
  shows "GetInt h b = (Inr v, seek (bb_position b + 4) b)"
  using ReadBytes_at [of b "be32 v" rest] assms by (simp add: GetInt_def bb_return_def bb_bind_def)

lemma GetFloat_at:
  assumes "drop (bb_position b) (bb_buffer b) = obj32 h v @ rest" "bb_position b \<le> Capacity b"
  shows "GetFloat h b = (Inr v, seek (bb_position b + 4) b)"
  using ReadBytes_at [of b "obj32 h v" rest] assms by (simp add: GetFloat_def bb_return_def bb_bind_def)

lemma GetDouble_at:
  assumes "drop (bb_position b) (bb_buffer b) = obj64 h v @ rest" "bb_position b \<le> Capacity b"
  shows "GetDouble h b = (Inr v, seek (bb_position b + 8) b)"
  using ReadBytes_at [of b "obj64 h v" rest] assms by (simp add: GetDouble_def bb_return_def bb_bind_def)

lemma drop_seek_at:
  assumes "drop p buf = d1 @ d2 @ rest"
  shows "drop (p + length d1) buf = d2 @ rest"
proof -
  have "drop (p + length d1) buf = drop (length d1) (drop p buf)"
    by (simp add: add.commute)
  then show ?thesis using assms by simp
qed

lemma GetLong_at:
  assumes "drop (bb_position b) (bb_buffer b) = wire_long v @ rest" "bb_position b \<le> Capacity b"
  shows "GetLong h b = (Inr v, seek (bb_position b + 8) b)"
proof -
  let ?hi = "ucast (signed_drop_bit 32 v) :: 32 word"
  let ?lo = "ucast (v AND 0xFFFFFFFF) :: 32 word"
  have a: "drop (bb_position b) (bb_buffer b) = be32 ?hi @ be32 ?lo @ rest"
    using assms by (simp add: wire_long_def)
  have 1: "ReadBytes 4 b = (Inr (be32 ?hi), seek (bb_position b + 4) b)"
    using ReadBytes_at [of b "be32 ?hi" "be32 ?lo @ rest"] a assms(2) by simp
  have len: "bb_position b + 8 \<le> Capacity b"
  proof -
    have "length (drop (bb_position b) (bb_buffer b)) = 8 + length rest"
      using a by simp
    then show ?thesis using assms(2) by (simp add: Capacity_def)
  qed
  have "drop (bb_position b + 4) (bb_buffer b) = be32 ?lo @ rest"
    using drop_seek_at [OF a] by simp
  then have 2: "ReadBytes 4 (seek (bb_position b + 4) b) = (Inr (be32 ?lo), seek (bb_position b + 8) b)"
    using ReadBytes_at [of "seek (bb_position b + 4) b" "be32 ?lo" rest] len by simp
  show ?thesis
    by (simp add: GetLong_def 1 2 bb_return_def bb_bind_def GetLong_join)
qed

lemma GetString_at:
  assumes "drop (bb_position b) (bb_buffer b) = wire_string s @ rest"
    "bb_position b \<le> Capacity b" "length s < 2 ^ 32"
  shows "GetString h b = (Inr s, seek (bb_position b + (4 + length s)) b)"
proof -
  let ?len = "of_nat (length s) :: 32 word"
  have a: "drop (bb_position b) (bb_buffer b) = be32 ?len @ string_bytes s @ rest"
    using assms by (simp add: wire_string_def)
  have 1: "GetInt h b = (Inr ?len, seek (bb_position b + 4) b)"
    using GetInt_at [OF a assms(2)] .
  have d: "drop (bb_position b + 4) (bb_buffer b) = string_bytes s @ rest"
    using drop_seek_at [OF a] by simp
  have len: "bb_position b + 4 + length s \<le> Capacity b"
  proof -
    have "length (drop (bb_position b) (bb_buffer b)) = 4 + length s + length rest"
      using a by (simp add: string_bytes_def)
    then show ?thesis using assms(2) by (simp add: Capacity_def)
  qed
  show ?thesis
  proof (cases "length s = 0")
    case True
    with 1 have "GetInt h b = (Inr 0, seek (bb_position b + 4) b)" by simp
    with True show ?thesis by (simp add: GetString_def bb_bind_def)
  next
    case False
    then have nz: "?len \<noteq> 0"
      using assms(3) by (metis unat_len32 unat_0)
    have u: "unat ?len = length s" using assms(3) by (rule unat_len32)
    show ?thesis
      using nz len d
      by (simp add: GetString_def bb_bind_def 1 u CheckBoundary_def memcpy_from_def Capacity_def
          seek_def add.assoc)
  qed
qed

lemma length_wire_entries [simp]: "length (wire_entries kvs) = entries_size kvs"
  by (induction kvs rule: entries_size.induct) (simp_all add: wire_entries_def)

lemma wire_entries_Cons:
  "wire_entries ((k, v) # rest) = wire_string k @ wire_string v @ wire_entries rest"
  by (simp add: wire_entries_def)

lemma PutMap_loop_fits:
  "strings_fit kvs \<Longrightarrow> bb_position b + entries_size kvs \<le> Capacity b \<Longrightarrow>
   PutMap_loop h kvs b = (Inr (), poke (wire_entries kvs) b)"
proof (induction kvs arbitrary: b rule: entries_size.induct)
  case 1
  then show ?case by (simp add: bb_return_def wire_entries_def)
next
  case (2 k v rest)
  let ?b1 = "poke (wire_string k) b"
  let ?b2 = "poke (wire_string v) ?b1"
  from 2 have fit: "length k < 2 ^ 32" "length v < 2 ^ 32" "strings_fit rest"
    by (simp_all add: strings_fit_def)
  have 1: "PutString h k b = (Inr (), ?b1)"
    using 2 fit by (simp add: PutString_fits)
  have 2: "PutString h v ?b1 = (Inr (), ?b2)"
    using "2.prems" fit by (simp add: PutString_fits)
  have 3: "PutMap_loop h rest ?b2 = (Inr (), poke (wire_entries rest) ?b2)"
    using "2.prems" fit by (intro "2.IH") simp_all
  have 4: "poke (wire_entries rest) ?b2 = poke (wire_entries ((k, v) # rest)) b"
    using "2.prems" by (simp add: poke_poke wire_entries_Cons)
  show ?case
    by (simp add: bb_then_def bb_bind_def 1 2 3 4)
qed

lemma PutMap_fits:
  assumes "strings_fit kvs" "length kvs < 2 ^ 32"
    "bb_position b + 4 + entries_size kvs \<le> Capacity b"
  shows "PutMap h kvs b = (Inr (), poke (wire_map kvs) b)"
proof -
  let ?n = "of_nat (length kvs) :: 32 word"
  have 1: "PutInt h ?n b = (Inr (), poke (be32 ?n) b)"
    using assms by (simp add: PutInt_fits)
  have 2: "PutMap_loop h kvs (poke (be32 ?n) b) = (Inr (), poke (wire_entries kvs) (poke (be32 ?n) b))"
    using assms by (intro PutMap_loop_fits) simp_all
  have 3: "poke (wire_entries kvs) (poke (be32 ?n) b) = poke (wire_map kvs) b"
    using assms by (simp add: poke_poke wire_map_def)
  show ?thesis
    by (simp add: PutMap_def bb_then_def bb_bind_def 1 2 3)
qed

lemma map_add_upd_fresh:
  "map_of es k = None \<Longrightarrow> acc(k \<mapsto> v) ++ map_of es = acc ++ (map_of es)(k \<mapsto> v)"
  by (simp add: map_add_upd_left domIff)

lemma GetMap_loop_at:
  "drop (bb_position b) (bb_buffer b) = wire_entries kvs @ rest \<Longrightarrow>
   bb_position b \<le> Capacity b \<Longrightarrow> strings_fit kvs \<Longrightarrow> distinct (map fst kvs) \<Longrightarrow>
   GetMap_loop h (length kvs) acc b =
     (Inr (acc ++ map_of kvs), seek (bb_position b + entries_size kvs) b)"
proof (induction kvs arbitrary: b acc rule: entries_size.induct)
  case 1
  then show ?case by (simp add: bb_return_def)
next
  case (2 k v es)
  from "2.prems" have fit: "length k < 2 ^ 32" "length v < 2 ^ 32" "strings_fit es"
    by (simp_all add: strings_fit_def)
  from "2.prems" have dist: "distinct (map fst es)" and fresh: "map_of es k = None"
    by (auto simp: map_of_eq_None_iff)
  let ?b1 = "seek (bb_position b + (4 + length k)) b"
  let ?b2 = "seek (bb_position ?b1 + (4 + length v)) ?b1"
  have a: "drop (bb_position b) (bb_buffer b) =
           wire_string k @ (wire_string v @ wire_entries es) @ rest"
    using "2.prems" by (simp add: wire_entries_Cons)
  have len: "bb_position b + entries_size ((k, v) # es) \<le> Capacity b"
  proof -
    have "length (drop (bb_position b) (bb_buffer b)) = entries_size ((k, v) # es) + length rest"
      using "2.prems"(1) by simp
    then show ?thesis using "2.prems"(2) by (simp add: Capacity_def)
  qed
  have 1: "GetString h b = (Inr k, ?b1)"
    using a "2.prems" fit
    by (intro GetString_at [where rest = "(wire_string v @ wire_entries es) @ rest"]) simp_all
  have d1: "drop (bb_position ?b1) (bb_buffer ?b1) = wire_string v @ wire_entries es @ rest"
    using drop_seek_at [OF a] by simp
  have 2: "GetString h ?b1 = (Inr v, ?b2)"
    using d1 len fit by (intro GetString_at [where rest = "wire_entries es @ rest"]) simp_all
  have d2: "drop (bb_position ?b2) (bb_buffer ?b2) = wire_entries es @ rest"
    using drop_seek_at [OF d1] by simp
  have 3: "GetMap_loop h (length es) (acc(k \<mapsto> v)) ?b2 =
        (Inr (acc(k \<mapsto> v) ++ map_of es), seek (bb_position ?b2 + entries_size es) ?b2)"
    using d2 len fit dist by (intro "2.IH") simp_all
  have 4: "seek (bb_position ?b2 + entries_size es) ?b2 =
           seek (bb_position b + entries_size ((k, v) # es)) b"
    by (simp add: add.assoc)
  have "GetMap_loop h (Suc (length es)) acc b =
        (Inr (acc(k \<mapsto> v) ++ map_of es), seek (bb_position ?b2 + entries_size es) ?b2)"
    by (simp only: GetMap_loop.simps bb_bind_Inr [of "GetString h" b, OF 1]
        bb_bind_Inr [of "GetString h" ?b1, OF 2] 3)
  then show ?case
    by (simp only: 4 map_add_upd_fresh [OF fresh] length_Cons map_of.simps fst_conv snd_conv)
qed

lemma GetMap_at:
  assumes "drop (bb_position b) (bb_buffer b) = wire_map kvs @ rest"
    "bb_position b \<le> Capacity b" "strings_fit kvs" "length kvs < 2 ^ 32"
    "distinct (map fst kvs)" "heap (length kvs)"
  shows "GetMap h heap b = (Inr (map_of kvs), seek (bb_position b + (4 + entries_size kvs)) b)"
proof -
  let ?n = "of_nat (length kvs) :: 32 word"
  let ?b1 = "seek (bb_position b + 4) b"
  have a: "drop (bb_position b) (bb_buffer b) = be32 ?n @ wire_entries kvs @ rest"
    using assms by (simp add: wire_map_def)
  have len: "bb_position b + (4 + entries_size kvs) \<le> Capacity b"
  proof -
    have "length (drop (bb_position b) (bb_buffer b)) = 4 + entries_size kvs + length rest"
      using a by simp
    then show ?thesis using assms(2) by (simp add: Capacity_def)
  qed
  have 1: "GetInt h b = (Inr ?n, ?b1)"
    using GetInt_at [OF a assms(2)] .
  have d: "drop (bb_position ?b1) (bb_buffer ?b1) = wire_entries kvs @ rest"
    using drop_seek_at [OF a] by simp
  have 2: "GetMap_loop h (length kvs) Map.empty ?b1 =
        (Inr (Map.empty ++ map_of kvs), seek (bb_position ?b1 + entries_size kvs) ?b1)"
    using d len assms by (intro GetMap_loop_at) simp_all
  show ?thesis
    using assms
    by (simp add: GetMap_def bb_bind_def bb_then_def reserve_def 1 2 unat_len32 add.assoc)
qed

lemma roundtripI:
  assumes put: "put b = (Inr (), poke d b)"
    and fits: "bb_position b + length d \<le> Capacity b"
    and get: "\<And>b'. drop (bb_position b') (bb_buffer b') = d @ drop (bb_position b + length d) (bb_buffer b)
               \<Longrightarrow> bb_position b' \<le> Capacity b'
               \<Longrightarrow> get b' = (Inr v, seek (bb_position b' + length d) b')"
  shows "roundtrip put get v b"
proof -
  let ?b1 = "poke d b"
  let ?b2 = "seek (bb_position b) ?b1"
  have sp: "SetPosition (Position b) ?b1 = (Inr (), ?b2)"
    using fits by (simp add: SetPosition_def Position_def seek_def)
  have "drop (bb_position ?b2) (bb_buffer ?b2) = d @ drop (bb_position b + length d) (bb_buffer b)"
    using fits by (simp add: drop_poke)
  moreover have "bb_position ?b2 \<le> Capacity ?b2"
    using fits by simp
  ultimately have "get ?b2 = (Inr v, seek (bb_position ?b2 + length d) ?b2)"
    by (rule get)
  moreover have "seek (bb_position ?b2 + length d) ?b2 = ?b1"
  proof -
    have "seek (bb_position ?b2 + length d) ?b2 = seek (bb_position ?b1) ?b1" by simp
    then show ?thesis by (simp only: seek_simps)
  qed
  ultimately show ?thesis
    by (simp add: roundtrip_def put sp)
qed

subsection \<open>Round trips\<close>

text \<open>
  Claim C3. For every byte, 16-bit, 32-bit and 64-bit integer, every float and double bit
  pattern, every string whose length fits the 32-bit length prefix (the empty string
  included) and every map with distinct keys whose strings and entry count fit their 32-bit
  prefixes (the empty map and empty values included): writing the value with its \<open>Put\<close>
  operation into a ByteBuffer with enough room after the cursor, seeking back to where the
  write started and reading with the matching \<open>Get\<close> operation yields exactly the value,
  on a host of either byte order. A map is written in an arbitrary iteration order \<open>kvs\<close>
  of its entries and read back as the map \<open>map_of kvs\<close>, in a process whose allocator
  grants \<open>GetMap\<close> a table for as many elements as the map has.
\<close>

theorem ByteBuffer_roundtrip:
  "(bb_position b + 1 \<le> Capacity b \<longrightarrow> roundtrip (PutByte v8) GetByte v8 b) \<and>
   (bb_position b + 2 \<le> Capacity b \<longrightarrow> roundtrip (PutShort h v16) (GetShort h) v16 b) \<and>
   (bb_position b + 4 \<le> Capacity b \<longrightarrow> roundtrip (PutInt h v32) (GetInt h) v32 b) \<and>
   (bb_position b + 8 \<le> Capacity b \<longrightarrow> roundtrip (PutLong h v64) (GetLong h) v64 b) \<and>
   (bb_position b + 4 \<le> Capacity b \<longrightarrow> roundtrip (PutFloat h f32) (GetFloat h) f32 b) \<and>
   (bb_position b + 8 \<le> Capacity b \<longrightarrow> roundtrip (PutDouble h f64) (GetDouble h) f64 b) \<and>
   (length s < 2 ^ 32 \<and> bb_position b + 4 + length s \<le> Capacity b \<longrightarrow>
      roundtrip (PutString h s) (GetString h) s b) \<and>
   (distinct (map fst kvs) \<and> strings_fit kvs \<and> length kvs < 2 ^ 32 \<and>
    bb_position b + 4 + entries_size kvs \<le> Capacity b \<and> heap (length kvs) \<longrightarrow>
      roundtrip (PutMap h kvs) (GetMap h heap) (map_of kvs) b)"
proof (intro conjI impI)
  assume "bb_position b + 1 \<le> Capacity b"
  then show "roundtrip (PutByte v8) GetByte v8 b"
    by (intro roundtripI [where d = "[v8]"]) (simp_all add: PutByte_fits GetByte_at)
next
  assume "bb_position b + 2 \<le> Capacity b"
  then show "roundtrip (PutShort h v16) (GetShort h) v16 b"
    by (intro roundtripI [where d = "be16 v16"]) (simp_all add: PutShort_fits GetShort_at)
next
  assume "bb_position b + 4 \<le> Capacity b"
  then show "roundtrip (PutInt h v32) (GetInt h) v32 b"
    by (intro roundtripI [where d = "be32 v32"]) (simp_all add: PutInt_fits GetInt_at)
next
  assume "bb_position b + 8 \<le> Capacity b"
  then show "roundtrip (PutLong h v64) (GetLong h) v64 b"
    by (intro roundtripI [where d = "wire_long v64"]) (simp_all add: PutLong_fits GetLong_at)
next
  assume "bb_position b + 4 \<le> Capacity b"
  then show "roundtrip (PutFloat h f32) (GetFloat h) f32 b"
    by (intro roundtripI [where d = "obj32 h f32"]) (simp_all add: PutFloat_fits GetFloat_at)
next
  assume "bb_position b + 8 \<le> Capacity b"
  then show "roundtrip (PutDouble h f64) (GetDouble h) f64 b"
    by (intro roundtripI [where d = "obj64 h f64"]) (simp_all add: PutDouble_fits GetDouble_at)
next
  assume "length s < 2 ^ 32 \<and> bb_position b + 4 + length s \<le> Capacity b"
  then show "roundtrip (PutString h s) (GetString h) s b"
    by (intro roundtripI [where d = "wire_string s"]) (simp_all add: PutString_fits GetString_at)
next
  assume "distinct (map fst kvs) \<and> strings_fit kvs \<and> length kvs < 2 ^ 32 \<and>
    bb_position b + 4 + entries_size kvs \<le> Capacity b \<and> heap (length kvs)"
  then show "roundtrip (PutMap h kvs) (GetMap h heap) (map_of kvs) b"
    by (intro roundtripI [where d = "wire_map kvs"])
      (simp_all add: PutMap_fits GetMap_at wire_map_def)
qed

theorem ByteBuffer_roundtrip_witness:
  "roundtrip (PutByte 0xFF) GetByte 0xFF \<lparr>bb_buffer = replicate 64 0, bb_position = 3\<rparr> \<and>
   roundtrip (PutShort LittleEndian 0xFFFF) (GetShort LittleEndian) 0xFFFF
     \<lparr>bb_buffer = replicate 64 0, bb_position = 3\<rparr> \<and>
   roundtrip (PutInt LittleEndian 0xFFFFFFFF) (GetInt LittleEndian) 0xFFFFFFFF
     \<lparr>bb_buffer = replicate 64 0, bb_position = 3\<rparr> \<and>
   roundtrip (PutLong LittleEndian (- 1)) (GetLong LittleEndian) (- 1)
     \<lparr>bb_buffer = replicate 64 0, bb_position = 3\<rparr> \<and>
   roundtrip (PutFloat LittleEndian 0x3F800000) (GetFloat LittleEndian) 0x3F800000
     \<lparr>bb_buffer = replicate 64 0, bb_position = 3\<rparr> \<and>
   roundtrip (PutDouble LittleEndian 0xC05EDD2F1A9FBE77) (GetDouble LittleEndian) 0xC05EDD2F1A9FBE77
     \<lparr>bb_buffer = replicate 64 0, bb_position = 3\<rparr> \<and>
   roundtrip (PutString LittleEndian []) (GetString LittleEndian) []
     \<lparr>bb_buffer = replicate 64 0, bb_position = 3\<rparr> \<and>
   roundtrip (PutMap LittleEndian [(''key1'', ''value1''), (''empty'', [])])
     (GetMap LittleEndian (heap_limit 1024))
     (map_of [(''key1'', ''value1''), (''empty'', [])])
     \<lparr>bb_buffer = replicate 64 0, bb_position = 3\<rparr>"
  using ByteBuffer_roundtrip [of "\<lparr>bb_buffer = replicate 64 0, bb_position = 3\<rparr>"
      "0xFF" LittleEndian "0xFFFF" "0xFFFFFFFF" "- 1" "0x3F800000" "0xC05EDD2F1A9FBE77"
      "[]" "[(''key1'', ''value1''), (''empty'', [])]" "heap_limit 1024"]
  by (simp add: Capacity_def strings_fit_def heap_limit_def)

subsection \<open>Bounds checks\<close>

lemma confined_refl [simp]: "confined b b"
  by (simp add: confined_def)

lemma read_only_refl [simp]: "read_only b b"
  by (simp add: read_only_def)

lemma read_only_trans: "read_only b b1 \<Longrightarrow> read_only b1 b2 \<Longrightarrow> read_only b b2"
  by (auto simp: read_only_def Capacity_def)

lemma get_guarded_bind:
  assumes "\<And>b. get_guarded errs m b" "\<And>x b. get_guarded errs (f x) b"
  shows "get_guarded errs (bb_bind m f) b"
proof (cases "m b")
  case (Pair r b1)
  show ?thesis
  proof (cases r)
    case (Inl e)
    with Pair assms(1) [of b] show ?thesis
      by (simp add: get_guarded_def bb_bind_def)
  next
    case (Inr x)
    with Pair assms(1) [of b] have c1: "read_only b b1" by (simp add: get_guarded_def)
    from assms(2) [of x b1] c1 Pair Inr show ?thesis
      by (auto simp: get_guarded_def bb_bind_def split: prod.splits sum.splits intro: read_only_trans)
  qed
qed

lemma get_guarded_return [simp]: "get_guarded errs (bb_return x) b"
  by (simp add: get_guarded_def bb_return_def)

lemma put_guarded_return [simp]: "put_guarded errs (bb_return x) b"
  by (simp add: put_guarded_def bb_return_def)

lemma ReadBytes_guarded: "get_guarded is_underflow (ReadBytes n) b"
  by (auto simp: get_guarded_def ReadBytes_def CheckBoundary_def memcpy_from_def read_only_def
      Capacity_def)

lemma weaken_get_guarded:
  "get_guarded errs get b \<Longrightarrow> (\<And>e. errs e \<Longrightarrow> errs' e) \<Longrightarrow> get_guarded errs' get b"
  by (auto simp: get_guarded_def split: prod.splits sum.splits)

lemma unat_of_nat_le: "unat (of_nat n :: 32 word) \<le> n"
  by (simp add: unat_of_nat)

lemma GetInt_guarded: "get_guarded is_underflow (GetInt h) b"
  unfolding GetInt_def by (intro get_guarded_bind ReadBytes_guarded get_guarded_return)

lemma GetLong_guarded: "get_guarded is_underflow (GetLong h) b"
  unfolding GetLong_def Let_def
  by (intro get_guarded_bind ReadBytes_guarded get_guarded_return)

lemma GetString_tail_guarded:
  "get_guarded is_underflow (\<lambda>b.
       if len = 0 then (Inr [], b)
       else if \<not> CheckBoundary b (unat len)
       then (Inl (underflow_error ''ByteBuffer::GetString: string length exceeds buffer''), b)
       else (case memcpy_from (bb_buffer b) (bb_position b) (unat len) of
               Inl e \<Rightarrow> (Inl e, b)
             | Inr bs \<Rightarrow> (Inr (bytes_string bs), b\<lparr>bb_position := bb_position b + unat len\<rparr>))) b"
  by (auto simp: get_guarded_def CheckBoundary_def memcpy_from_def read_only_def Capacity_def)

lemma GetString_guarded: "get_guarded is_underflow (GetString h) b"
  unfolding GetString_def
  by (intro get_guarded_bind GetInt_guarded GetString_tail_guarded)

lemma GetMap_loop_guarded: "get_guarded is_underflow (GetMap_loop h n acc) b"
proof (induction n arbitrary: acc b)
  case 0
  then show ?case by simp
next
  case (Suc n)
  show ?case
    unfolding GetMap_loop.simps
    by (intro get_guarded_bind GetString_guarded Suc.IH)
qed

lemma GetArray_guarded: "get_guarded GetArray_error (GetArray h data_null max_len) b"
  unfolding GetArray_def
proof (intro get_guarded_bind)
  fix b
  show "get_guarded GetArray_error (GetInt h) b"
    by (rule weaken_get_guarded [OF GetInt_guarded]) (simp add: GetArray_error_def)
next
  fix len :: "32 word" and b
  have "get_guarded GetArray_error (ReadBytes (unat len)) b"
    by (rule weaken_get_guarded [OF ReadBytes_guarded]) (simp add: GetArray_error_def)
  then show "get_guarded GetArray_error
          (if data_null \<and> 0 < len
           then bb_throw (invalid_argument ''ByteBuffer::GetArray: data cannot be null'')
           else if max_len < len
                then bb_throw
                      (overflow_error
                        ''ByteBuffer::GetArray: array size exceeds destination buffer'')
                else if 0 < len then ReadBytes (unat len) else bb_return []) b"
    by (simp add: get_guarded_def bb_throw_def bb_return_def GetArray_error_def)
qed

lemma put_rejectedI:
  "Capacity b < bb_position b + n \<Longrightarrow> put_rejected (WriteBytes d n) b"
  by (simp add: put_rejected_def WriteBytes_overflow)

lemma get_rejectedI:
  "Capacity b < bb_position b + n \<Longrightarrow> get_rejected (bb_bind (ReadBytes n) f) b"
  by (simp add: get_rejected_def bb_bind_def ReadBytes_underflow)

lemma get_rejected_bind:
  "get_rejected m b \<Longrightarrow> get_rejected (bb_bind m f) b"
  by (auto simp: get_rejected_def bb_bind_def split: prod.splits sum.splits)

lemma GetInt_peek:
  "bb_position b + 4 \<le> Capacity b \<Longrightarrow>
   GetInt h b = (Inr (peek_int b), seek (bb_position b + 4) b)"
  by (simp add: GetInt_def bb_bind_def ReadBytes_fits bb_return_def peek_int_def peek_def
      Capacity_def)

lemma GetString_declared_too_long:
  assumes "bb_position b + 4 \<le> Capacity b" "Capacity b < bb_position b + 4 + unat (peek_int b)"
  shows "GetString h b =
     (Inl (underflow_error ''ByteBuffer::GetString: string length exceeds buffer''),
      seek (bb_position b + 4) b)"
proof -
  from assms have "peek_int b \<noteq> 0" by (auto simp: unat_eq_0)
  with assms show ?thesis
    by (simp add: GetString_def bb_bind_def GetInt_peek CheckBoundary_def)
qed

lemma fitting_append_all:
  "fitting cap p ds1 = ds1 \<Longrightarrow>
   fitting cap p (ds1 @ ds2) = ds1 @ fitting cap (p + length (concat ds1)) ds2"
  by (induction ds1 arbitrary: p) (auto simp: add.assoc split: if_splits)

lemma length_fitting: "length (fitting cap p ds) \<le> length ds"
  by (induction ds arbitrary: p) (auto simp: le_SucI)

lemma fitting_append_part:
  "fitting cap p ds1 \<noteq> ds1 \<Longrightarrow> fitting cap p (ds1 @ ds2) = fitting cap p ds1"
  by (induction ds1 arbitrary: p) (auto split: if_splits)

lemma fitting_neq_append:
  assumes "fitting cap p ds1 \<noteq> ds1"
  shows "fitting cap p ds1 \<noteq> ds1 @ ds2"
proof
  assume e: "fitting cap p ds1 = ds1 @ ds2"
  have "length (fitting cap p ds1) \<le> length ds1" by (rule length_fitting)
  with e have "ds2 = []" by simp
  with e assms show False by simp
qed

lemma fitting_fits:
  "fitting cap p ds \<noteq> [] \<Longrightarrow> p + length (concat (fitting cap p ds)) \<le> cap"
proof (induction ds arbitrary: p)
  case Nil
  then show ?case by simp
next
  case (Cons d ds)
  from Cons.prems have fit: "p + length d \<le> cap" by (auto split: if_splits)
  show ?case
  proof (cases "fitting cap (p + length d) ds = []")
    case True
    with fit show ?thesis by simp
  next
    case False
    from Cons.IH [OF False] fit show ?thesis by (simp add: add.assoc)
  qed
qed

lemma poke_concat_fits:
  "bb_position b + length d1 \<le> Capacity b \<or> d1 = [] \<Longrightarrow> poke d2 (poke d1 b) = poke (d1 @ d2) b"
  by (auto simp: poke_poke)

lemma fitting_room:
  "bb_position b + length (concat (fitting (Capacity b) (bb_position b) ds)) \<le> Capacity b \<or>
   concat (fitting (Capacity b) (bb_position b) ds) = []"
  using fitting_fits [of "Capacity b" "bb_position b" ds] by (cases "fitting (Capacity b) (bb_position b) ds = []") auto

lemma in_pieces_then:
  assumes m: "\<And>b. m b = in_pieces ds1 b" and k: "\<And>b. k b = in_pieces ds2 b"
  shows "bb_then m k b = in_pieces (ds1 @ ds2) b"
proof (cases "fitting (Capacity b) (bb_position b) ds1 = ds1")
  case True
  define D where "D = concat ds1"
  let ?b1 = "poke D b"
  have room: "bb_position b + length D \<le> Capacity b \<or> D = []"
    using fitting_room [of b ds1] True by (simp add: D_def)
  then have cap: "Capacity ?b1 = Capacity b" by auto
  have pos: "bb_position ?b1 = bb_position b + length D" by simp
  have pp: "poke d2 ?b1 = poke (D @ d2) b" for d2
    using room by (rule poke_concat_fits)
  have 1: "m b = (Inr (), ?b1)" by (simp add: m in_pieces_def True D_def)
  have "bb_then m k b = in_pieces ds2 ?b1"
    by (simp add: bb_then_def bb_bind_def 1 k)
  also have "\<dots> = in_pieces (ds1 @ ds2) b"
    unfolding in_pieces_def Let_def cap pos pp fitting_append_all [OF True]
    by (simp add: D_def)
  finally show ?thesis .
next
  case False
  have 1: "m b = (Inl (overflow_error ''ByteBuffer: write would exceed buffer bounds''),
                  poke (concat (fitting (Capacity b) (bb_position b) ds1)) b)"
    by (simp add: m in_pieces_def False)
  show ?thesis
    by (simp add: bb_then_def bb_bind_def 1 in_pieces_def Let_def
        fitting_append_part [OF False] fitting_neq_append [OF False])
qed

lemma WriteBytes_piece:
  "n \<le> length d \<Longrightarrow> WriteBytes d n b = in_pieces [take n d] b"
proof (cases "bb_position b + n \<le> Capacity b")
  case True
  assume "n \<le> length d"
  with True show ?thesis
    by (simp add: WriteBytes_fits in_pieces_def min_def)
next
  case False
  assume "n \<le> length d"
  with False show ?thesis
    by (simp add: WriteBytes_overflow in_pieces_def min_def)
qed

lemma PutInt_piece: "PutInt h v b = in_pieces [be32 v] b"
  using WriteBytes_piece [of 4 "be32 v" b] by (simp add: PutInt_def)

lemma return_piece: "bb_return () b = in_pieces [] b"
  by (simp add: bb_return_def in_pieces_def)

lemma PutLong_pieces:
  "PutLong h v b =
   in_pieces [be32 (ucast (signed_drop_bit 32 v)), be32 (ucast (v AND 0xFFFFFFFF))] b"
proof -
  have "bb_then (WriteBytes (be32 (ucast (signed_drop_bit 32 v))) 4)
                (WriteBytes (be32 (ucast (v AND 0xFFFFFFFF))) 4) b =
        in_pieces ([be32 (ucast (signed_drop_bit 32 v))] @ [be32 (ucast (v AND 0xFFFFFFFF))]) b"
  proof (rule in_pieces_then)
    fix b
    show "WriteBytes (be32 (ucast (signed_drop_bit 32 v))) 4 b =
          in_pieces [be32 (ucast (signed_drop_bit 32 v))] b"
      using WriteBytes_piece [of 4 "be32 (ucast (signed_drop_bit 32 v))" b] by simp
    show "WriteBytes (be32 (ucast (v AND 0xFFFFFFFF))) 4 b =
          in_pieces [be32 (ucast (v AND 0xFFFFFFFF))] b"
      using WriteBytes_piece [of 4 "be32 (ucast (v AND 0xFFFFFFFF))" b] by simp
  qed
  then show ?thesis by (simp add: PutLong_def Let_def)
qed

lemma PutString_pieces: "PutString h s b = in_pieces (string_writes s) b"
proof (cases "(of_nat (length s) :: 32 word) > 0")
  case True
  let ?len = "of_nat (length s) :: 32 word"
  have "bb_then (PutInt h ?len) (WriteBytes (string_bytes s) (unat ?len)) b =
        in_pieces ([be32 ?len] @ [take (unat ?len) (string_bytes s)]) b"
  proof (rule in_pieces_then)
    fix b
    show "PutInt h ?len b = in_pieces [be32 ?len] b" by (rule PutInt_piece)
    show "WriteBytes (string_bytes s) (unat ?len) b =
          in_pieces [take (unat ?len) (string_bytes s)] b"
      by (rule WriteBytes_piece) (simp add: unat_of_nat_le)
  qed
  with True show ?thesis by (simp add: PutString_def string_writes_def Let_def)
next
  case False
  let ?len = "of_nat (length s) :: 32 word"
  have "bb_then (PutInt h ?len) (bb_return ()) b = in_pieces ([be32 ?len] @ []) b"
    by (rule in_pieces_then) (rule PutInt_piece return_piece)+
  with False show ?thesis by (simp add: PutString_def string_writes_def Let_def)
qed

lemma PutMap_loop_pieces:
  "PutMap_loop h kvs b =
   in_pieces (concat (map (\<lambda>(k, v). string_writes k @ string_writes v) kvs)) b"
proof (induction kvs arbitrary: b rule: entries_size.induct)
  case 1
  then show ?case by (simp add: return_piece)
next
  case (2 k v es)
  let ?rest = "concat (map (\<lambda>(k, v). string_writes k @ string_writes v) es)"
  have "bb_then (PutString h k) (bb_then (PutString h v) (PutMap_loop h es)) b =
        in_pieces (string_writes k @ (string_writes v @ ?rest)) b"
  proof (rule in_pieces_then)
    fix b
    show "PutString h k b = in_pieces (string_writes k) b" by (rule PutString_pieces)
    show "bb_then (PutString h v) (PutMap_loop h es) b = in_pieces (string_writes v @ ?rest) b"
      by (rule in_pieces_then) (rule PutString_pieces "2.IH")+
  qed
  then show ?case by simp
qed

lemma PutMap_pieces: "PutMap h kvs b = in_pieces (map_writes kvs) b"
proof -
  have "bb_then (PutInt h (of_nat (length kvs))) (PutMap_loop h kvs) b =
        in_pieces ([be32 (of_nat (length kvs))] @
                   concat (map (\<lambda>(k, v). string_writes k @ string_writes v) kvs)) b"
    by (rule in_pieces_then) (rule PutInt_piece PutMap_loop_pieces)+
  then show ?thesis by (simp add: PutMap_def map_writes_def)
qed

lemma confined_poke:
  "bb_position b + length d \<le> Capacity b \<or> d = [] \<Longrightarrow> confined b (poke d b)"
  by (auto simp: confined_def poke_def Capacity_def)

lemma in_pieces_guarded: "put_guarded is_overflow (in_pieces ds) b"
proof -
  define W where "W = concat (fitting (Capacity b) (bb_position b) ds)"
  have "bb_position b + length W \<le> Capacity b \<or> W = []"
    unfolding W_def by (rule fitting_room)
  then have "confined b (poke W b)" by (rule confined_poke)
  then show ?thesis
    by (auto simp: put_guarded_def in_pieces_def Let_def W_def)
qed

lemma in_pieces_overflows:
  assumes "Capacity b < bb_position b + length (concat ds)" "ds \<noteq> []"
  shows "put_overflows (in_pieces ds) b"
proof -
  have "fitting (Capacity b) (bb_position b) ds \<noteq> ds"
  proof
    assume e: "fitting (Capacity b) (bb_position b) ds = ds"
    with assms(2) fitting_fits [of "Capacity b" "bb_position b" ds] assms show False by simp
  qed
  with in_pieces_guarded [of ds b] show ?thesis
    by (simp add: put_overflows_def put_guarded_def in_pieces_def Let_def)
qed

lemma in_pieces_rejected:
  "Capacity b < bb_position b + length d \<Longrightarrow> put_rejected (in_pieces (d # ds)) b"
  by (simp add: put_rejected_def in_pieces_def)

lemma string_writes_wire: "length s < 2 ^ 32 \<Longrightarrow> concat (string_writes s) = wire_string s"
  by (cases "s = []") (simp_all add: string_writes_def wire_string_def Let_def unat_len32 len32_pos
      string_bytes_def)

lemma map_writes_wire: "strings_fit kvs \<Longrightarrow> concat (map_writes kvs) = wire_map kvs"
proof -
  assume "strings_fit kvs"
  then have "concat (concat (map (\<lambda>(k, v). string_writes k @ string_writes v) kvs)) =
             wire_entries kvs"
    by (induction kvs rule: entries_size.induct)
       (simp_all add: strings_fit_def wire_entries_def string_writes_wire)
  then show ?thesis by (simp add: map_writes_def wire_map_def)
qed

lemma PutLong_high_half_written:
  "bb_position b + 4 \<le> Capacity b \<and> Capacity b < bb_position b + 8 \<longrightarrow>
   PutLong h v b =
     (Inl (overflow_error ''ByteBuffer: write would exceed buffer bounds''),
      poke (be32 (ucast (signed_drop_bit 32 v))) b)"
  by (simp add: PutLong_pieces in_pieces_def)

lemma PutString_prefix_written:
  "bb_position b + 4 \<le> Capacity b \<and>
   Capacity b < bb_position b + 4 + unat (of_nat (length s) :: 32 word) \<longrightarrow>
   PutString h s b =
     (Inl (overflow_error ''ByteBuffer: write would exceed buffer bounds''),
      poke (be32 (of_nat (length s))) b)"
proof
  let ?len = "of_nat (length s) :: 32 word"
  assume a: "bb_position b + 4 \<le> Capacity b \<and> Capacity b < bb_position b + 4 + unat ?len"
  then have "unat ?len \<noteq> 0" by auto
  then have pos: "?len > 0" by (simp add: unat_gt_0 word_gt_0)
  have "length (take (unat ?len) (string_bytes s)) = unat ?len"
    by (simp add: unat_of_nat_le)
  with a pos show "PutString h s b =
     (Inl (overflow_error ''ByteBuffer: write would exceed buffer bounds''), poke (be32 ?len) b)"
    by (simp add: PutString_pieces in_pieces_def string_writes_def Let_def)
qed

lemma PutArray_rejected:
  "Capacity b < bb_position b + 4 \<longrightarrow> put_rejected (PutArray h data len) b"
  by (simp add: PutArray_def bb_then_def bb_bind_def PutInt_def WriteBytes_overflow
      put_rejected_def)

lemma PutArray_prefix_written:
  "bb_position b + 4 \<le> Capacity b \<and> Capacity b < bb_position b + 4 + unat len \<longrightarrow>
   PutArray h (Some d) len b =
     (Inl (overflow_error ''ByteBuffer: write would exceed buffer bounds''), poke (be32 len) b)"
proof
  assume a: "bb_position b + 4 \<le> Capacity b \<and> Capacity b < bb_position b + 4 + unat len"
  then have "unat len \<noteq> 0" by auto
  then have pos: "len > 0" by (simp add: unat_gt_0 word_gt_0)
  from a have 1: "PutInt h len b = (Inr (), poke (be32 len) b)" by (simp add: PutInt_fits)
  from a have 2: "WriteBytes d (unat len) (poke (be32 len) b) =
      (Inl (overflow_error ''ByteBuffer: write would exceed buffer bounds''), poke (be32 len) b)"
    by (intro WriteBytes_overflow) simp
  show "PutArray h (Some d) len b =
     (Inl (overflow_error ''ByteBuffer: write would exceed buffer bounds''), poke (be32 len) b)"
    by (simp add: PutArray_def bb_then_def bb_bind_def 1 2 pos)
qed

lemma PutArray_null:
  "bb_position b + 4 \<le> Capacity b \<and> 0 < len \<longrightarrow>
   PutArray h None len b =
     (Inl (invalid_argument ''ByteBuffer::PutArray: data cannot be null''), poke (be32 len) b)"
  by (simp add: PutArray_def bb_then_def bb_bind_def PutInt_fits bb_throw_def)

lemma PutArray_overflows:
  "Capacity b < bb_position b + 4 + unat len \<longrightarrow> put_overflows (PutArray h (Some d) len) b"
proof (cases "bb_position b + 4 \<le> Capacity b")
  case True
  show ?thesis
  proof
    assume "Capacity b < bb_position b + 4 + unat len"
    with True PutArray_prefix_written [of b len h d]
    show "put_overflows (PutArray h (Some d) len) b"
      by (simp add: put_overflows_def confined_poke)
  qed
next
  case False
  with PutArray_rejected [of b h "Some d" len] show ?thesis
    by (auto simp: put_overflows_def put_rejected_def split: prod.splits sum.splits)
qed

lemma GetLong_low_half_missing:
  "bb_position b + 4 \<le> Capacity b \<and> Capacity b < bb_position b + 8 \<longrightarrow>
   GetLong h b =
     (Inl (underflow_error ''ByteBuffer: read would exceed buffer bounds''),
      seek (bb_position b + 4) b)"
  by (simp add: GetLong_def bb_bind_def ReadBytes_fits ReadBytes_underflow)

lemma GetArray_null:
  "bb_position b + 4 \<le> Capacity b \<and> data_null \<and> 0 < peek_int b \<longrightarrow>
   GetArray h data_null max_len b =
     (Inl (invalid_argument ''ByteBuffer::GetArray: data cannot be null''),
      seek (bb_position b + 4) b)"
  by (simp add: GetArray_def bb_bind_def GetInt_peek bb_throw_def)

lemma GetArray_too_long:
  "bb_position b + 4 \<le> Capacity b \<and> \<not> data_null \<and> max_len < peek_int b \<longrightarrow>
   GetArray h data_null max_len b =
     (Inl (overflow_error ''ByteBuffer::GetArray: array size exceeds destination buffer''),
      seek (bb_position b + 4) b)"
  by (simp add: GetArray_def bb_bind_def GetInt_peek bb_throw_def)

lemma GetArray_truncated:
  "bb_position b + 4 \<le> Capacity b \<and> \<not> data_null \<and> peek_int b \<le> max_len \<and>
   Capacity b < bb_position b + 4 + unat (peek_int b) \<longrightarrow>
   GetArray h data_null max_len b =
     (Inl (underflow_error ''ByteBuffer: read would exceed buffer bounds''),
      seek (bb_position b + 4) b)"
proof
  assume a: "bb_position b + 4 \<le> Capacity b \<and> \<not> data_null \<and> peek_int b \<le> max_len \<and>
   Capacity b < bb_position b + 4 + unat (peek_int b)"
  then have "unat (peek_int b) \<noteq> 0" by auto
  then have pos: "peek_int b > 0" by (simp add: unat_gt_0 word_gt_0)
  from a have 2: "ReadBytes (unat (peek_int b)) (seek (bb_position b + 4) b) =
      (Inl (underflow_error ''ByteBuffer: read would exceed buffer bounds''),
       seek (bb_position b + 4) b)"
    by (intro ReadBytes_underflow) simp
  from a pos show "GetArray h data_null max_len b =
     (Inl (underflow_error ''ByteBuffer: read would exceed buffer bounds''),
      seek (bb_position b + 4) b)"
    by (simp add: GetArray_def bb_bind_def GetInt_peek 2 not_less [symmetric])
qed

lemma string_end_bounds: "string_end buf p = Some q \<Longrightarrow> p \<le> q \<and> q \<le> length buf"
  by (auto simp: string_end_def Let_def split: if_splits)

lemma read_only_seek:
  "bb_position b \<le> q \<Longrightarrow> q \<le> Capacity b \<Longrightarrow> read_only b (seek q b)"
  by (simp add: read_only_def)

lemma GetString_string_end:
  "(string_end (bb_buffer b) (bb_position b) = None \<longrightarrow> get_underflows (GetString h) b) \<and>
   (string_end (bb_buffer b) (bb_position b) = Some q \<longrightarrow> get_reaches q (GetString h) b)"
proof (cases "bb_position b + 4 \<le> Capacity b")
  case False
  then have "GetString h b =
      (Inl (underflow_error ''ByteBuffer: read would exceed buffer bounds''), b)"
    by (simp add: GetString_def GetInt_def bb_bind_def ReadBytes_underflow)
  with False show ?thesis
    by (simp add: get_underflows_def string_end_def Capacity_def)
next
  case True
  note gi = GetInt_peek [OF True, of h]
  have pk: "de32 (take 4 (drop (bb_position b) (bb_buffer b))) = peek_int b"
    by (simp add: peek_int_def peek_def)
  show ?thesis
  proof (cases "peek_int b = 0")
    case z: True
    have "GetString h b = (Inr [], seek (bb_position b + 4) b)"
      by (simp add: GetString_def bb_bind_def gi z)
    with True z show ?thesis
      by (simp add: get_reaches_def string_end_def pk Capacity_def)
  next
    case nz: False
    show ?thesis
    proof (cases "bb_position b + 4 + unat (peek_int b) \<le> Capacity b")
      case fits: True
      then have "GetString h b =
          (Inr (bytes_string (take (unat (peek_int b)) (drop (bb_position b + 4) (bb_buffer b)))),
           seek (bb_position b + 4 + unat (peek_int b)) b)"
        by (simp add: GetString_def bb_bind_def gi nz CheckBoundary_def memcpy_from_def
            seek_def Capacity_def)
      with True fits show ?thesis
        by (auto simp: get_reaches_def string_end_def pk Capacity_def Let_def)
    next
      case short: False
      then have "GetString h b =
          (Inl (underflow_error ''ByteBuffer::GetString: string length exceeds buffer''),
           seek (bb_position b + 4) b)"
        by (simp add: GetString_def bb_bind_def gi nz CheckBoundary_def)
      with True short show ?thesis
        by (auto simp: get_underflows_def string_end_def pk Capacity_def Let_def read_only_def)
    qed
  qed
qed

lemma get_underflows_bind:
  "get_underflows m b \<Longrightarrow> get_underflows (bb_bind m f) b"
  by (auto simp: get_underflows_def bb_bind_def split: prod.splits sum.splits)

lemma get_underflows_after:
  assumes m: "get_reaches q m b" and q: "bb_position b \<le> q" "q \<le> Capacity b"
    and f: "\<And>x. get_underflows (f x) (seek q b)"
  shows "get_underflows (bb_bind m f) b"
proof -
  from m obtain x where mx: "m b = (Inr x, seek q b)"
    by (auto simp: get_reaches_def split: prod.splits sum.splits)
  have ro: "read_only b (seek q b)" using q by (rule read_only_seek)
  from f [of x] ro show ?thesis
    by (auto simp: get_underflows_def bb_bind_def mx split: prod.splits sum.splits
        intro: read_only_trans)
qed

lemma get_reaches_after:
  assumes m: "get_reaches q m b" and f: "\<And>x. get_reaches r (f x) (seek q b)"
  shows "get_reaches r (bb_bind m f) b"
proof -
  from m obtain x where mx: "m b = (Inr x, seek q b)"
    by (auto simp: get_reaches_def split: prod.splits sum.splits)
  from f [of x] show ?thesis
    by (auto simp: get_reaches_def bb_bind_def mx split: prod.splits sum.splits)
qed

lemma GetMap_loop_strings_end:
  "(strings_end (bb_buffer b) (2 * n) (bb_position b) = None \<longrightarrow>
      get_underflows (GetMap_loop h n acc) b) \<and>
   (strings_end (bb_buffer b) (2 * n) (bb_position b) = Some q \<longrightarrow>
      get_reaches q (GetMap_loop h n acc) b)"
proof (induction n arbitrary: acc b)
  case 0
  show ?case by (auto simp: get_reaches_def bb_return_def)
next
  case (Suc n)
  let ?buf = "bb_buffer b"
  let ?p = "bb_position b"
  have two: "2 * Suc n = Suc (Suc (2 * n))" by simp
  show ?case
  proof (cases "string_end ?buf ?p")
    case None
    with GetString_string_end [of b h] have "get_underflows (GetString h) b" by simp
    then have "get_underflows (GetMap_loop h (Suc n) acc) b"
      unfolding GetMap_loop.simps by (rule get_underflows_bind)
    with None show ?thesis by (simp add: two)
  next
    case (Some q1)
    with GetString_string_end [of b h q1] have r1: "get_reaches q1 (GetString h) b" by simp
    from string_end_bounds [OF Some] have b1: "?p \<le> q1" "q1 \<le> Capacity b"
      by (simp_all add: Capacity_def)
    let ?b1 = "seek q1 b"
    show ?thesis
    proof (cases "string_end ?buf q1")
      case None
      with GetString_string_end [of ?b1 h] have "get_underflows (GetString h) ?b1" by simp
      then have "get_underflows (bb_bind (GetString h)
                    (\<lambda>val. GetMap_loop h n (acc(key \<mapsto> val)))) ?b1" for key
        by (rule get_underflows_bind)
      then have "get_underflows (GetMap_loop h (Suc n) acc) b"
        unfolding GetMap_loop.simps by (intro get_underflows_after [OF r1 b1])
      with Some None show ?thesis by (simp add: two)
    next
      case q2: (Some q2)
      with GetString_string_end [of ?b1 h q2] have r2: "get_reaches q2 (GetString h) ?b1"
        by simp
      from string_end_bounds [OF q2] have b2: "bb_position ?b1 \<le> q2" "q2 \<le> Capacity ?b1"
        by (simp_all add: Capacity_def)
      let ?b2 = "seek q2 ?b1"
      note IH = Suc.IH [of ?b2]
      have se: "strings_end ?buf (2 * Suc n) ?p = strings_end (bb_buffer ?b2) (2 * n) (bb_position ?b2)"
        using Some q2 by (simp add: two)
      show ?thesis
      proof (intro conjI impI)
        assume "strings_end ?buf (2 * Suc n) ?p = None"
        with se IH have "get_underflows (GetMap_loop h n acc') ?b2" for acc' by simp
        then have "get_underflows (bb_bind (GetString h)
                      (\<lambda>val. GetMap_loop h n (acc(key \<mapsto> val)))) ?b1" for key
          by (intro get_underflows_after [OF r2 b2])
        then show "get_underflows (GetMap_loop h (Suc n) acc) b"
          unfolding GetMap_loop.simps by (intro get_underflows_after [OF r1 b1])
      next
        assume "strings_end ?buf (2 * Suc n) ?p = Some q"
        with se IH have "get_reaches q (GetMap_loop h n acc') ?b2" for acc' by simp
        then have "get_reaches q (bb_bind (GetString h)
                      (\<lambda>val. GetMap_loop h n (acc(key \<mapsto> val)))) ?b1" for key
          by (intro get_reaches_after [OF r2])
        then show "get_reaches q (GetMap_loop h (Suc n) acc) b"
          unfolding GetMap_loop.simps by (intro get_reaches_after [OF r1])
      qed
    qed
  qed
qed

lemma GetMap_rejected:
  "Capacity b < bb_position b + 4 \<Longrightarrow> get_rejected (GetMap h heap) b"
  by (simp add: GetMap_def GetInt_def bb_bind_def ReadBytes_underflow get_rejected_def)

lemma GetMap_bad_alloc:
  "bb_position b + 4 \<le> Capacity b \<and> \<not> heap (unat (peek_int b)) \<longrightarrow>
   GetMap h heap b = (Inl bad_alloc, seek (bb_position b + 4) b)"
  by (simp add: GetMap_def bb_bind_def bb_then_def GetInt_peek reserve_def)

lemma GetMap_loop_at_count:
  "bb_position b + 4 \<le> Capacity b \<Longrightarrow> heap (unat (peek_int b)) \<Longrightarrow>
   GetMap h heap b = GetMap_loop h (unat (peek_int b)) Map.empty (seek (bb_position b + 4) b)"
  by (simp add: GetMap_def bb_bind_def bb_then_def GetInt_peek reserve_def)

lemma GetMap_truncated:
  "bb_position b + 4 \<le> Capacity b \<and> heap (unat (peek_int b)) \<and>
   strings_end (bb_buffer b) (2 * unat (peek_int b)) (bb_position b + 4) = None \<longrightarrow>
   get_underflows (GetMap h heap) b"
proof
  assume a: "bb_position b + 4 \<le> Capacity b \<and> heap (unat (peek_int b)) \<and>
   strings_end (bb_buffer b) (2 * unat (peek_int b)) (bb_position b + 4) = None"
  let ?b1 = "seek (bb_position b + 4) b"
  from a GetMap_loop_strings_end [of ?b1 "unat (peek_int b)" h Map.empty]
  have "get_underflows (GetMap_loop h (unat (peek_int b)) Map.empty) ?b1" by simp
  moreover have "read_only b ?b1" using a by (intro read_only_seek) simp_all
  ultimately show "get_underflows (GetMap h heap) b"
    using a
    by (auto simp: get_underflows_def GetMap_loop_at_count split: prod.splits sum.splits
        intro: read_only_trans)
qed

lemma GetMap_complete:
  "bb_position b + 4 \<le> Capacity b \<and> heap (unat (peek_int b)) \<and>
   strings_end (bb_buffer b) (2 * unat (peek_int b)) (bb_position b + 4) = Some q \<longrightarrow>
   get_reaches q (GetMap h heap) b"
proof
  assume a: "bb_position b + 4 \<le> Capacity b \<and> heap (unat (peek_int b)) \<and>
   strings_end (bb_buffer b) (2 * unat (peek_int b)) (bb_position b + 4) = Some q"
  let ?b1 = "seek (bb_position b + 4) b"
  from a GetMap_loop_strings_end [of ?b1 "unat (peek_int b)" h Map.empty q]
  have "get_reaches q (GetMap_loop h (unat (peek_int b)) Map.empty) ?b1" by simp
  then show "get_reaches q (GetMap h heap) b"
    using a
    by (auto simp: get_reaches_def GetMap_loop_at_count split: prod.splits sum.splits)
qed

lemma reserve_guarded: "get_guarded GetMap_error (reserve heap n) b"
  by (simp add: get_guarded_def reserve_def GetMap_error_def)

lemma GetMap_guarded: "get_guarded GetMap_error (GetMap h heap) b"
  unfolding GetMap_def bb_then_def
proof (intro get_guarded_bind)
  fix b
  show "get_guarded GetMap_error (GetInt h) b"
    by (rule weaken_get_guarded [OF GetInt_guarded]) (simp add: GetMap_error_def)
next
  fix n b
  show "get_guarded GetMap_error (reserve heap n) b" by (rule reserve_guarded)
next
  fix n b
  show "get_guarded GetMap_error (GetMap_loop h n Map.empty) b"
    by (rule weaken_get_guarded [OF GetMap_loop_guarded]) (simp add: GetMap_error_def)
qed

lemma single_write_rejected:
  "Capacity b < bb_position b + 1 \<longrightarrow> put_rejected (PutByte vb) b"
  "Capacity b < bb_position b + 2 \<longrightarrow> put_rejected (PutShort h vs) b"
  "Capacity b < bb_position b + 4 \<longrightarrow> put_rejected (PutInt h vi) b"
  "Capacity b < bb_position b + 4 \<longrightarrow> put_rejected (PutFloat h vf) b"
  "Capacity b < bb_position b + 8 \<longrightarrow> put_rejected (PutDouble h vd) b"
  unfolding PutByte_def PutShort_def PutInt_def PutFloat_def PutDouble_def
  by (simp_all add: put_rejectedI)

lemma single_read_rejected:
  "Capacity b < bb_position b + 1 \<longrightarrow> get_rejected GetByte b"
  "Capacity b < bb_position b + 2 \<longrightarrow> get_rejected (GetShort h) b"
  "Capacity b < bb_position b + 4 \<longrightarrow> get_rejected (GetInt h) b"
  "Capacity b < bb_position b + 4 \<longrightarrow> get_rejected (GetFloat h) b"
  "Capacity b < bb_position b + 8 \<longrightarrow> get_rejected (GetDouble h) b"
  unfolding GetByte_def GetShort_def GetInt_def GetFloat_def GetDouble_def
  by (simp_all add: get_rejectedI)

lemma composite_write_rejected:
  "Capacity b < bb_position b + 4 \<longrightarrow>
     put_rejected (PutLong h vl) b \<and> put_rejected (PutString h s) b \<and>
     put_rejected (PutMap h kvs) b \<and> put_rejected (PutArray h data len) b"
proof
  assume a: "Capacity b < bb_position b + 4"
  have "put_rejected (in_pieces (be32 x # ds)) b" for x ds
    using a by (intro in_pieces_rejected) simp
  then have "put_rejected (PutLong h vl) b" "put_rejected (PutString h s) b"
    "put_rejected (PutMap h kvs) b"
    by (simp_all add: put_rejected_def PutLong_pieces PutString_pieces PutMap_pieces
        string_writes_def map_writes_def Let_def)
  moreover from a PutArray_rejected have "put_rejected (PutArray h data len) b" by blast
  ultimately show "put_rejected (PutLong h vl) b \<and> put_rejected (PutString h s) b \<and>
     put_rejected (PutMap h kvs) b \<and> put_rejected (PutArray h data len) b"
    by simp
qed

lemma composite_read_rejected:
  "Capacity b < bb_position b + 4 \<longrightarrow>
     get_rejected (GetLong h) b \<and> get_rejected (GetString h) b \<and>
     get_rejected (GetMap h heap) b \<and> get_rejected (GetArray h data_null max_len) b"
proof
  assume a: "Capacity b < bb_position b + 4"
  then have i: "get_rejected (GetInt h) b" and l: "get_rejected (GetLong h) b"
    unfolding GetInt_def GetLong_def by (simp_all add: get_rejectedI)
  from i have "get_rejected (GetString h) b" "get_rejected (GetArray h data_null max_len) b"
    unfolding GetString_def GetArray_def by (simp_all add: get_rejected_bind)
  with l GetMap_rejected [OF a]
  show "get_rejected (GetLong h) b \<and> get_rejected (GetString h) b \<and>
     get_rejected (GetMap h heap) b \<and> get_rejected (GetArray h data_null max_len) b"
    by simp
qed

lemma PutLong_overflows:
  "Capacity b < bb_position b + 8 \<longrightarrow> put_overflows (PutLong h vl) b"
  by (simp add: put_overflows_def PutLong_pieces)
     (simp add: put_overflows_def [symmetric] in_pieces_overflows)

lemma PutString_overflows:
  "Capacity b < bb_position b + length (concat (string_writes s)) \<longrightarrow>
   put_overflows (PutString h s) b"
proof
  assume a: "Capacity b < bb_position b + length (concat (string_writes s))"
  have "string_writes s \<noteq> []" by (simp add: string_writes_def Let_def)
  with a have "put_overflows (in_pieces (string_writes s)) b" by (intro in_pieces_overflows)
  then show "put_overflows (PutString h s) b"
    by (simp add: put_overflows_def PutString_pieces)
qed

lemma PutMap_overflows:
  "Capacity b < bb_position b + length (concat (map_writes kvs)) \<longrightarrow>
   put_overflows (PutMap h kvs) b"
proof
  assume a: "Capacity b < bb_position b + length (concat (map_writes kvs))"
  have "map_writes kvs \<noteq> []" by (simp add: map_writes_def)
  with a have "put_overflows (in_pieces (map_writes kvs)) b" by (intro in_pieces_overflows)
  then show "put_overflows (PutMap h kvs) b"
    by (simp add: put_overflows_def PutMap_pieces)
qed

lemma string_writes_wire_imp:
  "length s < 2 ^ 32 \<longrightarrow> concat (string_writes s) = wire_string s"
  by (simp add: string_writes_wire)

lemma map_writes_wire_imp:
  "strings_fit kvs \<longrightarrow> concat (map_writes kvs) = wire_map kvs"
  by (simp add: map_writes_wire)

lemma GetString_declared_too_long_imp:
  "bb_position b + 4 \<le> Capacity b \<and> Capacity b < bb_position b + 4 + unat (peek_int b) \<longrightarrow>
   GetString h b =
     (Inl (underflow_error ''ByteBuffer::GetString: string length exceeds buffer''),
      seek (bb_position b + 4) b)"
  by (simp add: GetString_declared_too_long)

lemma strings_end_numeral:
  "strings_end buf (numeral k) p =
     (case string_end buf p of None \<Rightarrow> None | Some q \<Rightarrow> strings_end buf (pred_numeral k) q)"
  by (simp add: numeral_eq_Suc)

text \<open>
  Claim C2, amended. The bounds check belongs to the raw write and the raw read, and every
  raw write and raw read is checked on its own.
  \<^item> \<open>PutByte\<close>, \<open>PutShort\<close>, \<open>PutInt\<close>, \<open>PutFloat\<close>, \<open>PutDouble\<close> are one raw write: without
    room they fail with an overflow error and leave buffer and cursor unchanged. So do
    \<open>PutLong\<close>, \<open>PutString\<close>, \<open>PutMap\<close>, \<open>PutArray\<close> when not even four bytes are free.
  \<^item> \<open>PutLong\<close>, \<open>PutString\<close>, \<open>PutMap\<close> write the pieces of their encoding one after the other:
    the pieces that fit are written and the cursor is after them; the call succeeds if all
    fit and fails with an overflow error at the first piece that does not. So with four
    bytes free but not the whole encoding, \<open>PutLong\<close> has written the high half, and
    \<open>PutString\<close> and \<open>PutArray\<close> the length prefix, when the overflow error leaves the call;
    \<open>PutArray\<close> with a null source and a non-zero length has written the length when it
    fails with an invalid-argument error.
  \<^item> Whenever the encoding does not fit, \<open>PutLong\<close>, \<open>PutString\<close>, \<open>PutMap\<close>, \<open>PutArray\<close> fail
    with an overflow error, the capacity and the bytes before the starting cursor unchanged
    and the cursor not past the capacity. The pieces of a string and of a map whose lengths
    fit 32 bits make up their wire encoding.
  \<^item> \<open>GetByte\<close>, \<open>GetShort\<close>, \<open>GetInt\<close>, \<open>GetFloat\<close>, \<open>GetDouble\<close> are one raw read: without
    enough bytes left they fail with an underflow error and leave the cursor unchanged; so
    do \<open>GetLong\<close>, \<open>GetString\<close>, \<open>GetMap\<close>, \<open>GetArray\<close> when fewer than four bytes are left.
  \<^item> \<open>GetLong\<close> with four to seven bytes left fails with an underflow error, the cursor
    after the four bytes read. \<open>GetString\<close> with a declared length beyond the remaining
    bytes fails with an underflow error, the cursor after the length prefix.
  \<^item> \<open>GetArray\<close>, once it has read the declared length: fails with an invalid-argument
    error for a null destination and a non-zero length; otherwise with an overflow error for
    a length above \<open>max_len\<close>; otherwise with an underflow error for a length beyond the
    remaining bytes; each time with the cursor after the length.
  \<^item> \<open>GetMap\<close>, once it has read the entry count: fails with \<^verbatim>\<open>std::bad_alloc\<close> if the
    allocator refuses a table for that many elements; otherwise fails with an underflow error
    if the region does not hold two complete strings for every entry counted; otherwise
    succeeds with the cursor after these strings.
  \<^item> \<open>GetLong\<close> and \<open>GetString\<close> succeed or fail with an underflow error, \<open>GetMap\<close> and
    \<open>GetArray\<close> succeed or fail with one of the errors above. None of them reads outside the
    region, changes a byte or leaves the cursor past the capacity.
\<close>

theorem ByteBuffer_bounds:
  "(Capacity b < bb_position b + 1 \<longrightarrow> put_rejected (PutByte vb) b) \<and>
   (Capacity b < bb_position b + 2 \<longrightarrow> put_rejected (PutShort h vs) b) \<and>
   (Capacity b < bb_position b + 4 \<longrightarrow> put_rejected (PutInt h vi) b) \<and>
   (Capacity b < bb_position b + 4 \<longrightarrow> put_rejected (PutFloat h vf) b) \<and>
   (Capacity b < bb_position b + 8 \<longrightarrow> put_rejected (PutDouble h vd) b) \<and>
   (Capacity b < bb_position b + 4 \<longrightarrow>
      put_rejected (PutLong h vl) b \<and> put_rejected (PutString h s) b \<and>
      put_rejected (PutMap h kvs) b \<and> put_rejected (PutArray h data len) b) \<and>
   PutLong h vl b =
     in_pieces [be32 (ucast (signed_drop_bit 32 vl)), be32 (ucast (vl AND 0xFFFFFFFF))] b \<and>
   PutString h s b = in_pieces (string_writes s) b \<and>
   PutMap h kvs b = in_pieces (map_writes kvs) b \<and>
   (bb_position b + 4 \<le> Capacity b \<and> Capacity b < bb_position b + 8 \<longrightarrow>
      PutLong h vl b =
        (Inl (overflow_error ''ByteBuffer: write would exceed buffer bounds''),
         poke (be32 (ucast (signed_drop_bit 32 vl))) b)) \<and>
   (bb_position b + 4 \<le> Capacity b \<and>
    Capacity b < bb_position b + 4 + unat (of_nat (length s) :: 32 word) \<longrightarrow>
      PutString h s b =
        (Inl (overflow_error ''ByteBuffer: write would exceed buffer bounds''),
         poke (be32 (of_nat (length s))) b)) \<and>
   (bb_position b + 4 \<le> Capacity b \<and> Capacity b < bb_position b + 4 + unat len \<longrightarrow>
      PutArray h (Some d) len b =
        (Inl (overflow_error ''ByteBuffer: write would exceed buffer bounds''),
         poke (be32 len) b)) \<and>
   (bb_position b + 4 \<le> Capacity b \<and> 0 < len \<longrightarrow>
      PutArray h None len b =
        (Inl (invalid_argument ''ByteBuffer::PutArray: data cannot be null''),
         poke (be32 len) b)) \<and>
   (Capacity b < bb_position b + 8 \<longrightarrow> put_overflows (PutLong h vl) b) \<and>
   (Capacity b < bb_position b + length (concat (string_writes s)) \<longrightarrow>
      put_overflows (PutString h s) b) \<and>
   (Capacity b < bb_position b + length (concat (map_writes kvs)) \<longrightarrow>
      put_overflows (PutMap h kvs) b) \<and>
   (Capacity b < bb_position b + 4 + unat len \<longrightarrow>
      put_overflows (PutArray h (Some d) len) b) \<and>
   (length s < 2 ^ 32 \<longrightarrow> concat (string_writes s) = wire_string s) \<and>
   (strings_fit kvs \<longrightarrow> concat (map_writes kvs) = wire_map kvs) \<and>
   (Capacity b < bb_position b + 1 \<longrightarrow> get_rejected GetByte b) \<and>
   (Capacity b < bb_position b + 2 \<longrightarrow> get_rejected (GetShort h) b) \<and>
   (Capacity b < bb_position b + 4 \<longrightarrow> get_rejected (GetInt h) b) \<and>
   (Capacity b < bb_position b + 4 \<longrightarrow> get_rejected (GetFloat h) b) \<and>
   (Capacity b < bb_position b + 8 \<longrightarrow> get_rejected (GetDouble h) b) \<and>
   (Capacity b < bb_position b + 4 \<longrightarrow>
      get_rejected (GetLong h) b \<and> get_rejected (GetString h) b \<and>
      get_rejected (GetMap h heap) b \<and> get_rejected (GetArray h data_null max_len) b) \<and>
   (bb_position b + 4 \<le> Capacity b \<and> Capacity b < bb_position b + 8 \<longrightarrow>
      GetLong h b =
        (Inl (underflow_error ''ByteBuffer: read would exceed buffer bounds''),
         seek (bb_position b + 4) b)) \<and>
   (bb_position b + 4 \<le> Capacity b \<and> Capacity b < bb_position b + 4 + unat (peek_int b) \<longrightarrow>
      GetString h b =
        (Inl (underflow_error ''ByteBuffer::GetString: string length exceeds buffer''),
         seek (bb_position b + 4) b)) \<and>
   (bb_position b + 4 \<le> Capacity b \<and> data_null \<and> 0 < peek_int b \<longrightarrow>
      GetArray h data_null max_len b =
        (Inl (invalid_argument ''ByteBuffer::GetArray: data cannot be null''),
         seek (bb_position b + 4) b)) \<and>
   (bb_position b + 4 \<le> Capacity b \<and> \<not> data_null \<and> max_len < peek_int b \<longrightarrow>
      GetArray h data_null max_len b =
        (Inl (overflow_error ''ByteBuffer::GetArray: array size exceeds destination buffer''),
         seek (bb_position b + 4) b)) \<and>
   (bb_position b + 4 \<le> Capacity b \<and> \<not> data_null \<and> peek_int b \<le> max_len \<and>
    Capacity b < bb_position b + 4 + unat (peek_int b) \<longrightarrow>
      GetArray h data_null max_len b =
        (Inl (underflow_error ''ByteBuffer: read would exceed buffer bounds''),
         seek (bb_position b + 4) b)) \<and>
   (bb_position b + 4 \<le> Capacity b \<and> \<not> heap (unat (peek_int b)) \<longrightarrow>
      GetMap h heap b = (Inl bad_alloc, seek (bb_position b + 4) b)) \<and>
   (bb_position b + 4 \<le> Capacity b \<and> heap (unat (peek_int b)) \<and>
    strings_end (bb_buffer b) (2 * unat (peek_int b)) (bb_position b + 4) = None \<longrightarrow>
      get_underflows (GetMap h heap) b) \<and>
   (bb_position b + 4 \<le> Capacity b \<and> heap (unat (peek_int b)) \<and>
    strings_end (bb_buffer b) (2 * unat (peek_int b)) (bb_position b + 4) = Some q \<longrightarrow>
      get_reaches q (GetMap h heap) b) \<and>
   get_guarded is_underflow (GetLong h) b \<and>
   get_guarded is_underflow (GetString h) b \<and>
   get_guarded GetMap_error (GetMap h heap) b \<and>
   get_guarded GetArray_error (GetArray h data_null max_len) b"
  by (intro conjI single_write_rejected single_read_rejected composite_write_rejected
      composite_read_rejected PutLong_pieces PutString_pieces PutMap_pieces
      PutLong_high_half_written PutString_prefix_written PutArray_prefix_written PutArray_null
      PutLong_overflows PutString_overflows PutMap_overflows PutArray_overflows
      string_writes_wire_imp map_writes_wire_imp GetLong_low_half_missing
      GetString_declared_too_long_imp GetArray_null GetArray_too_long GetArray_truncated
      GetMap_bad_alloc GetMap_truncated GetMap_complete GetLong_guarded GetString_guarded
      GetMap_guarded GetArray_guarded)

theorem ByteBuffer_bounds_witness:
  "put_rejected (PutByte 1) \<lparr>bb_buffer = [7, 7], bb_position = 2\<rparr> \<and>
   put_rejected (PutShort LittleEndian 1) \<lparr>bb_buffer = [7, 7], bb_position = 2\<rparr> \<and>
   put_rejected (PutInt LittleEndian 1) \<lparr>bb_buffer = [7, 7], bb_position = 2\<rparr> \<and>
   put_rejected (PutFloat LittleEndian 1) \<lparr>bb_buffer = [7, 7], bb_position = 2\<rparr> \<and>
   put_rejected (PutDouble LittleEndian 1) \<lparr>bb_buffer = [7, 7], bb_position = 2\<rparr> \<and>
   put_rejected (PutLong LittleEndian 1) \<lparr>bb_buffer = [7, 7], bb_position = 2\<rparr> \<and>
   put_rejected (PutString LittleEndian ''hello'') \<lparr>bb_buffer = [7, 7], bb_position = 2\<rparr> \<and>
   put_rejected (PutMap LittleEndian [(''k'', ''v'')]) \<lparr>bb_buffer = [7, 7], bb_position = 2\<rparr> \<and>
   put_rejected (PutArray LittleEndian (Some [1, 2, 3]) 3)
     \<lparr>bb_buffer = [7, 7], bb_position = 2\<rparr> \<and>
   get_rejected GetByte \<lparr>bb_buffer = [7, 7], bb_position = 2\<rparr> \<and>
   get_rejected (GetShort LittleEndian) \<lparr>bb_buffer = [7, 7], bb_position = 2\<rparr> \<and>
   get_rejected (GetInt LittleEndian) \<lparr>bb_buffer = [7, 7], bb_position = 2\<rparr> \<and>
   get_rejected (GetFloat LittleEndian) \<lparr>bb_buffer = [7, 7], bb_position = 2\<rparr> \<and>
   get_rejected (GetDouble LittleEndian) \<lparr>bb_buffer = [7, 7], bb_position = 2\<rparr> \<and>
   get_rejected (GetLong LittleEndian) \<lparr>bb_buffer = [7, 7], bb_position = 2\<rparr> \<and>
   get_rejected (GetString LittleEndian) \<lparr>bb_buffer = [7, 7], bb_position = 2\<rparr> \<and>
   get_rejected (GetMap LittleEndian (heap_limit 1024))
     \<lparr>bb_buffer = [7, 7], bb_position = 2\<rparr> \<and>
   get_rejected (GetArray LittleEndian False 16) \<lparr>bb_buffer = [7, 7], bb_position = 2\<rparr> \<and>
   PutLong LittleEndian 0x0102030405060708 \<lparr>bb_buffer = [0, 0, 0, 9, 0, 0], bb_position = 0\<rparr> =
     (Inl (overflow_error ''ByteBuffer: write would exceed buffer bounds''),
      \<lparr>bb_buffer = [1, 2, 3, 4, 0, 0], bb_position = 4\<rparr>) \<and>
   PutString LittleEndian ''hello'' \<lparr>bb_buffer = [0, 0, 0, 9, 0, 0], bb_position = 0\<rparr> =
     (Inl (overflow_error ''ByteBuffer: write would exceed buffer bounds''),
      \<lparr>bb_buffer = [0, 0, 0, 5, 0, 0], bb_position = 4\<rparr>) \<and>
   PutMap LittleEndian [(''k'', ''v'')] \<lparr>bb_buffer = [0, 0, 0, 9, 0, 0], bb_position = 0\<rparr> =
     (Inl (overflow_error ''ByteBuffer: write would exceed buffer bounds''),
      \<lparr>bb_buffer = [0, 0, 0, 1, 0, 0], bb_position = 4\<rparr>) \<and>
   PutArray LittleEndian (Some [1, 2, 3]) 3 \<lparr>bb_buffer = [0, 0, 0, 9, 0, 0], bb_position = 0\<rparr> =
     (Inl (overflow_error ''ByteBuffer: write would exceed buffer bounds''),
      \<lparr>bb_buffer = [0, 0, 0, 3, 0, 0], bb_position = 4\<rparr>) \<and>
   PutArray LittleEndian None 3 \<lparr>bb_buffer = [0, 0, 0, 9, 0, 0], bb_position = 0\<rparr> =
     (Inl (invalid_argument ''ByteBuffer::PutArray: data cannot be null''),
      \<lparr>bb_buffer = [0, 0, 0, 3, 0, 0], bb_position = 4\<rparr>) \<and>
   put_overflows (PutLong LittleEndian 0x0102030405060708)
     \<lparr>bb_buffer = [0, 0, 0, 9, 0, 0], bb_position = 0\<rparr> \<and>
   put_overflows (PutString LittleEndian ''hello'')
     \<lparr>bb_buffer = [0, 0, 0, 9, 0, 0], bb_position = 0\<rparr> \<and>
   put_overflows (PutMap LittleEndian [(''k'', ''v'')])
     \<lparr>bb_buffer = [0, 0, 0, 9, 0, 0], bb_position = 0\<rparr> \<and>
   put_overflows (PutArray LittleEndian (Some [1, 2, 3]) 3)
     \<lparr>bb_buffer = [0, 0, 0, 9, 0, 0], bb_position = 0\<rparr> \<and>
   concat (string_writes ''hello'') = wire_string ''hello'' \<and>
   concat (map_writes [(''k'', ''v'')]) = wire_map [(''k'', ''v'')] \<and>
   GetLong LittleEndian \<lparr>bb_buffer = [0, 0, 0, 9, 0, 0], bb_position = 0\<rparr> =
     (Inl (underflow_error ''ByteBuffer: read would exceed buffer bounds''),
      \<lparr>bb_buffer = [0, 0, 0, 9, 0, 0], bb_position = 4\<rparr>) \<and>
   GetString LittleEndian \<lparr>bb_buffer = [0, 0, 0, 9, 0, 0], bb_position = 0\<rparr> =
     (Inl (underflow_error ''ByteBuffer::GetString: string length exceeds buffer''),
      \<lparr>bb_buffer = [0, 0, 0, 9, 0, 0], bb_position = 4\<rparr>) \<and>
   GetArray LittleEndian False 16 \<lparr>bb_buffer = [0, 0, 0, 9, 0, 0], bb_position = 0\<rparr> =
     (Inl (underflow_error ''ByteBuffer: read would exceed buffer bounds''),
      \<lparr>bb_buffer = [0, 0, 0, 9, 0, 0], bb_position = 4\<rparr>) \<and>
   GetArray LittleEndian False 8 \<lparr>bb_buffer = [0, 0, 0, 9, 0, 0], bb_position = 0\<rparr> =
     (Inl (overflow_error ''ByteBuffer::GetArray: array size exceeds destination buffer''),
      \<lparr>bb_buffer = [0, 0, 0, 9, 0, 0], bb_position = 4\<rparr>) \<and>
   GetArray LittleEndian True 16 \<lparr>bb_buffer = [0, 0, 0, 9, 0, 0], bb_position = 0\<rparr> =
     (Inl (invalid_argument ''ByteBuffer::GetArray: data cannot be null''),
      \<lparr>bb_buffer = [0, 0, 0, 9, 0, 0], bb_position = 4\<rparr>) \<and>
   GetMap LittleEndian (heap_limit 1000000) \<lparr>bb_buffer = [0x80, 0, 0, 0], bb_position = 0\<rparr> =
     (Inl bad_alloc, \<lparr>bb_buffer = [0x80, 0, 0, 0], bb_position = 4\<rparr>) \<and>
   get_underflows (GetMap LittleEndian (heap_limit 1024))
     \<lparr>bb_buffer = [0, 0, 0, 9, 0, 0], bb_position = 0\<rparr> \<and>
   get_reaches 13 (GetMap LittleEndian (heap_limit 1024))
     \<lparr>bb_buffer = [0, 0, 0, 1, 0, 0, 0, 1, 107, 0, 0, 0, 0], bb_position = 0\<rparr>"
  using
    ByteBuffer_bounds [where b = "\<lparr>bb_buffer = [7, 7], bb_position = 2\<rparr>" and h = LittleEndian
      and vb = 1 and vs = 1 and vi = 1 and vf = 1 and vd = 1 and vl = 1 and s = "''hello''"
      and kvs = "[(''k'', ''v'')]" and data = "Some [1, 2, 3]" and len = 3 and d = "[1, 2, 3]"
      and data_null = False and max_len = 16 and heap = "heap_limit 1024" and q = 0]
    ByteBuffer_bounds [where b = "\<lparr>bb_buffer = [0, 0, 0, 9, 0, 0], bb_position = 0\<rparr>"
      and h = LittleEndian
      and vb = 1 and vs = 1 and vi = 1 and vf = 1 and vd = 1 and vl = "0x0102030405060708"
      and s = "''hello''"
      and kvs = "[(''k'', ''v'')]" and data = "Some [1, 2, 3]" and len = 3 and d = "[1, 2, 3]"
      and data_null = False and max_len = 16 and heap = "heap_limit 1024" and q = 0]
    ByteBuffer_bounds [where b = "\<lparr>bb_buffer = [0, 0, 0, 9, 0, 0], bb_position = 0\<rparr>"
      and h = LittleEndian
      and vb = 1 and vs = 1 and vi = 1 and vf = 1 and vd = 1 and vl = 1 and s = "''hello''"
      and kvs = "[(''k'', ''v'')]" and data = "Some [1, 2, 3]" and len = 3 and d = "[1, 2, 3]"
      and data_null = False and max_len = 8 and heap = "heap_limit 1024" and q = 0]
    ByteBuffer_bounds [where b = "\<lparr>bb_buffer = [0, 0, 0, 9, 0, 0], bb_position = 0\<rparr>"
      and h = LittleEndian
      and vb = 1 and vs = 1 and vi = 1 and vf = 1 and vd = 1 and vl = 1 and s = "''hello''"
      and kvs = "[(''k'', ''v'')]" and data = "Some [1, 2, 3]" and len = 3 and d = "[1, 2, 3]"
      and data_null = True and max_len = 16 and heap = "heap_limit 1024" and q = 0]
    ByteBuffer_bounds [where b = "\<lparr>bb_buffer = [0x80, 0, 0, 0], bb_position = 0\<rparr>"
      and h = LittleEndian
      and vb = 1 and vs = 1 and vi = 1 and vf = 1 and vd = 1 and vl = 1 and s = "''hello''"
      and kvs = "[(''k'', ''v'')]" and data = "Some [1, 2, 3]" and len = 3 and d = "[1, 2, 3]"
      and data_null = False and max_len = 16 and heap = "heap_limit 1000000" and q = 0]
    ByteBuffer_bounds [where
      b = "\<lparr>bb_buffer = [0, 0, 0, 1, 0, 0, 0, 1, 107, 0, 0, 0, 0], bb_position = 0\<rparr>"
      and h = LittleEndian
      and vb = 1 and vs = 1 and vi = 1 and vf = 1 and vd = 1 and vl = 1 and s = "''hello''"
      and kvs = "[(''k'', ''v'')]" and data = "Some [1, 2, 3]" and len = 3 and d = "[1, 2, 3]"
      and data_null = False and max_len = 16 and heap = "heap_limit 1024" and q = 13]
  by (simp add: Capacity_def strings_fit_def peek_int_def peek_def seek_def poke_def be32_def
      string_writes_def map_writes_def in_pieces_def Let_def string_end_def
      strings_end_numeral wire_map_def wire_entries_def wire_string_def string_bytes_def
      heap_limit_def)

text \<open>
  Claim C2 says that a \<open>Put\<close> operation that does not fit writes nothing. \<open>PutLong\<close> is two
  raw writes of four bytes, each with its own check: on a four-byte region the first one
  succeeds and the second one throws, so the high half is in the buffer and the cursor is at
  4 when the overflow error leaves the call.
\<close>

theorem PutLong_partial_write:
  "Capacity \<lparr>bb_buffer = [0, 0, 0, 0], bb_position = 0\<rparr>
     < bb_position \<lparr>bb_buffer = [0, 0, 0, 0], bb_position = 0\<rparr> + 8 \<and>
   PutLong LittleEndian 0x0102030405060708 \<lparr>bb_buffer = [0, 0, 0, 0], bb_position = 0\<rparr> =
     (Inl (overflow_error ''ByteBuffer: write would exceed buffer bounds''),
      \<lparr>bb_buffer = [1, 2, 3, 4], bb_position = 4\<rparr>) \<and>
   \<not> put_rejected (PutLong LittleEndian 0x0102030405060708)
       \<lparr>bb_buffer = [0, 0, 0, 0], bb_position = 0\<rparr>"
  by (simp add: PutLong_def Let_def bb_then_def bb_bind_def WriteBytes_def CheckBoundary_def
      Capacity_def memcpy_to_def put_rejected_def be32_def)

subsection \<open>The registry\<close>

text \<open>
  Claim C5. \<open>RegisterService\<close> returns false and leaves the registry unchanged for a null
  handler; it returns false and leaves the registry unchanged (the handler registered first
  stays) when the handler's request routine id is already registered; otherwise it returns
  true and the registry maps that routine id to the handler. These are all its outcomes:
  the code has no throw and the model no exceptional result.
\<close>

theorem RegisterService_cases:
  "RegisterService sm None = (False, sm, []) \<and>
   (services sm (GetRequestRoutineId svc) = Some old \<longrightarrow>
      RegisterService sm (Some svc) = (False, sm, [Lock, Find (GetRequestRoutineId svc), Unlock])) \<and>
   (services sm (GetRequestRoutineId svc) = None \<longrightarrow>
      RegisterService sm (Some svc) =
        (True, sm\<lparr>services := (services sm)(GetRequestRoutineId svc \<mapsto> svc)\<rparr>,
         [Lock, Find (GetRequestRoutineId svc), Insert (GetRequestRoutineId svc), Unlock]))"
  by (simp add: RegisterService_def Let_def)

theorem RegisterService_cases_witness:
  "RegisterService \<lparr>services = Map.empty\<rparr> (Some (MockService LittleEndian 0x1000 0x1001 ''MockService''))
     = (True, \<lparr>services = [0x1000 \<mapsto> MockService LittleEndian 0x1000 0x1001 ''MockService'']\<rparr>,
        [Lock, Find 0x1000, Insert 0x1000, Unlock]) \<and>
   RegisterService \<lparr>services = [0x1000 \<mapsto> MockService LittleEndian 0x1000 0x1001 ''MockService'']\<rparr>
       (Some (MockService LittleEndian 0x1000 0x1002 ''MockService''))
     = (False, \<lparr>services = [0x1000 \<mapsto> MockService LittleEndian 0x1000 0x1001 ''MockService'']\<rparr>,
        [Lock, Find 0x1000, Unlock])"
  using RegisterService_cases [of "\<lparr>services = Map.empty\<rparr>"
      "MockService LittleEndian 0x1000 0x1001 ''MockService''"]
    RegisterService_cases [of
      "\<lparr>services = [0x1000 \<mapsto> MockService LittleEndian 0x1000 0x1001 ''MockService'']\<rparr>"
      "MockService LittleEndian 0x1000 0x1002 ''MockService''"
      "MockService LittleEndian 0x1000 0x1001 ''MockService''"]
  by (simp add: MockService_def)

text \<open>
  Claim C4. \<open>ExecuteService\<close> returns 0 when no handler is registered for the routine id, and
  returns 0 when the handler found throws a standard exception, so the return value does not
  tell the two apart. In every case the lookup happens between taking and releasing the
  registry mutex and the handler's \<open>Execute\<close> is called after the release.
\<close>

theorem ExecuteService_zero:
  "(services sm routine_id = None \<longrightarrow>
      ExecuteService sm routine_id inp out = (Inr 0, out, [Lock, Find routine_id, Unlock])) \<and>
   (services sm routine_id = Some svc \<and> Execute svc inp out = (Inl e, out') \<and>
    is_std_exception e \<longrightarrow>
      ExecuteService sm routine_id inp out =
        (Inr 0, out', [Lock, Find routine_id, Unlock, Invoke routine_id inp])) \<and>
   lock_discipline False (snd (snd (ExecuteService sm routine_id inp out)))"
  by (auto simp: ExecuteService_def split: option.splits prod.splits sum.splits)

theorem ExecuteService_zero_witness:
  "ExecuteService \<lparr>services = [0x1000 \<mapsto> \<lparr>GetRequestRoutineId = 0x1000, GetResponseRoutineId = 0x1001,
        GetName = ''Thrower'', Execute = (\<lambda>inp out. (Inl (overflow_error ''boom''), out))\<rparr>]\<rparr>
      0x9999 [1, 2] [0, 0] = (Inr 0, [0, 0], [Lock, Find 0x9999, Unlock]) \<and>
   ExecuteService \<lparr>services = [0x1000 \<mapsto> \<lparr>GetRequestRoutineId = 0x1000, GetResponseRoutineId = 0x1001,
        GetName = ''Thrower'', Execute = (\<lambda>inp out. (Inl (overflow_error ''boom''), out))\<rparr>]\<rparr>
      0x1000 [1, 2] [0, 0] = (Inr 0, [0, 0], [Lock, Find 0x1000, Unlock, Invoke 0x1000 [1, 2]])"
  using ExecuteService_zero [where sm = "\<lparr>services = [0x1000 \<mapsto> \<lparr>GetRequestRoutineId = 0x1000,
        GetResponseRoutineId = 0x1001, GetName = ''Thrower'',
        Execute = (\<lambda>inp out. (Inl (overflow_error ''boom''), out))\<rparr>]\<rparr>"
      and routine_id = "0x9999" and inp = "[1, 2]" and out = "[0, 0]"]
    ExecuteService_zero [where sm = "\<lparr>services = [0x1000 \<mapsto> \<lparr>GetRequestRoutineId = 0x1000,
        GetResponseRoutineId = 0x1001, GetName = ''Thrower'',
        Execute = (\<lambda>inp out. (Inl (overflow_error ''boom''), out))\<rparr>]\<rparr>"
      and routine_id = "0x1000" and inp = "[1, 2]" and out = "[0, 0]"
      and svc = "\<lparr>GetRequestRoutineId = 0x1000, GetResponseRoutineId = 0x1001,
        GetName = ''Thrower'', Execute = (\<lambda>inp out. (Inl (overflow_error ''boom''), out))\<rparr>"
      and e = "overflow_error ''boom''" and out' = "[0, 0]"]
  by simp

lemma take1_drop: "p < length xs \<Longrightarrow> take (Suc 0) (drop p xs) = [xs ! p]"
  by (metis Cons_nth_drop_Suc take0 take_Suc_Cons)

lemma GetByte_nth:
  "bb_position b < Capacity b \<Longrightarrow>
   GetByte b = (Inr (bb_buffer b ! bb_position b), seek (bb_position b + 1) b)"
  by (simp add: GetByte_def bb_bind_def ReadBytes_fits bb_return_def peek_def Capacity_def
      take1_drop)

lemma ProcessClientRequest_parsed:
  assumes "GetMinFrameSize \<le> length data"
  shows "ProcessClientRequest h sm send response client_fd data =
     catch_std
       (if data ! 0 \<noteq> START_BYTE then (Inr 0, [])
        else if data ! 9 \<noteq> VERSION then (Inr 0, [])
        else (case ExecuteService sm (de32 (take 4 (drop 5 data)))
                     (take (length data - 10 - 1) (drop 10 data)) response of
                (Inl e, response', tr) \<Rightarrow> (Inl e, tr)
              | (Inr response_len, response', tr) \<Rightarrow>
                  if response_len > 0
                  then (case memcpy_from response' 0 response_len of
                          Inl e \<Rightarrow> (Inl e, tr)
                        | Inr out \<Rightarrow>
                            (if send client_fd out < 0 then Inr 0 else Inr response_len,
                             tr @ [Send client_fd out]))
                  else (Inr 0, tr)))"
proof -
  let ?b0 = "\<lparr>bb_buffer = data, bb_position = 0\<rparr>"
  from assms have len: "11 \<le> length data" by (simp add: GetMinFrameSize_def)
  then have ctor: "ByteBuffer_ctor (Some data) = Inr ?b0"
    by (auto simp: ByteBuffer_ctor_def)
  have "bb_position ?b0 < Capacity ?b0"
    using len by (cases data) (simp_all add: Capacity_def)
  from GetByte_nth [OF this] have 1: "GetByte ?b0 = (Inr (data ! 0), seek 1 ?b0)"
    by simp
  have 2: "GetInt h (seek 1 ?b0) = (Inr (peek_int (seek 1 ?b0)), seek 5 ?b0)"
    using len GetInt_peek [of "seek 1 ?b0" h] by (simp add: Capacity_def)
  have 3: "GetInt h (seek 5 ?b0) = (Inr (de32 (take 4 (drop 5 data))), seek 9 ?b0)"
    using len GetInt_peek [of "seek 5 ?b0" h] by (simp add: Capacity_def peek_int_def peek_def)
  have "bb_position (seek 9 ?b0) < Capacity (seek 9 ?b0)"
    using len by (simp add: Capacity_def)
  from GetByte_nth [OF this] have 4: "GetByte (seek 9 ?b0) = (Inr (data ! 9), seek 10 ?b0)"
    by simp
  have 5: "Position (seek 10 ?b0) = 10"
    by (simp add: Position_def)
  from len have nlt: "(length data < GetMinFrameSize) = False"
    by (simp add: GetMinFrameSize_def)
  show ?thesis
    unfolding ProcessClientRequest_def Let_def
    by (simp only: nlt if_False ctor sum.case prod.case 1 2 3 4 5)
qed

lemma bb_then_fits:
  "m b = (Inr (), poke d b) \<Longrightarrow> bb_then m k b = k (poke d b)"
  by (simp add: bb_then_def bb_bind_def)

lemma MockService_Execute_frame:
  assumes "12 \<le> length out"
  shows "MockService_Execute h resp_id inp out =
     (Inr 12, [START_BYTE] @ be32 12 @ be32 resp_id @ [VERSION, 0x42, END_BYTE] @ drop 12 out)"
proof -
  let ?b0 = "\<lparr>bb_buffer = out, bb_position = 0\<rparr>"
  from assms have ctor: "ByteBuffer_ctor (Some out) = Inr ?b0"
    by (auto simp: ByteBuffer_ctor_def)
  have cap: "Capacity ?b0 = length out" by (simp add: Capacity_def)
  show ?thesis
    using assms
    by (simp add: MockService_Execute_def over_region_def ctor bb_then_def bb_bind_def
        PutByte_fits PutInt_fits cap bb_Position_def Position_def SetPosition_def
        bb_return_def poke_def Capacity_def)
qed

lemma ProcessClientRequest_short:
  "length data < GetMinFrameSize \<Longrightarrow>
   ProcessClientRequest h sm send response client_fd data = (Inr 0, [])"
  by (simp add: ProcessClientRequest_def)

lemma payload_span:
  "take (length data - 11) (drop 10 data) = butlast (drop 10 data)"
  by (simp add: butlast_conv_take)

subsection \<open>Frame parsing in the server\<close>

text \<open>
  Claim C6. A byte sequence shorter than 11 bytes, or whose first byte is not START (0x7E),
  or whose byte at offset 9 is not VERSION (0x01), makes \<open>ProcessClientRequest\<close> return 0 with
  no dispatch and no response sent, and \<open>HandleClientData\<close> keeps the connection. Otherwise
  the registry is asked to execute the routine whose id is the big-endian integer at offsets
  5 to 8, on the payload that starts after the VERSION byte and leaves out the last byte of
  the input: its length is the input length minus the 10 header bytes minus 1. (The code
  reads the routine id before it compares the version; nothing is dispatched before both
  comparisons.)
\<close>

theorem ProcessClientRequest_validation:
  "(length data < 11 \<or> data ! 0 \<noteq> 0x7E \<or> data ! 9 \<noteq> 0x01 \<longrightarrow>
      ProcessClientRequest h sm send response client_fd data = (Inr 0, []) \<and>
      (srv_clients srv client_fd \<noteq> None \<longrightarrow>
         fst (HandleClientData h send response now (RecvData data) srv client_fd) = Inr True)) \<and>
   (11 \<le> length data \<and> data ! 0 = 0x7E \<and> data ! 9 = 0x01 \<longrightarrow>
      length (butlast (drop 10 data)) = length data - 10 - 1 \<and>
      ProcessClientRequest h sm send response client_fd data =
        catch_std
          (case ExecuteService sm (de32 (take 4 (drop 5 data))) (butlast (drop 10 data))
                  response of
             (Inl e, response', tr) \<Rightarrow> (Inl e, tr)
           | (Inr response_len, response', tr) \<Rightarrow>
               if response_len > 0
               then (case memcpy_from response' 0 response_len of
                       Inl e \<Rightarrow> (Inl e, tr)
                     | Inr out \<Rightarrow>
                         (if send client_fd out < 0 then Inr 0 else Inr response_len,
                          tr @ [Send client_fd out]))
               else (Inr 0, tr)))"
proof (intro conjI impI)
  assume bad: "length data < 11 \<or> data ! 0 \<noteq> 0x7E \<or> data ! 9 \<noteq> 0x01"
  show "\<And>sm. ProcessClientRequest h sm send response client_fd data = (Inr 0, [])"
  proof -
    fix sm
    show "ProcessClientRequest h sm send response client_fd data = (Inr 0, [])"
    proof (cases "length data < 11")
      case True
      then show ?thesis by (simp add: ProcessClientRequest_short GetMinFrameSize_def)
    next
      case False
      then have "GetMinFrameSize \<le> length data" by (simp add: GetMinFrameSize_def)
      from ProcessClientRequest_parsed [OF this] bad False show ?thesis
        by (auto simp: START_BYTE_def VERSION_def catch_std_def)
    qed
  qed
  then have *: "ProcessClientRequest h (srv_service_manager srv1) send response client_fd data = (Inr 0, [])"
    for srv1 :: UDSServer by simp
  assume "srv_clients srv client_fd \<noteq> None"
  then show "fst (HandleClientData h send response now (RecvData data) srv client_fd) = Inr True"
    by (auto simp: HandleClientData_def Let_def *)
next
  assume ok: "11 \<le> length data \<and> data ! 0 = 0x7E \<and> data ! 9 = 0x01"
  then show "length (butlast (drop 10 data)) = length data - 10 - 1" by simp
  from ok have "GetMinFrameSize \<le> length data" by (simp add: GetMinFrameSize_def)
  from ProcessClientRequest_parsed [OF this] ok
  show "ProcessClientRequest h sm send response client_fd data =
        catch_std
          (case ExecuteService sm (de32 (take 4 (drop 5 data))) (butlast (drop 10 data))
                  response of
             (Inl e, response', tr) \<Rightarrow> (Inl e, tr)
           | (Inr response_len, response', tr) \<Rightarrow>
               if response_len > 0
               then (case memcpy_from response' 0 response_len of
                       Inl e \<Rightarrow> (Inl e, tr)
                     | Inr out \<Rightarrow>
                         (if send client_fd out < 0 then Inr 0 else Inr response_len,
                          tr @ [Send client_fd out]))
               else (Inr 0, tr))"
    by (simp add: START_BYTE_def VERSION_def payload_span)
qed

lemma ExecuteService_mock:
  "12 \<le> length response \<Longrightarrow>
   ExecuteService \<lparr>services = [0x1000 \<mapsto> MockService LittleEndian 0x1000 0x1001 ''MockService'']\<rparr> 0x1000 inp response =
     (Inr 12, [START_BYTE] @ be32 12 @ be32 0x1001 @ [VERSION, 0x42, END_BYTE] @ drop 12 response,
      [Lock, Find 0x1000, Unlock, Invoke 0x1000 inp])"
  by (simp add: ExecuteService_def MockService_def MockService_Execute_frame)

theorem ProcessClientRequest_validation_witness:
  "ProcessClientRequest LittleEndian \<lparr>services = [0x1000 \<mapsto> MockService LittleEndian 0x1000 0x1001 ''MockService'']\<rparr>
      (\<lambda>fd bytes. int (length bytes)) (replicate 8192 0) 7
      [0x7E, 0, 0, 0, 0x0C, 0, 0, 0x10, 0, 0x02, 0xAA, 0x7F] = (Inr 0, []) \<and>
   fst (HandleClientData LittleEndian (\<lambda>fd bytes. int (length bytes)) (replicate 8192 0) 99
      (RecvData [0x7E, 0, 0, 0, 0x0C, 0, 0, 0x10, 0, 0x02, 0xAA, 0x7F])
      \<lparr>srv_socket_path = ''/tmp/ipc_demo.sock'',
        srv_service_manager = \<lparr>services = [0x1000 \<mapsto> MockService LittleEndian 0x1000 0x1001 ''MockService'']\<rparr>,
        srv_running = True, srv_server_thread = Running, srv_server_fd = 3, srv_epoll_fd = 4,
        srv_timer_fd = 5,
        srv_clients = [7 \<mapsto> \<lparr>ci_fd = 7, ci_last_activity = 0, ci_recv_buffer = []\<rparr>]\<rparr> 7) = Inr True \<and>
   ProcessClientRequest LittleEndian \<lparr>services = [0x1000 \<mapsto> MockService LittleEndian 0x1000 0x1001 ''MockService'']\<rparr>
      (\<lambda>fd bytes. int (length bytes)) (replicate 8192 0) 7
      [0x7E, 0, 0, 0, 0x0C, 0, 0, 0x10, 0, 0x01, 0xAA, 0x7F] =
     (Inr 12, [Lock, Find 0x1000, Unlock, Invoke 0x1000 [0xAA],
               Send 7 [0x7E, 0, 0, 0, 0x0C, 0, 0, 0x10, 0x01, 0x01, 0x42, 0x7F]])"
  using ProcessClientRequest_validation [where data = "[0x7E, 0, 0, 0, 0x0C, 0, 0, 0x10, 0, 0x02, 0xAA, 0x7F]"
      and h = LittleEndian and sm = "\<lparr>services = [0x1000 \<mapsto> MockService LittleEndian 0x1000 0x1001 ''MockService'']\<rparr>"
      and send = "\<lambda>fd bytes. int (length bytes)" and response = "replicate 8192 0"
      and client_fd = 7 and now = 99 and srv = "\<lparr>srv_socket_path = ''/tmp/ipc_demo.sock'',
        srv_service_manager = \<lparr>services = [0x1000 \<mapsto> MockService LittleEndian 0x1000 0x1001 ''MockService'']\<rparr>,
        srv_running = True, srv_server_thread = Running, srv_server_fd = 3, srv_epoll_fd = 4,
        srv_timer_fd = 5,
        srv_clients = [7 \<mapsto> \<lparr>ci_fd = 7, ci_last_activity = 0, ci_recv_buffer = []\<rparr>]\<rparr>"]
    ProcessClientRequest_validation [where data = "[0x7E, 0, 0, 0, 0x0C, 0, 0, 0x10, 0, 0x01, 0xAA, 0x7F]"
      and h = LittleEndian and sm = "\<lparr>services = [0x1000 \<mapsto> MockService LittleEndian 0x1000 0x1001 ''MockService'']\<rparr>"
      and send = "\<lambda>fd bytes. int (length bytes)" and response = "replicate 8192 0"
      and client_fd = 7 and now = 99 and srv = "\<lparr>srv_socket_path = ''/tmp/ipc_demo.sock'',
        srv_service_manager = \<lparr>services = [0x1000 \<mapsto> MockService LittleEndian 0x1000 0x1001 ''MockService'']\<rparr>,
        srv_running = True, srv_server_thread = Running, srv_server_fd = 3, srv_epoll_fd = 4,
        srv_timer_fd = 5,
        srv_clients = [7 \<mapsto> \<lparr>ci_fd = 7, ci_last_activity = 0, ci_recv_buffer = []\<rparr>]\<rparr>"]
  by (simp add: ExecuteService_mock catch_std_def memcpy_from_def be32_def START_BYTE_def
      VERSION_def END_BYTE_def)

text \<open>
  Claim C1 says that a frame whose TOTAL_LENGTH field differs from its actual length is
  dropped. The code reads the field and discards it. The 11-byte frame below declares a
  length of 255; with the test handler registered for routine 0x1000 it is dispatched and
  answered.
\<close>

theorem mismatched_length_is_dispatched:
  "ProcessClientRequest LittleEndian \<lparr>services = [0x1000 \<mapsto> MockService LittleEndian 0x1000 0x1001 ''MockService'']\<rparr>
      (\<lambda>fd bytes. int (length bytes)) (replicate 8192 0) 7
      [0x7E, 0, 0, 0, 0xFF, 0, 0, 0x10, 0, 0x01, 0x7F] =
     (Inr 12, [Lock, Find 0x1000, Unlock, Invoke 0x1000 [],
               Send 7 [0x7E, 0, 0, 0, 0x0C, 0, 0, 0x10, 0x01, 0x01, 0x42, 0x7F]])"
  using ProcessClientRequest_parsed [where data = "[0x7E, 0, 0, 0, 0xFF, 0, 0, 0x10, 0, 0x01, 0x7F]"
      and h = LittleEndian and sm = "\<lparr>services = [0x1000 \<mapsto> MockService LittleEndian 0x1000 0x1001 ''MockService'']\<rparr>"
      and send = "\<lambda>fd bytes. int (length bytes)" and response = "replicate 8192 0"
      and client_fd = 7]
  by (simp add: ExecuteService_mock catch_std_def memcpy_from_def be32_def START_BYTE_def
      VERSION_def END_BYTE_def GetMinFrameSize_def)

subsection \<open>Disconnect and shutdown\<close>

text \<open>
  Claim C8. \<open>Disconnect\<close>, called by a thread that does not hold the channel's mutex, returns
  without an error from any state of the channel and leaves it disconnected with no socket;
  called again right after, it returns without an error and changes neither the channel nor
  the world (no descriptor is closed again). \<open>Stop\<close> leaves the server not running from any
  state, and a second \<open>Stop\<close> changes nothing.
\<close>

theorem Disconnect_Stop_idempotent:
  "(\<not> ch_mutex ch \<longrightarrow>
      fst (Disconnect net ch w) = Inr () \<and>
      \<not> IsConnected (fst (snd (Disconnect net ch w))) \<and>
      ch_socket_fd (fst (snd (Disconnect net ch w))) < 0 \<and>
      Disconnect net (fst (snd (Disconnect net ch w))) (snd (snd (Disconnect net ch w))) =
        (Inr (), snd (Disconnect net ch w))) \<and>
   \<not> srv_running (Stop srv) \<and>
   Stop (Stop srv) = Stop srv"
  by (auto simp: Disconnect_def lock_guard_def IsConnected_def Stop_def Let_def join_def
      HandleCleanup_def CloseAllClients_def split: thread.splits)

theorem Disconnect_Stop_idempotent_witness:
  "Disconnect (loopback LittleEndian \<lparr>services = Map.empty\<rparr>)
      ((Impl ''/tmp/ipc_demo.sock'' 5000)\<lparr>ch_socket_fd := 3, ch_connected := True\<rparr>)
      \<lparr>lw_pending = None, lw_closed = []\<rparr> =
     (Inr (), Impl ''/tmp/ipc_demo.sock'' 5000, \<lparr>lw_pending = None, lw_closed = [3]\<rparr>) \<and>
   Disconnect (loopback LittleEndian \<lparr>services = Map.empty\<rparr>) (Impl ''/tmp/ipc_demo.sock'' 5000)
      \<lparr>lw_pending = None, lw_closed = [3]\<rparr> =
     (Inr (), Impl ''/tmp/ipc_demo.sock'' 5000, \<lparr>lw_pending = None, lw_closed = [3]\<rparr>)"
  using Disconnect_Stop_idempotent [where net = "loopback LittleEndian \<lparr>services = Map.empty\<rparr>"
      and ch = "(Impl ''/tmp/ipc_demo.sock'' 5000)\<lparr>ch_socket_fd := 3, ch_connected := True\<rparr>"
      and w = "\<lparr>lw_pending = None, lw_closed = []\<rparr>"]
  by (simp add: Disconnect_def lock_guard_def Impl_def loopback_def)

subsection \<open>The divide operation\<close>

lemma not_less_iff_ge_or_nan:
  "(\<not> d_less (d_abs b) d_1e_10) = (d_greater_eq (d_abs b) d_1e_10 \<or> d_isnan b)"
proof -
  have abs_abs: "d_abs (d_abs b) = d_abs b"
    by (simp add: d_abs_def and.assoc)
  have nan_eps: "\<not> d_isnan d_1e_10"
    by (simp add: d_isnan_def d_abs_def d_1e_10_def)
  show ?thesis
    using nan_eps by (auto simp: d_less_def d_greater_eq_def d_isnan_def abs_abs)
qed

text \<open>
  Claim C10, amended. For all doubles \<open>a\<close> and \<open>b\<close>, divide returns \<open>DivisionByZero\<close> with result
  0.0 and the text "Division by zero" whenever \<open>|b| < 1e-10\<close>, which is so for \<open>b = 1e-11\<close>,
  \<open>b = -1e-11\<close> and \<open>b = 0.0\<close>; otherwise it returns \<open>Success\<close> with the quotient \<open>a / b\<close>.
  "Otherwise" is: \<open>|b| \<ge> 1e-10\<close>, or \<open>b\<close> is a NaN.
\<close>

theorem Divide_guard:
  "(d_less (d_abs b) d_1e_10 \<longrightarrow>
      CalculatorService_ExecuteOperation fp Operation_Divide a b =
        (DivisionByZero, d_zero, ''Division by zero'')) \<and>
   (\<not> d_less (d_abs b) d_1e_10 \<longrightarrow>
      CalculatorService_ExecuteOperation fp Operation_Divide a b = (Success, fdiv fp a b, [])) \<and>
   ((\<not> d_less (d_abs b) d_1e_10) = (d_greater_eq (d_abs b) d_1e_10 \<or> d_isnan b)) \<and>
   d_less (d_abs 0x3DA5FD7FE1796495) d_1e_10 \<and>
   d_less (d_abs 0xBDA5FD7FE1796495) d_1e_10 \<and>
   d_less (d_abs d_zero) d_1e_10"
proof (intro conjI impI)
  show "(\<not> d_less (d_abs b) d_1e_10) = (d_greater_eq (d_abs b) d_1e_10 \<or> d_isnan b)"
    by (rule not_less_iff_ge_or_nan)
  show "d_less (d_abs 0x3DA5FD7FE1796495) d_1e_10"
    by (simp add: d_less_def d_abs_def d_isnan_def d_key_def d_negative_def d_1e_10_def)
  show "d_less (d_abs 0xBDA5FD7FE1796495) d_1e_10"
    by (simp add: d_less_def d_abs_def d_isnan_def d_key_def d_negative_def d_1e_10_def)
  show "d_less (d_abs d_zero) d_1e_10"
    by (simp add: d_less_def d_abs_def d_isnan_def d_key_def d_negative_def d_1e_10_def d_zero_def)
qed (simp_all add: CalculatorService_ExecuteOperation_def Operation_Divide_def
      Operation_Add_def Operation_Subtract_def Operation_Multiply_def)

theorem Divide_guard_witness:
  "CalculatorService_ExecuteOperation
      \<lparr>fadd = (\<lambda>a b. b), fsub = (\<lambda>a b. b), fmul = (\<lambda>a b. b), fdiv = (\<lambda>a b. 0x4045000000000000)\<rparr>
      Operation_Divide 0x4045000000000000 0x3DA5FD7FE1796495 =
     (DivisionByZero, d_zero, ''Division by zero'') \<and>
   CalculatorService_ExecuteOperation
      \<lparr>fadd = (\<lambda>a b. b), fsub = (\<lambda>a b. b), fmul = (\<lambda>a b. b), fdiv = (\<lambda>a b. 0x4045000000000000)\<rparr>
      Operation_Divide 0x4045000000000000 0x3FF0000000000000 =
     (Success, 0x4045000000000000, [])"
  using Divide_guard [where b = "0x3DA5FD7FE1796495" and a = "0x4045000000000000" and fp =
      "\<lparr>fadd = (\<lambda>a b. b), fsub = (\<lambda>a b. b), fmul = (\<lambda>a b. b), fdiv = (\<lambda>a b. 0x4045000000000000)\<rparr>"]
    Divide_guard [where b = "0x3FF0000000000000" and a = "0x4045000000000000" and fp =
      "\<lparr>fadd = (\<lambda>a b. b), fsub = (\<lambda>a b. b), fmul = (\<lambda>a b. b), fdiv = (\<lambda>a b. 0x4045000000000000)\<rparr>"]
  by (simp add: d_less_def d_abs_def d_isnan_def d_key_def d_negative_def d_1e_10_def)

text \<open>
  Claim C10 says that the division is performed only when \<open>|b| \<ge> 1e-10\<close>. For a NaN divisor
  \<open>|b| < 1e-10\<close> is false, so the division is performed and the status is \<open>Success\<close>, and
  \<open>|b| \<ge> 1e-10\<close> is false as well. (The quotient of the floating-point unit below is its
  second operand.)
\<close>

theorem Divide_by_NaN_is_performed:
  "CalculatorService_ExecuteOperation
      \<lparr>fadd = (\<lambda>a b. b), fsub = (\<lambda>a b. b), fmul = (\<lambda>a b. b), fdiv = (\<lambda>a b. b)\<rparr>
      Operation_Divide 0x3FF0000000000000 0x7FF8000000000000 =
     (Success, 0x7FF8000000000000, []) \<and>
   \<not> d_greater_eq (d_abs 0x7FF8000000000000) d_1e_10"
  by (simp add: CalculatorService_ExecuteOperation_def Operation_Divide_def
      Operation_Add_def Operation_Subtract_def Operation_Multiply_def
      d_less_def d_greater_eq_def d_abs_def d_isnan_def d_key_def d_negative_def d_1e_10_def)

lemma length_wire_frame [simp]: "length (wire_frame rid payload) = 11 + length payload"
  by (simp add: wire_frame_def)

lemma frame_header:
  assumes "10 \<le> length region"
  shows "bb_then (PutByte START_BYTE) (bb_then (PutInt h 0) (bb_then (PutInt h rid)
           (bb_then (PutByte VERSION) k))) \<lparr>bb_buffer = region, bb_position = 0\<rparr> =
         k (poke ([START_BYTE] @ be32 0 @ be32 rid @ [VERSION]) \<lparr>bb_buffer = region, bb_position = 0\<rparr>)"
proof -
  let ?b0 = "\<lparr>bb_buffer = region, bb_position = 0\<rparr>"
  have cap: "Capacity ?b0 = length region" by (simp add: Capacity_def)
  have 1: "PutByte START_BYTE ?b0 = (Inr (), poke [START_BYTE] ?b0)"
    using assms by (intro PutByte_fits) (simp add: cap)
  have 2: "PutInt h 0 (poke [START_BYTE] ?b0) = (Inr (), poke (be32 0) (poke [START_BYTE] ?b0))"
    using assms by (intro PutInt_fits) (simp add: cap)
  have 3: "PutInt h rid (poke (be32 0) (poke [START_BYTE] ?b0)) =
           (Inr (), poke (be32 rid) (poke (be32 0) (poke [START_BYTE] ?b0)))"
    using assms by (intro PutInt_fits) (simp add: cap)
  have 4: "PutByte VERSION (poke (be32 rid) (poke (be32 0) (poke [START_BYTE] ?b0))) =
           (Inr (), poke [VERSION] (poke (be32 rid) (poke (be32 0) (poke [START_BYTE] ?b0))))"
    using assms by (intro PutByte_fits) (simp add: cap)
  have 5: "poke [VERSION] (poke (be32 rid) (poke (be32 0) (poke [START_BYTE] ?b0))) =
           poke ([START_BYTE] @ be32 0 @ be32 rid @ [VERSION]) ?b0"
    using assms by (simp add: poke_poke cap)
  show ?thesis
    by (simp add: bb_then_def bb_bind_def 1 2 3 4 5)
qed

lemma frame_patch:
  assumes "bb_position b = 11 + n" "11 + n \<le> Capacity b"
    "take 5 (bb_buffer b) = [START_BYTE] @ be32 0"
  shows "bb_bind bb_Position (\<lambda>frame_len.
           bb_then (SetPosition 1) (bb_then (PutInt h (of_nat frame_len))
             (bb_return (f frame_len)))) b =
         (Inr (f (11 + n)),
          \<lparr>bb_buffer = [START_BYTE] @ be32 (of_nat (11 + n)) @ drop 5 (bb_buffer b),
           bb_position = 5\<rparr>)"
proof -
  have "take 1 (bb_buffer b) = take 1 (take 5 (bb_buffer b))" by simp
  also have "\<dots> = [START_BYTE]" by (simp only: assms(3)) simp
  finally have t1: "take (Suc 0) (bb_buffer b) = [START_BYTE]" by simp
  then have ne: "bb_buffer b \<noteq> []" by auto
  show ?thesis
    using assms(1,2) t1 ne
    by (simp add: bb_bind_def bb_then_def bb_Position_def Position_def SetPosition_def
        bb_return_def PutInt_def WriteBytes_def CheckBoundary_def memcpy_to_def Capacity_def)
qed

lemma ExecuteRPC_frame_fits:
  assumes len: "length region = MAX_PACKET_SIZE" "length payload = request_len"
    and fits: "11 + request_len \<le> MAX_PACKET_SIZE"
  shows "ExecuteRPC_frame h rid (Some payload) request_len \<lparr>bb_buffer = region, bb_position = 0\<rparr> =
     (Inr (Some (11 + request_len)),
      \<lparr>bb_buffer = wire_frame rid payload @ drop (11 + request_len) region, bb_position = 5\<rparr>)"
proof -
  let ?b0 = "\<lparr>bb_buffer = region, bb_position = 0\<rparr>"
  let ?H = "[START_BYTE] @ be32 0 @ be32 rid @ [VERSION]"
  let ?b4 = "poke ?H ?b0"
  let ?b5 = "poke payload ?b4"
  let ?b6 = "poke [END_BYTE] ?b5"
  define PAY :: "bool bb" where "PAY =
       (case Some payload of
          Some payload \<Rightarrow>
            if request_len > 0
            then bb_bind bb_Position (\<lambda>pos b.
                   if pos + request_len \<ge> Capacity b then (Inr False, b)
                   else (case memcpy_to (bb_buffer b) pos payload request_len of
                           Inl e \<Rightarrow> (Inl e, b)
                         | Inr region \<Rightarrow>
                             bb_then (SetPosition (pos + request_len)) (bb_return True)
                               (b\<lparr>bb_buffer := region\<rparr>)))
            else bb_return True
        | None \<Rightarrow> bb_return True)"
  define PATCH :: "(nat option) bb" where "PATCH =
       bb_bind bb_Position (\<lambda>frame_len.
               bb_then (SetPosition 1)
              (bb_then (PutInt h (of_nat frame_len))
              (bb_return (Some frame_len))))"
  define K :: "bool \<Rightarrow> (nat option) bb" where "K =
       (\<lambda>fits. if \<not> fits then bb_return None else bb_then (PutByte END_BYTE) PATCH)"
  have unfold: "ExecuteRPC_frame h rid (Some payload) request_len =
      bb_then (PutByte START_BYTE) (bb_then (PutInt h 0) (bb_then (PutInt h rid)
        (bb_then (PutByte VERSION) (bb_bind PAY K))))"
    by (simp only: ExecuteRPC_frame_def PAY_def K_def PATCH_def)
  have cap: "Capacity ?b0 = MAX_PACKET_SIZE" using len by (simp add: Capacity_def)
  have r: "10 \<le> length region" using len by (simp add: MAX_PACKET_SIZE_def)
  have cap4: "Capacity ?b4 = MAX_PACKET_SIZE" "bb_position ?b4 = 10"
    using cap by (simp_all add: MAX_PACKET_SIZE_def)
  have pay: "PAY ?b4 = (Inr True, ?b5)"
  proof (cases "request_len > 0")
    case True
    have "\<not> 10 + request_len \<ge> MAX_PACKET_SIZE" using fits by simp
    then show ?thesis
      unfolding PAY_def
      using True cap4 len(2) fits
      by (simp add: bb_bind_def bb_Position_def Position_def memcpy_to_def bb_then_def
          SetPosition_def bb_return_def)
         (simp add: poke_def Capacity_def)
  next
    case False
    with len(2) have "payload = []" by simp
    with False show ?thesis unfolding PAY_def by (simp add: bb_return_def)
  qed
  have cap5: "Capacity ?b5 = MAX_PACKET_SIZE" "bb_position ?b5 = 10 + request_len"
    using cap4 fits len(2) by simp_all
  have 6: "PutByte END_BYTE ?b5 = (Inr (), ?b6)"
    using cap5 fits by (intro PutByte_fits) simp
  have b6: "?b6 = poke (?H @ payload @ [END_BYTE]) ?b0"
    using cap cap4 cap5 fits len(2) by (simp add: poke_poke)
  have buf6: "bb_buffer ?b6 = ?H @ payload @ [END_BYTE] @ drop (11 + request_len) region"
    unfolding b6 using len(2) by (simp add: poke_def)
  have pos6: "bb_position ?b6 = 11 + request_len"
    using cap5 by simp
  have cap6: "11 + request_len \<le> Capacity ?b6"
    unfolding b6 using cap fits len(2) by simp
  have t5: "take 5 (bb_buffer ?b6) = [START_BYTE] @ be32 0"
    unfolding buf6 by simp
  have patch: "PATCH ?b6 =
         (Inr (Some (11 + request_len)),
          \<lparr>bb_buffer = [START_BYTE] @ be32 (of_nat (11 + request_len)) @ drop 5 (bb_buffer ?b6),
           bb_position = 5\<rparr>)"
    unfolding PATCH_def by (rule frame_patch [OF pos6 cap6 t5])
  have final: "[START_BYTE] @ be32 (of_nat (11 + request_len)) @ drop 5 (bb_buffer ?b6) =
        wire_frame rid payload @ drop (11 + request_len) region"
    unfolding buf6 using len(2) by (simp add: wire_frame_def)
  have "ExecuteRPC_frame h rid (Some payload) request_len ?b0 = bb_bind PAY K ?b4"
    by (simp only: unfold frame_header [OF r])
  also have "\<dots> = K True ?b5"
    by (simp only: bb_bind_def pay prod.case sum.case)
  also have "\<dots> = PATCH ?b6"
    by (simp only: K_def not_True_eq_False if_False bb_then_def bb_bind_def 6 prod.case sum.case)
  finally show ?thesis
    by (simp only: patch final)
qed

lemma ExecuteRPC_frame_too_large:
  assumes len: "length region = MAX_PACKET_SIZE"
    and large: "MAX_PACKET_SIZE < 11 + request_len"
  shows "ExecuteRPC_frame h rid (Some payload) request_len \<lparr>bb_buffer = region, bb_position = 0\<rparr> =
     (Inr None,
      \<lparr>bb_buffer = [START_BYTE] @ be32 0 @ be32 rid @ [VERSION] @ drop 10 region,
       bb_position = 10\<rparr>)"
proof -
  let ?b0 = "\<lparr>bb_buffer = region, bb_position = 0\<rparr>"
  let ?H = "[START_BYTE] @ be32 0 @ be32 rid @ [VERSION]"
  let ?b4 = "poke ?H ?b0"
  have r: "10 \<le> length region" using len by (simp add: MAX_PACKET_SIZE_def)
  have cap4: "Capacity ?b4 = MAX_PACKET_SIZE" "bb_position ?b4 = 10"
    using len by (simp_all add: MAX_PACKET_SIZE_def Capacity_def poke_def)
  have b4: "?b4 = \<lparr>bb_buffer = ?H @ drop 10 region, bb_position = 10\<rparr>"
    by (simp add: poke_def)
  from large have pos: "request_len > 0" "10 + request_len \<ge> MAX_PACKET_SIZE"
    by (simp_all add: MAX_PACKET_SIZE_def)
  have "ExecuteRPC_frame h rid (Some payload) request_len ?b0 = (Inr None, ?b4)"
    unfolding ExecuteRPC_frame_def
    apply (simp only: frame_header [OF r])
    using pos cap4
    apply (simp add: bb_bind_def bb_Position_def Position_def bb_return_def)
    done
  then show ?thesis by (simp add: poke_def)
qed

lemma EnsureConnected_True:
  assumes "EnsureConnected net ch w = (Inr True, ch1, w1)" "\<not> ch_mutex ch"
  shows "\<not> ch_mutex ch1" "ch_buffer ch1 = ch_buffer ch" "ch_connected ch1"
    "ch_connected ch \<and> ch_socket_fd ch \<ge> 0 \<longrightarrow> ch1 = ch \<and> w1 = w"
  using assms
  by (auto simp: EnsureConnected_def Connect_def lock_guard_def Let_def
      split: if_splits prod.splits sum.splits)

lemma over_region_nonempty:
  "region \<noteq> [] \<Longrightarrow>
   over_region region m = (case m \<lparr>bb_buffer = region, bb_position = 0\<rparr> of (r, b') \<Rightarrow> (r, bb_buffer b'))"
  by (simp add: over_region_def ByteBuffer_ctor_def)

subsection \<open>The request frame of the channel\<close>

text \<open>
  Claim C7. Let the channel be connected, or get connected by \<open>EnsureConnected\<close>, with its
  buffer of 8192 bytes, and let the payload have \<open>request_len\<close> bytes.
  \<^item> If \<open>11 + request_len \<le> 8192\<close>, the frame block of \<open>ExecuteRPC\<close> leaves in the buffer, from
    offset 0, exactly START, TOTAL_LENGTH \<open>= 11 + request_len\<close>, the routine id, VERSION, the
    payload and END, with the cursor after the patched length field (offset 5); the bytes
    handed to the socket are this frame, and when they are sent \<open>ExecuteRPC\<close> goes on to
    receive.
  \<^item> If \<open>11 + request_len > 8192\<close>, \<open>ExecuteRPC\<close> returns false with the error "Request payload
    too large"; the world is as \<open>EnsureConnected\<close> left it (nothing was sent or received) and
    the channel is still connected.
  \<^item> If the channel was connected already, \<open>EnsureConnected\<close> does nothing to the channel and
    the world.
\<close>

theorem ExecuteRPC_frame_encoding:
  assumes "\<not> ch_mutex ch" "length (ch_buffer ch) = MAX_PACKET_SIZE"
    and "EnsureConnected net ch w = (Inr True, chc, wc)"
    and "length payload = request_len"
  shows
    "(11 + request_len \<le> MAX_PACKET_SIZE \<longrightarrow>
        ExecuteRPC_frame h routine_id (Some payload) request_len
            \<lparr>bb_buffer = ch_buffer chc, bb_position = 0\<rparr> =
          (Inr (Some (11 + request_len)),
           \<lparr>bb_buffer = wire_frame routine_id payload @ drop (11 + request_len) (ch_buffer chc),
            bb_position = 5\<rparr>) \<and>
        (net_send net (ch_socket_fd chc) (wire_frame routine_id payload) wc = (None, ws) \<longrightarrow>
           ExecuteRPC net h ch w routine_id (Some payload) request_len rsize =
             (case ExecuteRPC_receive net
                     (chc\<lparr>ch_mutex := True,
                          ch_buffer := wire_frame routine_id payload @
                                       drop (11 + request_len) (ch_buffer chc)\<rparr>) ws rsize of
                (ok, response, ch4, w3) \<Rightarrow> (Inr ok, response, ch4\<lparr>ch_mutex := False\<rparr>, w3)))) \<and>
     (MAX_PACKET_SIZE < 11 + request_len \<longrightarrow>
        ExecuteRPC net h ch w routine_id (Some payload) request_len rsize =
          (Inr False, [],
           chc\<lparr>ch_buffer := [START_BYTE] @ be32 0 @ be32 routine_id @ [VERSION] @
                              drop 10 (ch_buffer chc),
               ch_last_error := ''Request payload too large''\<rparr>, wc) \<and>
        ch_connected chc) \<and>
     (ch_connected ch \<and> ch_socket_fd ch \<ge> 0 \<longrightarrow> chc = ch \<and> wc = w)"
proof -
  note ec = EnsureConnected_True [OF assms(3) assms(1)]
  have lenc: "length (ch_buffer chc) = MAX_PACKET_SIZE"
    using ec(2) assms(2) by simp
  then have ne: "ch_buffer chc \<noteq> []" by (auto simp: MAX_PACKET_SIZE_def)
  have ne2: "ch_buffer (chc\<lparr>ch_mutex := True\<rparr>) \<noteq> []" using ne by simp
  show ?thesis
  proof (intro conjI impI)
    assume fits: "11 + request_len \<le> MAX_PACKET_SIZE"
    show fr: "ExecuteRPC_frame h routine_id (Some payload) request_len
            \<lparr>bb_buffer = ch_buffer chc, bb_position = 0\<rparr> =
          (Inr (Some (11 + request_len)),
           \<lparr>bb_buffer = wire_frame routine_id payload @ drop (11 + request_len) (ch_buffer chc),
            bb_position = 5\<rparr>)"
      by (rule ExecuteRPC_frame_fits [OF lenc assms(4) fits])
    assume send: "net_send net (ch_socket_fd chc) (wire_frame routine_id payload) wc = (None, ws)"
    have tk: "take (11 + request_len)
               (wire_frame routine_id payload @ drop (11 + request_len) (ch_buffer chc)) =
              wire_frame routine_id payload"
      using assms(4) by simp
    show "ExecuteRPC net h ch w routine_id (Some payload) request_len rsize =
             (case ExecuteRPC_receive net
                     (chc\<lparr>ch_mutex := True,
                          ch_buffer := wire_frame routine_id payload @
                                       drop (11 + request_len) (ch_buffer chc)\<rparr>) ws rsize of
                (ok, response, ch4, w3) \<Rightarrow> (Inr ok, response, ch4\<lparr>ch_mutex := False\<rparr>, w3))"
      using ec(1) ne
      by (simp add: ExecuteRPC_def assms(3) Let_def over_region_nonempty fr SendData_def
          assms(4) send)
  next
    assume large: "MAX_PACKET_SIZE < 11 + request_len"
    show "ExecuteRPC net h ch w routine_id (Some payload) request_len rsize =
          (Inr False, [],
           chc\<lparr>ch_buffer := [START_BYTE] @ be32 0 @ be32 routine_id @ [VERSION] @
                              drop 10 (ch_buffer chc),
               ch_last_error := ''Request payload too large''\<rparr>, wc)"
      using ec(1) ne
      by (simp add: ExecuteRPC_def assms(3) Let_def over_region_nonempty
          ExecuteRPC_frame_too_large [OF lenc large])
    show "ch_connected chc" by (rule ec(3))
  next
    assume "ch_connected ch \<and> ch_socket_fd ch \<ge> 0"
    with ec(4) show "chc = ch" "wc = w" by simp_all
  qed
qed

theorem ExecuteRPC_frame_encoding_witness:
  "fst (ExecuteRPC recording_net LittleEndian (Impl ''/tmp/ipc_demo.sock'' 5000) [] 0x1000
          (Some [0xAA, 0xBB]) 2 8192) = Inr True \<and>
   snd (snd (snd (ExecuteRPC recording_net LittleEndian (Impl ''/tmp/ipc_demo.sock'' 5000) [] 0x1000
          (Some [0xAA, 0xBB]) 2 8192))) =
     [[0x7E, 0, 0, 0, 0x0D, 0, 0, 0x10, 0, 0x01, 0xAA, 0xBB, 0x7F]] \<and>
   fst (ExecuteRPC recording_net LittleEndian (Impl ''/tmp/ipc_demo.sock'' 5000) [] 0x1000
          (Some (replicate 8182 0)) 8182 8192) = Inr False \<and>
   ch_last_error (fst (snd (snd (ExecuteRPC recording_net LittleEndian
          (Impl ''/tmp/ipc_demo.sock'' 5000) [] 0x1000 (Some (replicate 8182 0)) 8182 8192)))) =
     ''Request payload too large'' \<and>
   ch_connected (fst (snd (snd (ExecuteRPC recording_net LittleEndian
          (Impl ''/tmp/ipc_demo.sock'' 5000) [] 0x1000 (Some (replicate 8182 0)) 8182 8192)))) \<and>
   snd (snd (snd (ExecuteRPC recording_net LittleEndian (Impl ''/tmp/ipc_demo.sock'' 5000) [] 0x1000
          (Some (replicate 8182 0)) 8182 8192))) = []"
  using ExecuteRPC_frame_encoding [where net = recording_net and h = LittleEndian
      and ch = "Impl ''/tmp/ipc_demo.sock'' 5000" and w = "[]"
      and chc = "(Impl ''/tmp/ipc_demo.sock'' 5000)\<lparr>ch_socket_fd := 3, ch_connected := True\<rparr>"
      and wc = "[]" and payload = "[0xAA, 0xBB]" and request_len = 2 and routine_id = "0x1000"
      and ws = "[[0x7E, 0, 0, 0, 0x0D, 0, 0, 0x10, 0, 0x01, 0xAA, 0xBB, 0x7F]]" and rsize = 8192]
    ExecuteRPC_frame_encoding [where net = recording_net and h = LittleEndian
      and ch = "Impl ''/tmp/ipc_demo.sock'' 5000" and w = "[]"
      and chc = "(Impl ''/tmp/ipc_demo.sock'' 5000)\<lparr>ch_socket_fd := 3, ch_connected := True\<rparr>"
      and wc = "[]" and payload = "replicate 8182 0" and request_len = 8182
      and routine_id = "0x1000" and rsize = 8192]
  by (simp add: EnsureConnected_def Connect_def lock_guard_def Impl_def recording_net_def
      wire_frame_def be32_def ExecuteRPC_receive_def ReceiveData_def MAX_PACKET_SIZE_def
      START_BYTE_def VERSION_def END_BYTE_def)

lemma PutDouble_then:
  "bb_position b + 8 \<le> Capacity b \<Longrightarrow> bb_then (PutDouble h v) k b = k (poke (obj64 h v) b)"
  by (simp add: bb_then_def bb_bind_def PutDouble_fits)

lemma PutByte_then:
  "bb_position b + 1 \<le> Capacity b \<Longrightarrow> bb_then (PutByte v) k b = k (poke [v] b)"
  by (simp add: bb_then_def bb_bind_def PutByte_fits)

lemma PutInt_then:
  "bb_position b + 4 \<le> Capacity b \<Longrightarrow> bb_then (PutInt h v) k b = k (poke (be32 v) b)"
  by (simp add: bb_then_def bb_bind_def PutInt_fits)

lemma PutString_then:
  "length s < 2 ^ 32 \<Longrightarrow> bb_position b + 4 + length s \<le> Capacity b \<Longrightarrow>
   bb_then (PutString h s) k b = k (poke (wire_string s) b)"
  by (simp add: bb_then_def bb_bind_def PutString_fits)

lemma Calculator_request:
  "over_region (replicate 17 0)
     (bb_then (PutByte op) (bb_then (PutDouble h a) (bb_then (PutDouble h b) bb_Position))) =
   (Inr 17, [op] @ obj64 h a @ obj64 h b)"
  by (simp add: over_region_def ByteBuffer_ctor_def PutByte_then PutDouble_then Capacity_def
      bb_Position_def Position_def poke_def)

lemma CalculatorService_response_frame:
  assumes "length msg < 2 ^ 32" "24 + length msg \<le> length region"
  shows "CalculatorService_response h st r msg \<lparr>bb_buffer = region, bb_position = 0\<rparr> =
     (Inr (24 + length msg),
      \<lparr>bb_buffer = [START_BYTE] @ be32 (of_nat (24 + length msg)) @ be32 0x1001 @
                    [VERSION, status_byte st] @ obj64 h r @ wire_string msg @ [END_BYTE] @
                    drop (24 + length msg) region,
       bb_position = 5\<rparr>)"
proof -
  let ?b0 = "\<lparr>bb_buffer = region, bb_position = 0\<rparr>"
  let ?body = "[START_BYTE] @ be32 0 @ be32 0x1001 @ [VERSION] @ [status_byte st] @ obj64 h r @
               wire_string msg @ [END_BYTE]"
  define PATCH :: "nat bb" where "PATCH =
       bb_bind bb_Position (\<lambda>total_len.
         bb_then (SetPosition 1) (bb_then (PutInt h (of_nat total_len)) (bb_return total_len)))"
  have r: "10 \<le> length region" using assms by simp
  have cap: "Capacity ?b0 = length region" by (simp add: Capacity_def)
  let ?b4 = "poke ([START_BYTE] @ be32 0 @ be32 0x1001 @ [VERSION]) ?b0"
  have "CalculatorService_response h st r msg ?b0 =
        bb_then (PutByte (status_byte st)) (bb_then (PutDouble h r) (bb_then (PutString h msg)
          (bb_then (PutByte END_BYTE) PATCH))) ?b4"
    unfolding CalculatorService_response_def PATCH_def by (simp only: frame_header [OF r])
  also have "\<dots> = PATCH (poke [END_BYTE] (poke (wire_string msg) (poke (obj64 h r)
                        (poke [status_byte st] ?b4))))"
    using assms by (simp add: PutByte_then PutDouble_then PutString_then cap)
  also have "poke [END_BYTE] (poke (wire_string msg) (poke (obj64 h r)
                        (poke [status_byte st] ?b4))) = poke ?body ?b0"
    using assms by (simp add: poke_poke cap)
  finally have 1: "CalculatorService_response h st r msg ?b0 = PATCH (poke ?body ?b0)" .
  have buf: "bb_buffer (poke ?body ?b0) = ?body @ drop (24 + length msg) region"
    by (simp add: poke_def)
  have pos: "bb_position (poke ?body ?b0) = 11 + (13 + length msg)" by simp
  have cap6: "11 + (13 + length msg) \<le> Capacity (poke ?body ?b0)"
    using assms by (simp add: cap)
  have t5: "take 5 (bb_buffer (poke ?body ?b0)) = [START_BYTE] @ be32 0"
    unfolding buf by simp
  have "PATCH (poke ?body ?b0) =
       (Inr (11 + (13 + length msg)),
        \<lparr>bb_buffer = [START_BYTE] @ be32 (of_nat (11 + (13 + length msg))) @
                      drop 5 (bb_buffer (poke ?body ?b0)),
         bb_position = 5\<rparr>)"
    unfolding PATCH_def by (rule frame_patch [OF pos cap6 t5])
  then show ?thesis
    unfolding 1 buf by simp
qed

lemma bb_bind_at:
  "get b = (Inr v, seek p b) \<Longrightarrow> bb_bind get f b = f v (seek p b)"
  by (simp add: bb_bind_def)

lemma Calculator_request_parse:
  "over_region ([op] @ obj64 h a @ obj64 h b)
     (bb_bind GetByte (\<lambda>op_byte.
      bb_bind (GetDouble h) (\<lambda>operand_a.
      bb_bind (GetDouble h) (\<lambda>operand_b.
      bb_return (op_byte, operand_a, operand_b))))) =
   (Inr (op, a, b), [op] @ obj64 h a @ obj64 h b)"
proof -
  let ?d = "[op] @ obj64 h a @ obj64 h b"
  let ?b0 = "\<lparr>bb_buffer = ?d, bb_position = 0\<rparr>"
  have 1: "GetByte ?b0 = (Inr op, seek 1 ?b0)"
    using GetByte_at [of ?b0 op "obj64 h a @ obj64 h b"] by (simp add: Capacity_def)
  have 2: "GetDouble h (seek 1 ?b0) = (Inr a, seek 9 ?b0)"
    using GetDouble_at [of "seek 1 ?b0" h a "obj64 h b"] by (simp add: Capacity_def)
  have 3: "GetDouble h (seek 9 ?b0) = (Inr b, seek 17 ?b0)"
    using GetDouble_at [of "seek 9 ?b0" h b "[]"] by (simp add: Capacity_def)
  have "bb_bind GetByte (\<lambda>op_byte.
      bb_bind (GetDouble h) (\<lambda>operand_a.
      bb_bind (GetDouble h) (\<lambda>operand_b.
      bb_return (op_byte, operand_a, operand_b)))) ?b0 = (Inr (op, a, b), seek 17 ?b0)"
    by (simp only: bb_bind_def 1 2 3 prod.case sum.case bb_return_def)
  then show ?thesis
    by (simp add: over_region_def ByteBuffer_ctor_def)
qed

lemma CalculatorService_divide_by_zero:
  assumes "40 \<le> length out"
  shows "CalculatorService_Execute h fp ([Operation_Divide] @ obj64 h a @ obj64 h d_zero) out =
     (Inr 40,
      [START_BYTE] @ be32 40 @ be32 0x1001 @ [VERSION, 0x01] @ obj64 h d_zero @
      wire_string ''Division by zero'' @ [END_BYTE] @ drop 40 out)"
proof -
  have z: "d_less (d_abs d_zero) d_1e_10"
    by (simp add: d_less_def d_abs_def d_isnan_def d_key_def d_negative_def d_1e_10_def d_zero_def)
  have op: "CalculatorService_ExecuteOperation fp Operation_Divide a d_zero =
            (DivisionByZero, d_zero, ''Division by zero'')"
    using z by (simp add: CalculatorService_ExecuteOperation_def Operation_Divide_def
        Operation_Add_def Operation_Subtract_def Operation_Multiply_def)
  have ne: "out \<noteq> []" using assms by auto
  have resp: "over_region out
          (CalculatorService_response h DivisionByZero d_zero ''Division by zero'') =
        (Inr 40,
         [START_BYTE] @ be32 40 @ be32 0x1001 @ [VERSION, 0x01] @ obj64 h d_zero @
         wire_string ''Division by zero'' @ [END_BYTE] @ drop 40 out)"
    using assms ne
      CalculatorService_response_frame [of "''Division by zero''" out h DivisionByZero d_zero]
    by (simp add: over_region_nonempty)
  show ?thesis
    unfolding CalculatorService_Execute_def
    by (simp only: Calculator_request_parse prod.case sum.case op resp)
qed

lemma Calculator_parse_failure:
  assumes "length msg < 2 ^ 32" "st \<noteq> 0"
  shows "over_region ([START_BYTE] @ be32 n @ be32 0x1001 @ [VERSION, st] @ obj64 h v @
                      wire_string msg @ [END_BYTE])
           (Calculator_parse h res) =
         (Inr (res\<lparr>res_success := False, res_error_message := msg\<rparr>),
          [START_BYTE] @ be32 n @ be32 0x1001 @ [VERSION, st] @ obj64 h v @
                      wire_string msg @ [END_BYTE])"
proof -
  let ?R = "[START_BYTE] @ be32 n @ be32 0x1001 @ [VERSION, st] @ obj64 h v @
            wire_string msg @ [END_BYTE]"
  let ?b0 = "\<lparr>bb_buffer = ?R, bb_position = 0\<rparr>"
  have cap: "Capacity ?b0 = 24 + length msg" by (simp add: Capacity_def)
  have 1: "GetByte ?b0 = (Inr START_BYTE, seek 1 ?b0)"
    using GetByte_at [of ?b0 START_BYTE "be32 n @ be32 0x1001 @ [VERSION, st] @ obj64 h v @
            wire_string msg @ [END_BYTE]"] by (simp add: Capacity_def)
  have 2: "GetInt h (seek 1 ?b0) = (Inr n, seek 5 ?b0)"
    using GetInt_at [of "seek 1 ?b0" n "be32 0x1001 @ [VERSION, st] @ obj64 h v @
            wire_string msg @ [END_BYTE]" h] by (simp add: Capacity_def)
  have 3: "GetInt h (seek 5 ?b0) = (Inr 0x1001, seek 9 ?b0)"
    using GetInt_at [of "seek 5 ?b0" "0x1001" "[VERSION, st] @ obj64 h v @
            wire_string msg @ [END_BYTE]" h] by (simp add: Capacity_def)
  have 4: "GetByte (seek 9 ?b0) = (Inr VERSION, seek 10 ?b0)"
    using GetByte_at [of "seek 9 ?b0" VERSION "[st] @ obj64 h v @
            wire_string msg @ [END_BYTE]"] by (simp add: Capacity_def)
  have 5: "GetByte (seek 10 ?b0) = (Inr st, seek 11 ?b0)"
    using GetByte_at [of "seek 10 ?b0" st "obj64 h v @ wire_string msg @ [END_BYTE]"]
    by (simp add: Capacity_def)
  have 6: "GetDouble h (seek 11 ?b0) = (Inr v, seek 19 ?b0)"
    using GetDouble_at [of "seek 11 ?b0" h v "wire_string msg @ [END_BYTE]"]
    by (simp add: Capacity_def)
  have 7: "GetString h (seek 19 ?b0) = (Inr msg, seek (19 + (4 + length msg)) ?b0)"
    using GetString_at [of "seek 19 ?b0" msg "[END_BYTE]" h] assms(1)
    by (simp add: Capacity_def)
  have stnz: "(st = 0x00) = False" using assms(2) by simp
  have "Calculator_parse h res ?b0 =
        (Inr (res\<lparr>res_success := False, res_error_message := msg\<rparr>),
         seek (19 + (4 + length msg)) ?b0)"
    unfolding Calculator_parse_def
    by (simp only: bb_bind_def 1 2 3 4 5 6 7 prod.case sum.case bb_return_def
        RESPONSE_ROUTINE_ID_def simp_thms if_True if_False stnz)
  then show ?thesis
    by (simp add: over_region_def ByteBuffer_ctor_def)
qed

lemma nth_wire_frame:
  "wire_frame rid payload ! 0 = START_BYTE"
  "wire_frame rid payload ! 9 = VERSION"
  "de32 (take 4 (drop 5 (wire_frame rid payload))) = rid"
  "take (length (wire_frame rid payload) - 10 - 1) (drop 10 (wire_frame rid payload)) = payload"
  by (simp_all add: wire_frame_def nth_append)

lemma ProcessClientRequest_wire_frame:
  "ProcessClientRequest h sm send response client_fd (wire_frame rid payload) =
     catch_std
       (case ExecuteService sm rid payload response of
          (Inl e, response', tr) \<Rightarrow> (Inl e, tr)
        | (Inr response_len, response', tr) \<Rightarrow>
            if response_len > 0
            then (case memcpy_from response' 0 response_len of
                    Inl e \<Rightarrow> (Inl e, tr)
                  | Inr out \<Rightarrow>
                      (if send client_fd out < 0 then Inr 0 else Inr response_len,
                       tr @ [Send client_fd out]))
            else (Inr 0, tr))"
proof -
  have "GetMinFrameSize \<le> length (wire_frame rid payload)"
    by (simp add: GetMinFrameSize_def)
  from ProcessClientRequest_parsed [OF this] show ?thesis
    by (simp only: nth_wire_frame) simp
qed

lemma ExecuteRPC_sends:
  assumes "\<not> ch_mutex ch" "length (ch_buffer ch) = MAX_PACKET_SIZE"
    and "EnsureConnected net ch w = (Inr True, chc, wc)"
    and "length payload = request_len" "11 + request_len \<le> MAX_PACKET_SIZE"
    and "net_send net (ch_socket_fd chc) (wire_frame routine_id payload) wc = (None, ws)"
  shows "ExecuteRPC net h ch w routine_id (Some payload) request_len rsize =
             (case ExecuteRPC_receive net
                     (chc\<lparr>ch_mutex := True,
                          ch_buffer := wire_frame routine_id payload @
                                       drop (11 + request_len) (ch_buffer chc)\<rparr>) ws rsize of
                (ok, response, ch4, w3) \<Rightarrow> (Inr ok, response, ch4\<lparr>ch_mutex := False\<rparr>, w3))"
proof -
  note ec = EnsureConnected_True [OF assms(3) assms(1)]
  have lenc: "length (ch_buffer chc) = MAX_PACKET_SIZE"
    using ec(2) assms(2) by simp
  then have ne: "ch_buffer chc \<noteq> []" by (auto simp: MAX_PACKET_SIZE_def)
  have fr: "ExecuteRPC_frame h routine_id (Some payload) request_len
            \<lparr>bb_buffer = ch_buffer chc, bb_position = 0\<rparr> =
          (Inr (Some (11 + request_len)),
           \<lparr>bb_buffer = wire_frame routine_id payload @ drop (11 + request_len) (ch_buffer chc),
            bb_position = 5\<rparr>)"
    by (rule ExecuteRPC_frame_fits [OF lenc assms(4) assms(5)])
  show ?thesis
    using ec(1) ne
    by (simp add: ExecuteRPC_def assms(3) Let_def over_region_nonempty fr SendData_def
        assms(4) assms(6))
qed

lemma loopback_divide_by_zero:
  "fst (Calculator_Divide (loopback h \<lparr>services = [0x1000 \<mapsto> CalculatorService h fp]\<rparr>) h
          (Impl path timeout) \<lparr>lw_pending = None, lw_closed = []\<rparr> a d_zero) =
   Inr \<lparr>res_success = False, res_value = d_zero, res_error_message = ''Division by zero''\<rparr>"
proof -
  let ?sm = "\<lparr>services = [0x1000 \<mapsto> CalculatorService h fp]\<rparr>"
  let ?net = "loopback h ?sm"
  let ?w0 = "\<lparr>lw_pending = None, lw_closed = []\<rparr>"
  let ?ch0 = "Impl path timeout"
  let ?chc = "?ch0\<lparr>ch_socket_fd := 3, ch_connected := True\<rparr>"
  let ?payload = "[Operation_Divide] @ obj64 h a @ obj64 h d_zero"
  let ?R = "[START_BYTE] @ be32 40 @ be32 0x1001 @ [VERSION, 0x01] @ obj64 h d_zero @
            wire_string ''Division by zero'' @ [END_BYTE]"
  have ec: "EnsureConnected ?net ?ch0 ?w0 = (Inr True, ?chc, ?w0)"
    by (simp add: EnsureConnected_def Connect_def lock_guard_def Impl_def loopback_def)
  have exec: "ExecuteService ?sm 0x1000 ?payload (replicate MAX_PACKET_SIZE 0) =
      (Inr 40, ?R @ drop 40 (replicate MAX_PACKET_SIZE 0),
       [Lock, Find 0x1000, Unlock, Invoke 0x1000 ?payload])"
    using CalculatorService_divide_by_zero [of "replicate MAX_PACKET_SIZE 0" h fp a]
    by (simp add: ExecuteService_def CalculatorService_def MAX_PACKET_SIZE_def)
  have mc: "memcpy_from (?R @ drop 40 (replicate MAX_PACKET_SIZE 0)) 0 40 = Inr ?R"
    by (simp add: memcpy_from_def MAX_PACKET_SIZE_def)
  have server: "ProcessClientRequest h ?sm (\<lambda>fd bytes. int (length bytes))
        (replicate MAX_PACKET_SIZE 0) 7 (wire_frame 0x1000 ?payload) =
      (Inr 40, [Lock, Find 0x1000, Unlock, Invoke 0x1000 ?payload, Send 7 ?R])"
    unfolding ProcessClientRequest_wire_frame exec
    by (simp only: prod.case sum.case mc) (simp add: catch_std_def)
  have send: "net_send ?net (ch_socket_fd ?chc) (wire_frame 0x1000 ?payload) ?w0 =
      (None, ?w0\<lparr>lw_pending := Some ?R\<rparr>)"
    by (simp only: loopback_def net.select_convs server snd_conv sent_bytes.simps)
  have recv: "ExecuteRPC_receive ?net
        (?chc\<lparr>ch_mutex := True,
              ch_buffer := wire_frame 0x1000 ?payload @ drop (11 + 17) (ch_buffer ?chc)\<rparr>)
        (?w0\<lparr>lw_pending := Some ?R\<rparr>) MAX_PACKET_SIZE =
      (True, ?R,
       ?chc\<lparr>ch_mutex := True,
             ch_buffer := wire_frame 0x1000 ?payload @ drop (11 + 17) (ch_buffer ?chc)\<rparr>,
       ?w0\<lparr>lw_pending := None\<rparr>)"
    by (simp add: ExecuteRPC_receive_def ReceiveData_def loopback_def MAX_PACKET_SIZE_def)
  have rpc: "ExecuteRPC ?net h ?ch0 ?w0 0x1000 (Some ?payload) 17 MAX_PACKET_SIZE =
      (Inr True, ?R,
       ?chc\<lparr>ch_mutex := True,
             ch_buffer := wire_frame 0x1000 ?payload @ drop (11 + 17) (ch_buffer ?chc)\<rparr>
           \<lparr>ch_mutex := False\<rparr>,
       ?w0\<lparr>lw_pending := None\<rparr>)"
  proof -
    have "ExecuteRPC ?net h ?ch0 ?w0 0x1000 (Some ?payload) 17 MAX_PACKET_SIZE =
          (case ExecuteRPC_receive ?net
                     (?chc\<lparr>ch_mutex := True,
                          ch_buffer := wire_frame 0x1000 ?payload @
                                       drop (11 + 17) (ch_buffer ?chc)\<rparr>)
                     (?w0\<lparr>lw_pending := Some ?R\<rparr>) MAX_PACKET_SIZE of
                (ok, response, ch4, w3) \<Rightarrow> (Inr ok, response, ch4\<lparr>ch_mutex := False\<rparr>, w3))"
      by (rule ExecuteRPC_sends [OF _ _ ec _ _ send])
         (simp_all add: Impl_def MAX_PACKET_SIZE_def)
    then show ?thesis by (simp only: recv prod.case)
  qed
  have parse: "over_region ?R (Calculator_parse h
        \<lparr>res_success = False, res_value = d_zero, res_error_message = []\<rparr>) =
      (Inr (\<lparr>res_success = False, res_value = d_zero, res_error_message = []\<rparr>
              \<lparr>res_success := False, res_error_message := ''Division by zero''\<rparr>), ?R)"
    by (rule Calculator_parse_failure) simp_all
  show ?thesis
    unfolding Calculator_Divide_def Calculator_ExecuteOperation_def Let_def
    by (simp only: Calculator_request prod.case sum.case REQUEST_ROUTINE_ID_def rpc parse
        bool.case fst_conv)
       simp
qed

text \<open>Claim C9. Dividing 42.0 (the bit pattern \<open>0x4045000000000000\<close>) by 0.0 fails: the
  service's operation yields the status DivisionByZero, whose byte is 0x01 and not the success
  byte, the value 0.0 and the text "Division by zero", which mentions "zero"; the response
  frame that \<open>Execute\<close> writes carries that status byte, that value and that text; and a
  \<open>Calculator\<close> proxy whose channel reaches a server with the calculator service registered
  returns from \<open>Divide\<close> a \<open>Result\<close> with \<open>success = false\<close> and that error message. This holds
  on either byte order and whatever the floating-point unit computes.\<close>

theorem Divide_by_zero_fails:
  "CalculatorService_ExecuteOperation fp Operation_Divide 0x4045000000000000 d_zero =
     (DivisionByZero, d_zero, ''Division by zero'') \<and>
   status_byte DivisionByZero = 0x01 \<and>
   status_byte DivisionByZero \<noteq> status_byte Success \<and>
   ''Division by zero'' = ''Division by '' @ ''zero'' \<and>
   CalculatorService_Execute h fp
       ([Operation_Divide] @ obj64 h 0x4045000000000000 @ obj64 h d_zero)
       (replicate MAX_PACKET_SIZE 0) =
     (Inr 40,
      [START_BYTE] @ be32 40 @ be32 0x1001 @ [VERSION, status_byte DivisionByZero] @
      obj64 h d_zero @ wire_string ''Division by zero'' @ [END_BYTE] @
      replicate (MAX_PACKET_SIZE - 40) 0) \<and>
   fst (Calculator_Divide (loopback h \<lparr>services = [0x1000 \<mapsto> CalculatorService h fp]\<rparr>) h
          (Impl ''/tmp/ipc_demo.sock'' 5000) \<lparr>lw_pending = None, lw_closed = []\<rparr>
          0x4045000000000000 d_zero) =
     Inr \<lparr>res_success = False, res_value = d_zero, res_error_message = ''Division by zero''\<rparr>"
proof (intro conjI)
  have z: "d_less (d_abs d_zero) d_1e_10"
    by (simp add: d_less_def d_abs_def d_isnan_def d_key_def d_negative_def d_1e_10_def
        d_zero_def)
  show "CalculatorService_ExecuteOperation fp Operation_Divide 0x4045000000000000 d_zero =
     (DivisionByZero, d_zero, ''Division by zero'')"
    using z by (simp add: CalculatorService_ExecuteOperation_def Operation_Divide_def
        Operation_Add_def Operation_Subtract_def Operation_Multiply_def)
  show "CalculatorService_Execute h fp
       ([Operation_Divide] @ obj64 h 0x4045000000000000 @ obj64 h d_zero)
       (replicate MAX_PACKET_SIZE 0) =
     (Inr 40,
      [START_BYTE] @ be32 40 @ be32 0x1001 @ [VERSION, status_byte DivisionByZero] @
      obj64 h d_zero @ wire_string ''Division by zero'' @ [END_BYTE] @
      replicate (MAX_PACKET_SIZE - 40) 0)"
    using CalculatorService_divide_by_zero
      [of "replicate MAX_PACKET_SIZE 0" h fp "0x4045000000000000"]
    by (simp add: MAX_PACKET_SIZE_def)
  show "fst (Calculator_Divide (loopback h \<lparr>services = [0x1000 \<mapsto> CalculatorService h fp]\<rparr>) h
          (Impl ''/tmp/ipc_demo.sock'' 5000) \<lparr>lw_pending = None, lw_closed = []\<rparr>
          0x4045000000000000 d_zero) =
     Inr \<lparr>res_success = False, res_value = d_zero, res_error_message = ''Division by zero''\<rparr>"
    by (rule loopback_divide_by_zero)
qed simp_all

end
